(* ===== verification/Prelude.thy ===== *)
theory Prelude
  imports Main "HOL-Library.State_Monad" "HOL-Library.Sublist" "HOL-Library.Multiset"
    "HOL-Library.Char_ord" "HOL-Library.List_Lexorder" "HOL-Library.Word"
begin

text \<open>
  What every theory of the development shares: the names of the model's basic types, the
  collections that carry the automation, the effect calculus for stateful code, and lemmas
  on lists and options that the components use.

  A stateful Go function is a value of the library's state monad: it takes the world and
  returns its result together with the new world. An \<^emph>\<open>effect\<close> is a reflexive and
  transitive relation between the world before and after; the locale \<open>effect\<close> says once
  how such a relation passes through return, sequencing, conditionals and case
  distinctions, so that each handler's frame condition is proved by its rules.
\<close>

type_synonym gotime = int
type_synonym duration = int

named_theorems effect_intros \<open>rules that carry an effect through the control structures\<close>
named_theorems table_simps \<open>equations of the database statements on a table\<close>
named_theorems run_simps \<open>equations that run a stateful operation\<close>

section \<open>Effects of stateful code\<close>

text \<open>\<open>effect_of R m\<close>: whatever the world, running \<open>m\<close> leads to a world related by \<open>R\<close>.\<close>

definition effect_of :: "('w \<Rightarrow> 'w \<Rightarrow> bool) \<Rightarrow> ('w, 'a) state \<Rightarrow> bool" where
  "effect_of R m \<longleftrightarrow> (\<forall>w. R w (snd (run_state m w)))"

lemma effect_ofI: "(\<And>w. R w (snd (run_state m w))) \<Longrightarrow> effect_of R m"
  by (simp add: effect_of_def)

lemma effect_ofD: "effect_of R m \<Longrightarrow> run_state m w = (a, w') \<Longrightarrow> R w w'"
  unfolding effect_of_def by (metis snd_conv)

lemma effect_of_mono: "effect_of R m \<Longrightarrow> (\<And>w w'. R w w' \<Longrightarrow> S w w') \<Longrightarrow> effect_of S m"
  by (auto simp: effect_of_def)

locale effect =
  fixes R :: "'w \<Rightarrow> 'w \<Rightarrow> bool"
  assumes effect_refl: "R w w"
    and effect_trans: "R u v \<Longrightarrow> R v w \<Longrightarrow> R u w"
begin

lemma effect_return: "effect_of R (State_Monad.return x)"
  by (simp add: effect_of_def effect_refl)

lemma effect_bind:
  assumes "effect_of R m" and "\<And>x. effect_of R (f x)"
  shows "effect_of R (State_Monad.bind m f)"
proof (rule effect_ofI)
  fix w
  obtain a w' where run: "run_state m w = (a, w')" by fastforce
  with assms(1) have "R w w'" by (rule effect_ofD)
  moreover obtain b w'' where run': "run_state (f a) w' = (b, w'')" by fastforce
  with assms(2) have "R w' w''" by (rule effect_ofD)
  ultimately show "R w (snd (run_state (State_Monad.bind m f) w))"
    using run run' by (auto intro: effect_trans)
qed

lemma effect_if: "(b \<Longrightarrow> effect_of R m) \<Longrightarrow> (\<not> b \<Longrightarrow> effect_of R n) \<Longrightarrow> effect_of R (if b then m else n)"
  by simp

lemma effect_option:
  "(x = None \<Longrightarrow> effect_of R m) \<Longrightarrow> (\<And>y. x = Some y \<Longrightarrow> effect_of R (f y)) \<Longrightarrow>
   effect_of R (case x of None \<Rightarrow> m | Some y \<Rightarrow> f y)"
  by (cases x) auto

lemma effect_sum:
  "(\<And>y. x = Inl y \<Longrightarrow> effect_of R (f y)) \<Longrightarrow> (\<And>y. x = Inr y \<Longrightarrow> effect_of R (g y)) \<Longrightarrow>
   effect_of R (case x of Inl y \<Rightarrow> f y | Inr y \<Rightarrow> g y)"
  by (cases x) auto

lemma effect_prod:
  "(\<And>a b. x = (a, b) \<Longrightarrow> effect_of R (f a b)) \<Longrightarrow> effect_of R (case x of (a, b) \<Rightarrow> f a b)"
  by (cases x) auto

lemma effect_let: "effect_of R (f x) \<Longrightarrow> effect_of R (let y = x in f y)"
  by simp

lemmas effect_rules = effect_return effect_bind effect_if effect_option effect_sum effect_prod
  effect_let

end

text \<open>\<open>yields P m\<close>: whatever the world, the result of \<open>m\<close> satisfies \<open>P\<close>.\<close>

definition yields :: "('a \<Rightarrow> bool) \<Rightarrow> ('w, 'a) state \<Rightarrow> bool" where
  "yields P m \<longleftrightarrow> (\<forall>w. P (fst (run_state m w)))"

lemma yieldsD: "yields P m \<Longrightarrow> run_state m w = (a, w') \<Longrightarrow> P a"
  unfolding yields_def by (metis fst_conv)

lemma yields_return: "P x \<Longrightarrow> yields P (State_Monad.return x)"
  by (simp add: yields_def)

lemma yields_bind:
  assumes "\<And>x. yields P (f x)"
  shows "yields P (State_Monad.bind m f)"
  using assms by (simp add: yields_def split: prod.splits)

lemma yields_bind_with:
  assumes "yields Q m" and "\<And>x. Q x \<Longrightarrow> yields P (f x)"
  shows "yields P (State_Monad.bind m f)"
  using assms unfolding yields_def by (auto split: prod.splits) (metis fst_conv snd_conv)

lemma yields_if: "(b \<Longrightarrow> yields P m) \<Longrightarrow> (\<not> b \<Longrightarrow> yields P n) \<Longrightarrow> yields P (if b then m else n)"
  by simp

lemma yields_option:
  "(x = None \<Longrightarrow> yields P m) \<Longrightarrow> (\<And>y. x = Some y \<Longrightarrow> yields P (f y)) \<Longrightarrow>
   yields P (case x of None \<Rightarrow> m | Some y \<Rightarrow> f y)"
  by (cases x) auto

lemma yields_sum:
  "(\<And>y. x = Inl y \<Longrightarrow> yields P (f y)) \<Longrightarrow> (\<And>y. x = Inr y \<Longrightarrow> yields P (g y)) \<Longrightarrow>
   yields P (case x of Inl y \<Rightarrow> f y | Inr y \<Rightarrow> g y)"
  by (cases x) auto

lemma yields_prod: "(\<And>a b. x = (a, b) \<Longrightarrow> yields P (f a b)) \<Longrightarrow> yields P (case x of (a, b) \<Rightarrow> f a b)"
  by (cases x) auto

lemmas yields_rules = yields_return yields_bind yields_if yields_option yields_sum yields_prod

section \<open>Lists and options\<close>

definition coalesce :: "'a option \<Rightarrow> 'a option \<Rightarrow> 'a option" where
  "coalesce x y = (case x of None \<Rightarrow> y | Some _ \<Rightarrow> x)"

lemma coalesce_simps [simp]:
  "coalesce None y = y" "coalesce (Some a) y = Some a" "coalesce x None = x" "coalesce x x = x"
  by (auto simp: coalesce_def split: option.splits)

lemma coalesce_absorb [simp]: "coalesce x (coalesce x y) = coalesce x y"
  by (cases x) auto

lemma coalesce_eq_Some: "coalesce x y = Some a \<longleftrightarrow> x = Some a \<or> (x = None \<and> y = Some a)"
  by (cases x) auto

lemma coalesce_eq_None: "coalesce x y = None \<longleftrightarrow> x = None \<and> y = None"
  by (cases x) auto

lemma find_map_frame:
  assumes "\<And>x. P (f x) = P x" and "\<And>x. P x \<Longrightarrow> f x = x"
  shows "List.find P (map f xs) = List.find P xs"
  using assms by (induction xs) auto

lemma find_append: "List.find P (xs @ ys) = (case List.find P xs of None \<Rightarrow> List.find P ys | Some x \<Rightarrow> Some x)"
  by (induction xs) auto

lemma length_filter_partition:
  "length (filter P xs) + length (filter (\<lambda>x. \<not> P x) xs) = length xs"
  by (rule sum_length_filter_compl)

lemma prefix_take [simp]: "prefix (take n xs) xs"
  by (metis append_take_drop_id prefixI)

lemma take_eq_concat_pages:
  "concat (map (\<lambda>i. take n (drop (i * n) xs)) [0..<k]) = take (k * n) xs"
proof (induction k)
  case 0
  show ?case by simp
next
  case (Suc k)
  have "take (Suc k * n) xs = take (k * n + n) xs" by (simp add: add.commute)
  also have "\<dots> = take (k * n) xs @ take n (drop (k * n) xs)" by (rule take_add)
  finally show ?case using Suc by simp
qed

text \<open>A list sorted by a key that tells its elements apart is determined by its elements.\<close>

lemma filter_key_inj:
  assumes "inj_on f (set xs)" and "k \<in> set xs"
  shows "filter (\<lambda>x. f k = f x) xs = replicate (count (mset xs) k) k"
  using assms
proof (induction xs)
  case (Cons a xs)
  have other: "filter (\<lambda>x. f k = f x) xs = replicate (count (mset xs) k) k"
  proof (cases "k \<in> set xs")
    case True
    with Cons show ?thesis by simp
  next
    case False
    then have "\<forall>x \<in> set xs. f k \<noteq> f x" using Cons.prems by (auto simp: inj_on_def)
    with False show ?thesis by (simp add: count_mset_0_iff)
  qed
  then show ?case using Cons.prems by (auto simp: inj_on_def)
qed simp

lemma sort_key_perm_unique:
  assumes "mset xs = mset ys" and "inj_on f (set xs)"
  shows "sort_key f xs = sort_key f ys"
proof (rule properties_for_sort_key)
  show "mset (sort_key f ys) = mset xs" using assms(1) by simp
  show "sorted (map f (sort_key f ys))" by simp
  have sets: "set (sort_key f ys) = set xs" using assms(1) by (metis mset_eq_setD mset_sort)
  fix k assume "k \<in> set (sort_key f ys)"
  then have "k \<in> set xs" using sets by simp
  then show "filter (\<lambda>x. f k = f x) (sort_key f ys) = filter (\<lambda>x. f k = f x) xs"
    using assms sets filter_key_inj [of f "sort_key f ys" k] filter_key_inj [of f xs k] by simp
qed

end
