(* ===== verification/Go_Std.thy ===== *)
theory Go_Std
  imports Prelude
begin

text \<open>
  The part of the Go language and its standard library that the plugin uses: 64-bit
  integers, \<open>strconv\<close>, \<open>strings\<close>, \<open>time.Duration\<close>, URL escaping and error values. A Go
  string is its bytes, one \<open>char\<close> each; an instant counts nanoseconds from Go's zero time, so
  \<open>Time.IsZero\<close> is \<open>= 0\<close>; a duration counts nanoseconds.
\<close>

section \<open>64-bit integers\<close>

definition i64 :: "int \<Rightarrow> int" where
  "i64 n = sint (word_of_int n :: 64 word)"

lemma i64_range: "- (2 ^ 63) \<le> i64 n" "i64 n < 2 ^ 63"
  using sint_range_size [of "word_of_int n :: 64 word"] by (simp_all add: i64_def word_size)

lemma i64_id: "- (2 ^ 63) \<le> n \<Longrightarrow> n < 2 ^ 63 \<Longrightarrow> i64 n = n"
  unfolding i64_def sint_sbintrunc' by (simp add: signed_take_bit_int_eq_self_iff)

section \<open>Decimal numbers: strconv.Itoa and strconv.Atoi\<close>

definition digit_char :: "int \<Rightarrow> char" where
  "digit_char d = char_of (48 + nat d)"

definition is_digit :: "char \<Rightarrow> bool" where
  "is_digit c \<longleftrightarrow> CHR ''0'' \<le> c \<and> c \<le> CHR ''9''"

definition digit_val :: "char \<Rightarrow> int" where
  "digit_val c = int (of_char c) - 48"

function digits10 :: "int \<Rightarrow> string" where
  "digits10 n = (if n < 10 then [digit_char n] else digits10 (n div 10) @ [digit_char (n mod 10)])"
  by pat_completeness auto
termination
  by (relation "measure nat") auto

declare digits10.simps [simp del]

definition itoa :: "int \<Rightarrow> string" where
  "itoa n = (if n < 0 then CHR ''-'' # digits10 (- n) else digits10 n)"

definition digits_value :: "string \<Rightarrow> int" where
  "digits_value s = foldl (\<lambda>v c. 10 * v + digit_val c) 0 s"

text \<open>\<open>strconv.Atoi\<close>: an optional sign and decimal digits, within the range of \<open>int\<close>.\<close>

definition atoi :: "string \<Rightarrow> int option" where
  "atoi s =
     (let (neg, ds) = (case s of
            [] \<Rightarrow> (False, [])
          | c # cs \<Rightarrow> (if c = CHR ''-'' then (True, cs)
                       else if c = CHR ''+'' then (False, cs) else (False, s)));
          v = (if neg then - digits_value ds else digits_value ds)
      in if ds = [] \<or> \<not> list_all is_digit ds then None
         else if v < - (2 ^ 63) \<or> 2 ^ 63 \<le> v then None
         else Some v)"

lemma is_digit_iff: "is_digit c \<longleftrightarrow> 48 \<le> (of_char c :: nat) \<and> of_char c \<le> (57 :: nat)"
  by (simp add: is_digit_def less_eq_char_def)

lemma is_digit_digit_char: "0 \<le> d \<Longrightarrow> d < 10 \<Longrightarrow> is_digit (digit_char d)"
  by (simp add: is_digit_iff digit_char_def)

lemma digit_val_digit_char: "0 \<le> d \<Longrightarrow> d < 10 \<Longrightarrow> digit_val (digit_char d) = d"
  by (simp add: digit_val_def digit_char_def)

lemma digits_value_snoc: "digits_value (s @ [c]) = 10 * digits_value s + digit_val c"
  by (simp add: digits_value_def)

lemma digits10_ok: "0 \<le> n \<Longrightarrow> list_all is_digit (digits10 n) \<and> digits10 n \<noteq> [] \<and> digits_value (digits10 n) = n"
proof (induction n rule: digits10.induct)
  case (1 n)
  show ?case
  proof (cases "n < 10")
    case True
    with 1 show ?thesis
      by (subst (1 2 3) digits10.simps)
        (simp add: is_digit_digit_char digits_value_def digit_val_digit_char)
  next
    case False
    with 1 have IH: "list_all is_digit (digits10 (n div 10))" "digits_value (digits10 (n div 10)) = n div 10"
      by auto
    from False have "digits10 n = digits10 (n div 10) @ [digit_char (n mod 10)]"
      by (subst digits10.simps) simp
    then show ?thesis using IH
      by (simp add: is_digit_digit_char digits_value_snoc digit_val_digit_char)
  qed
qed

lemma is_digit_sign [simp]: "\<not> is_digit (CHR ''-'')" "\<not> is_digit (CHR ''+'')"
  by (simp_all add: is_digit_iff)

lemma is_digit_neq_sign: "is_digit c \<Longrightarrow> c \<noteq> CHR ''-'' \<and> c \<noteq> CHR ''+''"
  by (metis is_digit_sign)

lemma atoi_itoa: "- (2 ^ 63) \<le> n \<Longrightarrow> n < 2 ^ 63 \<Longrightarrow> atoi (itoa n) = Some n"
proof -
  assume b: "- (2 ^ 63) \<le> n" "n < 2 ^ 63"
  show ?thesis
  proof (cases "n < 0")
    case True
    then show ?thesis using b digits10_ok [of "- n"] by (simp add: itoa_def atoi_def Let_def)
  next
    case False
    then have ok: "list_all is_digit (digits10 n)" "digits10 n \<noteq> []" "digits_value (digits10 n) = n"
      using digits10_ok [of n] by auto
    then obtain c cs where "digits10 n = c # cs" by (cases "digits10 n") auto
    with ok False b show ?thesis
      using is_digit_neq_sign [of c] by (simp add: itoa_def atoi_def Let_def)
  qed
qed

lemma atoi_range: "atoi s = Some n \<Longrightarrow> - (2 ^ 63) \<le> n \<and> n < 2 ^ 63"
  by (auto simp: atoi_def Let_def split: if_splits list.splits)

section \<open>Package strings\<close>

definition has_prefix :: "string \<Rightarrow> string \<Rightarrow> bool" where
  "has_prefix s p \<longleftrightarrow> take (length p) s = p"

text \<open>\<open>strings.TrimRight(s, "/")\<close>.\<close>

definition trim_right_char :: "char \<Rightarrow> string \<Rightarrow> string" where
  "trim_right_char c s = rev (dropWhile (\<lambda>x. x = c) (rev s))"

lemma trim_right_char_last: "trim_right_char c s = [] \<or> last (trim_right_char c s) \<noteq> c"
proof (cases "dropWhile (\<lambda>x. x = c) (rev s)")
  case (Cons y ys)
  then have "y \<noteq> c" using hd_dropWhile [of "\<lambda>x. x = c" "rev s"] by simp
  then show ?thesis by (simp add: trim_right_char_def Cons)
qed (simp add: trim_right_char_def)

text \<open>
  \<open>strings.TrimSpace\<close> removes the code points of Unicode's White_Space; \<open>space_runes\<close> are
  their UTF-8 encodings.
\<close>

definition space_runes :: "string list" where
  "space_runes =
     map (\<lambda>n. [char_of (n :: nat)]) [9, 10, 11, 12, 13, 32] @
     map (map (char_of :: nat \<Rightarrow> char))
       ([[0xC2, 0x85], [0xC2, 0xA0], [0xE1, 0x9A, 0x80],
         [0xE2, 0x80, 0xA8], [0xE2, 0x80, 0xA9], [0xE2, 0x80, 0xAF],
         [0xE2, 0x81, 0x9F], [0xE3, 0x80, 0x80]] @
        map (\<lambda>n. [0xE2, 0x80, 0x80 + n]) [0, 1, 2, 3, 4, 5, 6, 7, 8, 9, 10])"

text \<open>Drops leading runs of the given encodings; the fuel is the length of the string.\<close>

fun drop_runes :: "nat \<Rightarrow> string list \<Rightarrow> string \<Rightarrow> string" where
  "drop_runes 0 rs s = s"
| "drop_runes (Suc k) rs s =
     (case List.find (has_prefix s) rs of None \<Rightarrow> s | Some r \<Rightarrow> drop_runes k rs (drop (length r) s))"

definition trim_space :: "string \<Rightarrow> string" where
  "trim_space s =
     (let l = drop_runes (length s) space_runes s
      in rev (drop_runes (length l) (map rev space_runes) (rev l)))"

text \<open>A string that starts and ends with graphic ASCII characters is left alone.\<close>

definition graphic :: "char \<Rightarrow> bool" where
  "graphic c \<longleftrightarrow> (33 :: nat) \<le> of_char c \<and> of_char c < (127 :: nat)"

lemma space_runes_not_graphic:
  "list_all (\<lambda>r. r \<noteq> [] \<and> \<not> graphic (hd r) \<and> \<not> graphic (last r)) space_runes"
  by (simp add: space_runes_def graphic_def)

lemma drop_runes_graphic:
  assumes "\<forall>r \<in> set rs. r \<noteq> [] \<and> \<not> graphic (hd r)" and "graphic c"
  shows "drop_runes k rs (c # s) = c # s"
proof -
  have "List.find (has_prefix (c # s)) rs = None"
    using assms by (auto simp: find_None_iff has_prefix_def take_Cons' split: if_splits) (metis list.sel(1))
  then show ?thesis by (cases k) auto
qed

lemma trim_space_graphic:
  assumes "s \<noteq> []" and "graphic (hd s)" and "graphic (last s)"
  shows "trim_space s = s"
proof -
  have 1: "drop_runes k space_runes s = s" for k
    using assms space_runes_not_graphic
    by (cases s) (auto simp: list_all_iff intro!: drop_runes_graphic)
  obtain c u where "rev s = c # u" using assms(1) by (cases "rev s") auto
  with assms have "rev s = last s # u" by (metis hd_rev list.sel(1))
  moreover have "\<forall>r \<in> set (map rev space_runes). r \<noteq> [] \<and> \<not> graphic (hd r)"
    using space_runes_not_graphic by (auto simp: list_all_iff hd_rev)
  ultimately have "drop_runes k (map rev space_runes) (rev s) = rev s" for k
    using assms(3) drop_runes_graphic by metis
  with 1 show ?thesis by (simp add: trim_space_def)
qed

lemma drop_runes_fixed:
  assumes "length s \<le> k" and "[] \<notin> set rs"
  shows "List.find (has_prefix (drop_runes k rs s)) rs = None"
  using assms(1)
proof (induction k arbitrary: s)
  case 0
  then show ?case using assms(2) by (auto simp: find_None_iff has_prefix_def)
next
  case (Suc k)
  show ?case
  proof (cases "List.find (has_prefix s) rs")
    case (Some r)
    then have "r \<in> set rs" "has_prefix s r" by (auto simp: find_Some_iff)
    then have "r \<noteq> []" using assms(2) by auto
    moreover have "length r \<le> length s"
      using \<open>has_prefix s r\<close> unfolding has_prefix_def by (metis length_take min.cobounded1)
    ultimately have "length (drop (length r) s) \<le> k" using Suc.prems by (cases r) auto
    from Suc.IH [OF this] Some show ?thesis by simp
  qed simp
qed

text \<open>
  \<open>strings.ToLower\<close>, as far as its result can be compared with an ASCII word: the capitals,
  and the two other code points whose lower case is ASCII (the dotted capital I and the
  Kelvin sign).
\<close>

definition lower_char :: "char \<Rightarrow> char" where
  "lower_char c = (if CHR ''A'' \<le> c \<and> c \<le> CHR ''Z'' then char_of (of_char c + (32 :: nat)) else c)"

fun to_lower :: "string \<Rightarrow> string" where
  "to_lower [] = []"
| "to_lower (c # cs) =
     (if take 2 (c # cs) = [CHR 0xC4, CHR 0xB0] then CHR ''i'' # to_lower (drop 1 cs)
      else if take 3 (c # cs) = [CHR 0xE2, CHR 0x84, CHR 0xAA] then CHR ''k'' # to_lower (drop 2 cs)
      else lower_char c # to_lower cs)"

section \<open>Package time\<close>

definition second :: duration where "second = 1000000000"
definition minute :: duration where "minute = 60 * second"
definition hour :: duration where "hour = 60 * minute"

text \<open>The conversion \<open>time.Duration(n) * time.Second\<close>: 64-bit multiplication.\<close>

definition seconds :: "int \<Rightarrow> duration" where
  "seconds n = i64 (n * second)"

text \<open>
  \<open>Duration.String\<close>: \<open>frac_digits v p\<close> prints \<open>v mod 10^p\<close> as \<open>p\<close> decimal places without
  trailing zeros.
\<close>

definition frac_digits :: "int \<Rightarrow> nat \<Rightarrow> string" where
  "frac_digits v p =
     (let ds = digits10 (v mod 10 ^ p);
          padded = replicate (p - length ds) (CHR ''0'') @ ds;
          kept = trim_right_char (CHR ''0'') padded
      in if kept = [] then [] else CHR ''.'' # kept)"

definition duration_string :: "duration \<Rightarrow> string" where
  "duration_string d =
     (let u = \<bar>d\<bar>; sign = (if d < 0 then ''-'' else [])
      in if u = 0 then ''0s''
         else if u < 1000 then sign @ digits10 u @ ''ns''
         else if u < 1000000 then sign @ digits10 (u div 1000) @ frac_digits u 3 @ [CHR 0xC2, CHR 0xB5] @ ''s''
         else if u < second then sign @ digits10 (u div 1000000) @ frac_digits u 6 @ ''ms''
         else
           (let s = u div second; m = s div 60; h = m div 60;
                secs = digits10 (s mod 60) @ frac_digits u 9 @ ''s''
            in if m = 0 then sign @ secs
               else if h = 0 then sign @ digits10 (m mod 60) @ ''m'' @ secs
               else sign @ digits10 h @ ''h'' @ digits10 (m mod 60) @ ''m'' @ secs))"

text \<open>\<open>Duration.Round\<close> for a positive unit: halves are rounded away from zero.\<close>

definition round_to :: "duration \<Rightarrow> duration \<Rightarrow> duration" where
  "round_to d m =
     (let r = \<bar>d\<bar> mod m; u = (if 2 * r < m then \<bar>d\<bar> - r else \<bar>d\<bar> - r + m)
      in if d < 0 then - u else u)"

section \<open>Package net/url\<close>

definition is_alnum :: "char \<Rightarrow> bool" where
  "is_alnum c \<longleftrightarrow> (CHR ''a'' \<le> c \<and> c \<le> CHR ''z'') \<or> (CHR ''A'' \<le> c \<and> c \<le> CHR ''Z'') \<or> is_digit c"

text \<open>
  The key of an HTTP header, \<open>textproto.CanonicalMIMEHeaderKey\<close>: capitals at the start and after
  each hyphen, unless the key is no token.
\<close>

definition upper_char :: "char \<Rightarrow> char" where
  "upper_char c = (if CHR ''a'' \<le> c \<and> c \<le> CHR ''z'' then char_of (of_char c - (32 :: nat)) else c)"

definition header_char :: "char \<Rightarrow> bool" where
  "header_char c \<longleftrightarrow> is_alnum c \<or> c \<in> set ''!#$%&*+-.^_|~'' \<or> c = CHR 0x27 \<or> c = CHR 0x60"

fun capitalize :: "bool \<Rightarrow> string \<Rightarrow> string" where
  "capitalize up [] = []"
| "capitalize up (c # cs) = (if up then upper_char c else lower_char c) # capitalize (c = CHR ''-'') cs"

definition canonical_header :: "string \<Rightarrow> string" where
  "canonical_header k = (if list_all header_char k then capitalize True k else k)"

lemma canonical_names [simp]:
  "canonical_header ''X-API-Key'' = ''X-Api-Key''"
  "canonical_header ''ETag'' = ''Etag''"
  "canonical_header ''Etag'' = ''Etag''"
  "canonical_header ''Range'' = ''Range''"
  "canonical_header ''Retry-After'' = ''Retry-After''"
  "canonical_header ''X-Silo-Theme'' = ''X-Silo-Theme''"
  "canonical_header ''Content-Type'' = ''Content-Type''"
  "canonical_header ''Content-Length'' = ''Content-Length''"
  "canonical_header ''Content-Disposition'' = ''Content-Disposition''"
  "canonical_header ''Content-Range'' = ''Content-Range''"
  "canonical_header ''Cache-Control'' = ''Cache-Control''"
  "canonical_header ''Last-Modified'' = ''Last-Modified''"
  "canonical_header ''Accept-Ranges'' = ''Accept-Ranges''"
  by code_simp+

definition hex_digit :: "nat \<Rightarrow> char" where
  "hex_digit n = (if n < 10 then char_of (48 + n) else char_of (55 + n))"

definition percent :: "char \<Rightarrow> string" where
  "percent c = [CHR ''%'', hex_digit (of_char c div 16), hex_digit (of_char c mod 16)]"

text \<open>\<open>shouldEscape\<close> in the modes of \<open>PathEscape\<close> (a path segment) and \<open>QueryEscape\<close>.\<close>

definition path_plain :: "char \<Rightarrow> bool" where
  "path_plain c \<longleftrightarrow> is_alnum c \<or> c \<in> set ''-_.~$&+=:@''"

definition query_plain :: "char \<Rightarrow> bool" where
  "query_plain c \<longleftrightarrow> is_alnum c \<or> c \<in> set ''-_.~''"

definition path_escape :: "string \<Rightarrow> string" where
  "path_escape s = concat (map (\<lambda>c. if path_plain c then [c] else percent c) s)"

definition query_escape :: "string \<Rightarrow> string" where
  "query_escape s =
     concat (map (\<lambda>c. if query_plain c then [c] else if c = CHR '' '' then ''+'' else percent c) s)"

text \<open>\<open>url.Values.Encode\<close> of single-valued keys: sorted by key.\<close>

definition join :: "string \<Rightarrow> string list \<Rightarrow> string" where
  "join sep ss = (case ss of [] \<Rightarrow> [] | x # xs \<Rightarrow> x @ concat (map (\<lambda>y. sep @ y) xs))"

definition values_encode :: "(string \<times> string) list \<Rightarrow> string" where
  "values_encode kvs =
     join ''&'' (map (\<lambda>(k, v). query_escape k @ ''='' @ query_escape v) (sort_key fst kvs))"

text \<open>\<open>url.PathUnescape\<close>: \<open>None\<close> for a malformed escape.\<close>

definition hex_val :: "char \<Rightarrow> nat option" where
  "hex_val c =
     (if is_digit c then Some (of_char c - 48)
      else if CHR ''A'' \<le> c \<and> c \<le> CHR ''F'' then Some (of_char c - 55)
      else if CHR ''a'' \<le> c \<and> c \<le> CHR ''f'' then Some (of_char c - 87)
      else None)"

fun path_unescape :: "string \<Rightarrow> string option" where
  "path_unescape [] = Some []"
| "path_unescape (c # cs) =
     (if c = CHR ''%'' then
        (case cs of
           x # y # rest \<Rightarrow>
             (case (hex_val x, hex_val y) of
                (Some h, Some l) \<Rightarrow> map_option (Cons (char_of (16 * h + l))) (path_unescape rest)
              | _ \<Rightarrow> None)
         | _ \<Rightarrow> None)
      else map_option (Cons c) (path_unescape cs))"

lemma hex_val_hex_digit: "n < 16 \<Longrightarrow> hex_val (hex_digit n) = Some n"
proof -
  assume "n < 16"
  show ?thesis
  proof (cases "n < 10")
    case True
    then show ?thesis by (simp add: hex_val_def hex_digit_def is_digit_iff)
  next
    case False
    with \<open>n < 16\<close> show ?thesis
      by (simp add: hex_val_def hex_digit_def is_digit_iff less_eq_char_def)
  qed
qed

lemma char_nibbles [simp]: "of_char c div 16 < (16 :: nat)" "of_char c mod 16 < (16 :: nat)"
  using nat_of_char_less_256 [of c] by (simp_all add: less_mult_imp_div_less)

lemma path_unescape_percent:
  "path_unescape (percent c @ s) = map_option (Cons c) (path_unescape s)"
proof -
  have hex: "hex_val (hex_digit (of_char c div 16)) = Some (of_char c div 16)"
    "hex_val (hex_digit (of_char c mod 16)) = Some (of_char c mod 16)"
    by (auto intro!: hex_val_hex_digit)
  have "16 * (of_char c div 16) + of_char c mod 16 = (of_char c :: nat)" by simp
  then show ?thesis by (simp add: percent_def hex)
qed

lemma percent_not_plain [simp]: "\<not> path_plain (CHR ''%'')"
  by (simp add: path_plain_def is_alnum_def is_digit_iff less_eq_char_def)

lemma path_escape_Cons: "path_escape (c # s) = (if path_plain c then [c] else percent c) @ path_escape s"
  by (simp add: path_escape_def)

lemma path_unescape_plain:
  "path_plain c \<Longrightarrow> path_unescape (c # s) = map_option (Cons c) (path_unescape s)"
  using percent_not_plain by fastforce

lemma path_unescape_escape: "path_unescape (path_escape s) = Some s"
proof (induction s)
  case Nil
  show ?case by (simp add: path_escape_def)
next
  case (Cons c s)
  then show ?case by (simp add: path_escape_Cons path_unescape_percent path_unescape_plain)
qed

text \<open>An escaped segment holds no separator: only plain characters and \<open>%\<close> with hex digits.\<close>

lemma hex_digit_plain: "n < 16 \<Longrightarrow> path_plain (hex_digit n)"
  by (auto simp: path_plain_def is_alnum_def is_digit_iff hex_digit_def less_eq_char_def)

lemma set_path_escape: "c \<in> set (path_escape s) \<Longrightarrow> path_plain c \<or> c = CHR ''%''"
proof (induction s)
  case (Cons d s)
  have "path_plain (hex_digit (of_char d div 16))" "path_plain (hex_digit (of_char d mod 16))"
    by (auto intro!: hex_digit_plain)
  with Cons show ?case by (auto simp: path_escape_Cons percent_def split: if_splits)
qed (simp add: path_escape_def)

lemma path_separators_not_plain:
  "\<not> path_plain (CHR ''/'')" "\<not> path_plain (CHR ''?'')" "\<not> path_plain (CHR ''#'')"
  "\<not> path_plain (CHR '' '')"
  by (simp_all add: path_plain_def is_alnum_def is_digit_iff less_eq_char_def)

section \<open>Error values\<close>

text \<open>
  The errors the program builds: \<open>Err\<close> is a plain message, \<open>Wrapf pre e post\<close> is
  \<open>fmt.Errorf("<pre>%w<post>", e)\<close>, and the two named errors keep their identity for
  \<open>errors.As\<close> and \<open>errors.Is\<close>.
\<close>

datatype goerr =
    Err string
  | Wrapf string goerr string
  | RateLimitError duration string
  | ErrNotFound

text \<open>The method \<open>Error()\<close>.\<close>

fun err_text :: "goerr \<Rightarrow> string" where
  "err_text (Err m) = m"
| "err_text (Wrapf pre e post) = pre @ err_text e @ post"
| "err_text (RateLimitError d body) =
     (if d > 0 then ''upstream 429 (retry after '' @ duration_string d @ ''): '' @ body
      else ''upstream 429: '' @ body)"
| "err_text ErrNotFound = ''not found''"

fun is_not_found :: "goerr \<Rightarrow> bool" where
  "is_not_found ErrNotFound = True"
| "is_not_found (Wrapf pre e post) = is_not_found e"
| "is_not_found _ = False"

end
