(* ===== verification/Go_Json.thy ===== *)
theory Go_Json
  imports Go_Std
begin

text \<open>
  \<open>encoding/json\<close> on byte strings: a parser of JSON text, the encoder with Go's escapes and
  sorted map keys, and the part of \<open>Unmarshal\<close> that fills the string fields of a struct. A
  number keeps its literal. Strings are taken to be valid UTF-8 (Go replaces invalid bytes by
  U+FFFD), and Go's limit of 10000 nested values is not modelled.
\<close>

datatype json =
    JNull
  | JBool bool
  | JNum string
  | JStr string
  | JArr "json list"
  | JObj "(string \<times> json) list"

section \<open>Encoding\<close>

definition hex4 :: "nat \<Rightarrow> string" where
  "hex4 n = map (\<lambda>d. if d < 10 then char_of (48 + d) else char_of (87 + d))
     [n div 4096 mod 16, n div 256 mod 16, n div 16 mod 16, n mod 16]"

definition json_char :: "char \<Rightarrow> string" where
  "json_char c =
     (if c = CHR 0x22 then [CHR 0x5C, CHR 0x22]
      else if c = CHR 0x5C then [CHR 0x5C, CHR 0x5C]
      else if c = CHR 0x08 then [CHR 0x5C, CHR ''b'']
      else if c = CHR 0x0C then [CHR 0x5C, CHR ''f'']
      else if c = CHR 0x0A then [CHR 0x5C, CHR ''n'']
      else if c = CHR 0x0D then [CHR 0x5C, CHR ''r'']
      else if c = CHR 0x09 then [CHR 0x5C, CHR ''t'']
      else if c < CHR '' '' \<or> c \<in> {CHR ''<'', CHR ''>'', CHR ''&''}
        then [CHR 0x5C, CHR ''u''] @ hex4 (of_char c)
      else [c])"

text \<open>U+2028 and U+2029 are escaped as well.\<close>

fun json_chars :: "string \<Rightarrow> string" where
  "json_chars [] = []"
| "json_chars (c # cs) =
     (if take 3 (c # cs) = [CHR 0xE2, CHR 0x80, CHR 0xA8] then [CHR 0x5C] @ ''u2028'' @ json_chars (drop 2 cs)
      else if take 3 (c # cs) = [CHR 0xE2, CHR 0x80, CHR 0xA9] then [CHR 0x5C] @ ''u2029'' @ json_chars (drop 2 cs)
      else json_char c @ json_chars cs)"

definition json_quote :: "string \<Rightarrow> string" where
  "json_quote s = [CHR 0x22] @ json_chars s @ [CHR 0x22]"

fun json_encode :: "json \<Rightarrow> string" where
  "json_encode JNull = ''null''"
| "json_encode (JBool b) = (if b then ''true'' else ''false'')"
| "json_encode (JNum n) = n"
| "json_encode (JStr s) = json_quote s"
| "json_encode (JArr js) = ''['' @ join '','' (map json_encode js) @ '']''"
| "json_encode (JObj kvs) =
     [CHR 0x7B] @ join '','' (map (\<lambda>kv. json_quote (fst kv) @ '':'' @ json_encode (snd kv)) kvs) @ [CHR 0x7D]"

text \<open>A \<open>map[string]any\<close> is encoded with its keys in order.\<close>

definition go_map :: "(string \<times> json) list \<Rightarrow> json" where
  "go_map kvs = JObj (sort_key fst kvs)"

section \<open>Parsing\<close>

definition skip_ws :: "string \<Rightarrow> string" where
  "skip_ws s = dropWhile (\<lambda>c. c = CHR '' '' \<or> c = CHR 0x09 \<or> c = CHR 0x0A \<or> c = CHR 0x0D) s"

definition utf8 :: "nat \<Rightarrow> string" where
  "utf8 n =
     (if n < 0x80 then [char_of n]
      else if n < 0x800 then [char_of (0xC0 + n div 64), char_of (0x80 + n mod 64)]
      else if n < 0x10000 then
        [char_of (0xE0 + n div 4096), char_of (0x80 + n div 64 mod 64), char_of (0x80 + n mod 64)]
      else
        [char_of (0xF0 + n div 262144), char_of (0x80 + n div 4096 mod 64),
         char_of (0x80 + n div 64 mod 64), char_of (0x80 + n mod 64)])"

fun hex4_val :: "string \<Rightarrow> (nat \<times> string) option" where
  "hex4_val (a # b # c # d # rest) =
     (case (hex_val a, hex_val b, hex_val c, hex_val d) of
        (Some w, Some x, Some y, Some z) \<Rightarrow> Some (4096 * w + 256 * x + 16 * y + z, rest)
      | _ \<Rightarrow> None)"
| "hex4_val _ = None"

text \<open>
  One escape after the backslash. A surrogate pair gives one code point, an unpaired
  surrogate U+FFFD.
\<close>

definition unicode_escape :: "string \<Rightarrow> (string \<times> string) option" where
  "unicode_escape s =
     (case hex4_val s of
        None \<Rightarrow> None
      | Some (n, rest) \<Rightarrow>
          if 0xD800 \<le> n \<and> n < 0xE000 then
            (if n < 0xDC00 \<and> take 2 rest = [CHR 0x5C, CHR ''u''] then
               (case hex4_val (drop 2 rest) of
                  Some (m, rest') \<Rightarrow>
                    if 0xDC00 \<le> m \<and> m < 0xE000
                    then Some (utf8 (0x10000 + (n - 0xD800) * 1024 + (m - 0xDC00)), rest')
                    else Some (utf8 0xFFFD, rest)
                | None \<Rightarrow> Some (utf8 0xFFFD, rest))
             else Some (utf8 0xFFFD, rest))
          else Some (utf8 n, rest))"

definition simple_escape :: "char \<Rightarrow> char option" where
  "simple_escape c =
     map_of [(CHR 0x22, CHR 0x22), (CHR 0x5C, CHR 0x5C), (CHR ''/'', CHR ''/''),
       (CHR ''b'', CHR 0x08), (CHR ''f'', CHR 0x0C), (CHR ''n'', CHR 0x0A),
       (CHR ''r'', CHR 0x0D), (CHR ''t'', CHR 0x09)] c"

definition escape :: "string \<Rightarrow> (string \<times> string) option" where
  "escape s =
     (case s of
        [] \<Rightarrow> None
      | c # cs \<Rightarrow>
          if c = CHR ''u'' then unicode_escape cs
          else map_option (\<lambda>d. ([d], cs)) (simple_escape c))"

text \<open>The characters of a string literal up to its closing quote; fuel for each character.\<close>

fun string_body :: "nat \<Rightarrow> string \<Rightarrow> (string \<times> string) option" where
  "string_body 0 s = None"
| "string_body (Suc k) s =
     (case s of
        [] \<Rightarrow> None
      | c # cs \<Rightarrow>
          if c = CHR 0x22 then Some ([], cs)
          else if c < CHR '' '' then None
          else
            (case (if c = CHR 0x5C then escape cs else Some ([c], cs)) of
               None \<Rightarrow> None
             | Some (p, rest) \<Rightarrow> map_option (\<lambda>(b, r). (p @ b, r)) (string_body k rest)))"

definition string_lit :: "string \<Rightarrow> (string \<times> string) option" where
  "string_lit s = (case s of [] \<Rightarrow> None | c # cs \<Rightarrow> if c = CHR 0x22 then string_body (length s) cs else None)"

definition digits1 :: "string \<Rightarrow> (string \<times> string) option" where
  "digits1 s = (let ds = takeWhile is_digit s in if ds = [] then None else Some (ds, drop (length ds) s))"

text \<open>The grammar of numbers: sign, integer part without leading zeros, fraction, exponent.\<close>

definition number_lit :: "string \<Rightarrow> (string \<times> string) option" where
  "number_lit s =
     (let (sg, s1) = (case s of [] \<Rightarrow> ([], []) | c # cs \<Rightarrow> if c = CHR ''-'' then ([c], cs) else ([], s))
      in case (case s1 of
                 [] \<Rightarrow> None
               | c # cs \<Rightarrow> if c = CHR ''0'' then Some ([c], cs) else digits1 s1) of
           None \<Rightarrow> None
         | Some (ip, s2) \<Rightarrow>
             (case (case s2 of
                      [] \<Rightarrow> Some ([], [])
                    | c # cs \<Rightarrow> if c = CHR ''.'' then map_option (\<lambda>(d, r). (c # d, r)) (digits1 cs)
                                else Some ([], s2)) of
                None \<Rightarrow> None
              | Some (fp, s3) \<Rightarrow>
                  (case (case s3 of
                           [] \<Rightarrow> Some ([], [])
                         | c # cs \<Rightarrow>
                             if c = CHR ''e'' \<or> c = CHR ''E'' then
                               (let (es, cs') = (case cs of
                                    [] \<Rightarrow> ([], [])
                                  | d # ds \<Rightarrow> if d = CHR ''+'' \<or> d = CHR ''-'' then ([d], ds) else ([], cs))
                                in map_option (\<lambda>(d, r). (c # es @ d, r)) (digits1 cs'))
                             else Some ([], s3)) of
                     None \<Rightarrow> None
                   | Some (ep, s4) \<Rightarrow> Some (sg @ ip @ fp @ ep, s4))))"

text \<open>
  Values, the elements of an array after its bracket or a comma, and the members of an object.
  The fuel bounds the nesting and the number of elements together.
\<close>

fun parse_value :: "nat \<Rightarrow> string \<Rightarrow> (json \<times> string) option"
  and parse_elems :: "nat \<Rightarrow> string \<Rightarrow> (json list \<times> string) option"
  and parse_members :: "nat \<Rightarrow> string \<Rightarrow> ((string \<times> json) list \<times> string) option" where
  "parse_value 0 s = None"
| "parse_value (Suc k) s =
     (case skip_ws s of
        [] \<Rightarrow> None
      | c # cs \<Rightarrow>
          if c = CHR 0x22 then map_option (\<lambda>(v, r). (JStr v, r)) (string_lit (c # cs))
          else if c = CHR ''['' then
            (case skip_ws cs of
               [] \<Rightarrow> None
             | d # ds \<Rightarrow> if d = CHR '']'' then Some (JArr [], ds)
                         else map_option (\<lambda>(v, r). (JArr v, r)) (parse_elems k (d # ds)))
          else if c = CHR 0x7B then
            (case skip_ws cs of
               [] \<Rightarrow> None
             | d # ds \<Rightarrow> if d = CHR 0x7D then Some (JObj [], ds)
                         else map_option (\<lambda>(v, r). (JObj v, r)) (parse_members k (d # ds)))
          else if has_prefix (c # cs) ''null'' then Some (JNull, drop 3 cs)
          else if has_prefix (c # cs) ''true'' then Some (JBool True, drop 3 cs)
          else if has_prefix (c # cs) ''false'' then Some (JBool False, drop 4 cs)
          else map_option (\<lambda>(v, r). (JNum v, r)) (number_lit (c # cs)))"
| "parse_elems 0 s = None"
| "parse_elems (Suc k) s =
     (case parse_value k s of
        None \<Rightarrow> None
      | Some (v, r) \<Rightarrow>
          (case skip_ws r of
             [] \<Rightarrow> None
           | d # ds \<Rightarrow>
               if d = CHR '']'' then Some ([v], ds)
               else if d = CHR '','' then map_option (\<lambda>(vs, r'). (v # vs, r')) (parse_elems k ds)
               else None))"
| "parse_members 0 s = None"
| "parse_members (Suc k) s =
     (case string_lit (skip_ws s) of
        None \<Rightarrow> None
      | Some (key, r) \<Rightarrow>
          (case skip_ws r of
             [] \<Rightarrow> None
           | d # ds \<Rightarrow>
               if d = CHR '':'' then
                 (case parse_value k ds of
                    None \<Rightarrow> None
                  | Some (v, r') \<Rightarrow>
                      (case skip_ws r' of
                         [] \<Rightarrow> None
                       | e # es \<Rightarrow>
                           if e = CHR 0x7D then Some ([(key, v)], es)
                           else if e = CHR '','' then
                             map_option (\<lambda>(ms, r''). ((key, v) # ms, r'')) (parse_members k es)
                           else None))
               else None))"

text \<open>
  A value takes at most one unit of fuel for itself and one for its place in an array or
  object, and each of these is at least one character of the text: twice the length is enough.
\<close>

definition json_fuel :: "string \<Rightarrow> nat" where
  "json_fuel s = 2 * length s + 2"

text \<open>\<open>json.Unmarshal\<close> wants one value and nothing but white space after it; a \<open>Decoder\<close> reads
  the first value of its input.\<close>

definition json_parse :: "string \<Rightarrow> json option" where
  "json_parse s =
     (case parse_value (json_fuel s) s of
        None \<Rightarrow> None
      | Some (v, r) \<Rightarrow> if skip_ws r = [] then Some v else None)"

definition json_decode_first :: "string \<Rightarrow> json option" where
  "json_decode_first s = map_option fst (parse_value (json_fuel s) s)"

section \<open>Filling the fields of a struct\<close>

text \<open>
  A member of the JSON object belongs to the field whose name it equals under Unicode case
  folding: ASCII case, the Kelvin sign for \<open>k\<close> and the long s for \<open>s\<close>.
\<close>

fun fold_name :: "string \<Rightarrow> string" where
  "fold_name [] = []"
| "fold_name (c # cs) =
     (if take 2 (c # cs) = [CHR 0xC5, CHR 0xBF] then CHR ''s'' # fold_name (drop 1 cs)
      else if take 3 (c # cs) = [CHR 0xE2, CHR 0x84, CHR 0xAA] then CHR ''k'' # fold_name (drop 2 cs)
      else lower_char c # fold_name cs)"

definition members :: "string \<Rightarrow> (string \<times> json) list \<Rightarrow> json list" where
  "members name kvs = map snd (filter (\<lambda>(k, v). fold_name k = fold_name name) kvs)"

text \<open>
  A string field: later members win, \<open>null\<close> leaves the field alone, and any other kind of
  value makes \<open>Unmarshal\<close> return an error (here \<open>None\<close>).
\<close>

fun string_field_from :: "string \<Rightarrow> json list \<Rightarrow> string option" where
  "string_field_from cur [] = Some cur"
| "string_field_from cur (JStr s # vs) = string_field_from s vs"
| "string_field_from cur (JNull # vs) = string_field_from cur vs"
| "string_field_from cur (_ # vs) = None"

definition string_field :: "string \<Rightarrow> (string \<times> json) list \<Rightarrow> string option" where
  "string_field name kvs = string_field_from [] (members name kvs)"

text \<open>
  Fields of other types. A decoder maps the value a field has and the next JSON value to the
  new value; \<open>null\<close> leaves numbers, booleans and structs alone and clears slices and pointers. A
  slice is \<open>None\<close> when it is nil. (A member that is repeated would be decoded into the elements
  of the earlier one; here the last one counts.)
\<close>

fun read_from :: "('a \<Rightarrow> json \<Rightarrow> 'a option) \<Rightarrow> 'a \<Rightarrow> json list \<Rightarrow> 'a option" where
  "read_from dec cur [] = Some cur"
| "read_from dec cur (j # js) = (case dec cur j of None \<Rightarrow> None | Some x \<Rightarrow> read_from dec x js)"

definition read_field :: "('a \<Rightarrow> json \<Rightarrow> 'a option) \<Rightarrow> 'a \<Rightarrow> string \<Rightarrow> (string \<times> json) list \<Rightarrow> 'a option" where
  "read_field dec cur name kvs = read_from dec cur (members name kvs)"

definition dec_string :: "string \<Rightarrow> json \<Rightarrow> string option" where
  "dec_string cur j = (case j of JStr s \<Rightarrow> Some s | JNull \<Rightarrow> Some cur | _ \<Rightarrow> None)"

definition dec_int :: "int \<Rightarrow> json \<Rightarrow> int option" where
  "dec_int cur j = (case j of JNum n \<Rightarrow> atoi n | JNull \<Rightarrow> Some cur | _ \<Rightarrow> None)"

definition dec_bool :: "bool \<Rightarrow> json \<Rightarrow> bool option" where
  "dec_bool cur j = (case j of JBool b \<Rightarrow> Some b | JNull \<Rightarrow> Some cur | _ \<Rightarrow> None)"

definition dec_float :: "(string \<Rightarrow> string option) \<Rightarrow> string \<Rightarrow> json \<Rightarrow> string option" where
  "dec_float fp cur j = (case j of JNum n \<Rightarrow> fp n | JNull \<Rightarrow> Some cur | _ \<Rightarrow> None)"

definition dec_pointer :: "string option \<Rightarrow> json \<Rightarrow> string option option" where
  "dec_pointer cur j = (case j of JStr s \<Rightarrow> Some (Some s) | JNull \<Rightarrow> Some None | _ \<Rightarrow> None)"

definition dec_slice :: "(json \<Rightarrow> 'a option) \<Rightarrow> 'a list option \<Rightarrow> json \<Rightarrow> 'a list option option" where
  "dec_slice elem cur j =
     (case j of JArr js \<Rightarrow> map_option Some (those (map elem js)) | JNull \<Rightarrow> Some None | _ \<Rightarrow> None)"

definition dec_strings :: "string list option \<Rightarrow> json \<Rightarrow> string list option option" where
  "dec_strings = dec_slice (dec_string [])"

lemma string_field_from_read: "string_field_from cur js = read_from dec_string cur js"
  by (induction cur js rule: string_field_from.induct) (simp_all add: dec_string_def)

lemma string_field_read: "string_field name kvs = read_field dec_string [] name kvs"
  by (simp add: string_field_def read_field_def string_field_from_read)

text \<open>A document decoded into a struct: an object gives its members, \<open>null\<close> leaves the struct
  as it is, anything else is an error.\<close>

definition struct_members :: "json \<Rightarrow> (string \<times> json) list option" where
  "struct_members j = (case j of JObj kvs \<Rightarrow> Some kvs | JNull \<Rightarrow> Some [] | _ \<Rightarrow> None)"

section \<open>Reading a decoded map\<close>

text \<open>The Go expressions \<open>s, _ := p[key].(string)\<close> and \<open>p[key].([]any)\<close> on a \<open>map[string]any\<close>.\<close>

type_synonym payload = "(string \<times> json) list"

definition get_string :: "payload \<Rightarrow> string \<Rightarrow> string" where
  "get_string p k = (case map_of p k of Some (JStr s) \<Rightarrow> s | _ \<Rightarrow> [])"

definition strings_of :: "json list \<Rightarrow> string list" where
  "strings_of js = concat (map (\<lambda>j. case j of JStr s \<Rightarrow> [s] | _ \<Rightarrow> []) js)"

end
