(* ===== verification/Forwarded_Table.thy ===== *)
theory Forwarded_Table
  imports Go_Json
begin

text \<open>
  The table \<open>forwarded_request\<close> and the SQL statements of \<open>internal/store/request.go\<close>, one
  function per statement. A table is the list of its rows in the order a scan meets them; the
  primary key makes their ids distinct. Nullable columns are options. The statements that
  change the table are values of \<open>stmt\<close>, so that the statements other goroutines run between
  two of a handler's own are data as well.
\<close>

section \<open>Rows\<close>

record row =
  c_id :: string
  c_ext :: "string option"
  c_status :: string
  c_polled :: "gotime option"
  c_err :: "string option"
  c_created :: gotime
  c_updated :: gotime

type_synonym table = "row list"

text \<open>\<open>status IN ('imported','failed')\<close>.\<close>

definition terminal :: "string \<Rightarrow> bool" where
  "terminal s \<longleftrightarrow> s = ''imported'' \<or> s = ''failed''"

definition lookup :: "table \<Rightarrow> string \<Rightarrow> row option" where
  "lookup t rid = List.find (\<lambda>r. c_id r = rid) t"

section \<open>The statements that change the table\<close>

text \<open>The parameters \<open>$1\<close>, \<open>$2\<close>, \<dots> of each statement, in their order.\<close>

datatype stmt =
    Upsert string "string option" string "gotime option" "string option" gotime
  | MarkPolled string "string option" string gotime
  | Retry string
  | MarkFailed string string

fun stmt_id :: "stmt \<Rightarrow> string" where
  "stmt_id (Upsert rid _ _ _ _ _) = rid"
| "stmt_id (MarkPolled rid _ _ _) = rid"
| "stmt_id (Retry rid) = rid"
| "stmt_id (MarkFailed rid _) = rid"

text \<open>The \<open>ON CONFLICT DO UPDATE\<close> branch of the upsert.\<close>

definition merge_row :: "string option \<Rightarrow> string \<Rightarrow> gotime option \<Rightarrow> string option \<Rightarrow> gotime \<Rightarrow> row \<Rightarrow> row" where
  "merge_row ext st polled err upd r =
     r\<lparr>c_ext := coalesce ext (c_ext r),
       c_status := (if terminal (c_status r) then c_status r else st),
       c_polled := coalesce polled (c_polled r),
       c_err := coalesce err (c_err r),
       c_updated := upd\<rparr>"

definition polled_row :: "string option \<Rightarrow> string \<Rightarrow> gotime \<Rightarrow> row \<Rightarrow> row" where
  "polled_row ext st t r =
     r\<lparr>c_ext := coalesce ext (c_ext r),
       c_status := (if terminal (c_status r) then c_status r else st),
       c_polled := Some t, c_err := None, c_updated := t\<rparr>"

definition retried_row :: "gotime \<Rightarrow> row \<Rightarrow> row" where
  "retried_row now r = r\<lparr>c_status := ''acknowledged'', c_err := None, c_polled := None, c_updated := now\<rparr>"

definition failed_row :: "gotime \<Rightarrow> string \<Rightarrow> row \<Rightarrow> row" where
  "failed_row now reason r = r\<lparr>c_status := ''failed'', c_err := Some reason, c_updated := now\<rparr>"

definition new_row :: "gotime \<Rightarrow> string \<Rightarrow> string option \<Rightarrow> string \<Rightarrow> gotime option \<Rightarrow> string option \<Rightarrow> gotime \<Rightarrow> row" where
  "new_row now rid ext st polled err upd =
     \<lparr>c_id = rid, c_ext = ext, c_status = st, c_polled = polled, c_err = err,
      c_created = now, c_updated = upd\<rparr>"

text \<open>\<open>external_id IS NOT NULL AND external_id <> ''\<close>.\<close>

definition has_ext :: "row \<Rightarrow> bool" where
  "has_ext r \<longleftrightarrow> (case c_ext r of None \<Rightarrow> False | Some x \<Rightarrow> x \<noteq> [])"

definition update_where :: "(row \<Rightarrow> bool) \<Rightarrow> (row \<Rightarrow> row) \<Rightarrow> table \<Rightarrow> table" where
  "update_where p f t = map (\<lambda>r. if p r then f r else r) t"

text \<open>The new table and the number of rows affected; \<open>now\<close> is the value of SQL's \<open>now()\<close>.\<close>

fun exec_stmt :: "gotime \<Rightarrow> stmt \<Rightarrow> table \<Rightarrow> table \<times> nat" where
  "exec_stmt now (Upsert rid ext st polled err upd) t =
     (if lookup t rid = None then (t @ [new_row now rid ext st polled err upd], 1)
      else (update_where (\<lambda>r. c_id r = rid) (merge_row ext st polled err upd) t, 1))"
| "exec_stmt now (MarkPolled rid ext st w) t =
     (update_where (\<lambda>r. c_id r = rid) (polled_row ext st w) t,
      length (filter (\<lambda>r. c_id r = rid) t))"
| "exec_stmt now (Retry rid) t =
     (update_where (\<lambda>r. c_id r = rid \<and> has_ext r) (retried_row now) t,
      length (filter (\<lambda>r. c_id r = rid \<and> has_ext r) t))"
| "exec_stmt now (MarkFailed rid reason) t =
     (update_where (\<lambda>r. c_id r = rid) (failed_row now reason) t,
      length (filter (\<lambda>r. c_id r = rid) t))"

section \<open>The table as a map\<close>

text \<open>
  The contract of the table: a map from request ids to rows, on which each statement changes
  at most the row of its own id.
\<close>

fun stmt_row :: "gotime \<Rightarrow> stmt \<Rightarrow> row option \<Rightarrow> row option" where
  "stmt_row now (Upsert rid ext st polled err upd) x =
     (case x of None \<Rightarrow> Some (new_row now rid ext st polled err upd)
      | Some r \<Rightarrow> Some (merge_row ext st polled err upd r))"
| "stmt_row now (MarkPolled rid ext st w) x = map_option (polled_row ext st w) x"
| "stmt_row now (Retry rid) x = map_option (\<lambda>r. if has_ext r then retried_row now r else r) x"
| "stmt_row now (MarkFailed rid reason) x = map_option (failed_row now reason) x"

definition exec_map :: "gotime \<Rightarrow> stmt \<Rightarrow> (string \<rightharpoonup> row) \<Rightarrow> (string \<rightharpoonup> row)" where
  "exec_map now s m = m(stmt_id s := stmt_row now s (m (stmt_id s)))"

lemma row_ids [simp]:
  "c_id (merge_row ext st polled err upd r) = c_id r" "c_id (polled_row ext st w r) = c_id r"
  "c_id (retried_row now r) = c_id r" "c_id (failed_row now reason r) = c_id r"
  "c_id (new_row now rid ext st polled err upd) = rid"
  by (simp_all add: merge_row_def polled_row_def retried_row_def failed_row_def new_row_def)

lemma map_id_update_where:
  "(\<And>r. c_id (f r) = c_id r) \<Longrightarrow> map c_id (update_where p f t) = map c_id t"
  by (simp add: update_where_def)

lemma lookup_Nil [simp]: "lookup [] rid = None"
  by (simp add: lookup_def)

lemma lookup_Cons: "lookup (r # t) rid = (if c_id r = rid then Some r else lookup t rid)"
  by (simp add: lookup_def)

lemma lookup_id: "lookup t rid = Some r \<Longrightarrow> c_id r = rid"
  by (auto simp: lookup_def find_Some_iff)

lemma lookup_in: "lookup t rid = Some r \<Longrightarrow> r \<in> set t"
  by (auto simp: lookup_def find_Some_iff)

lemma lookup_None_iff: "lookup t rid = None \<longleftrightarrow> rid \<notin> set (map c_id t)"
  by (auto simp: lookup_def find_None_iff)

lemma lookup_append: "lookup (t @ u) rid = (case lookup t rid of None \<Rightarrow> lookup u rid | Some r \<Rightarrow> Some r)"
  by (induction t) (auto simp: lookup_Cons)

lemma lookup_distinct: "distinct (map c_id t) \<Longrightarrow> r \<in> set t \<Longrightarrow> lookup t (c_id r) = Some r"
  by (induction t) (auto simp: lookup_Cons)

lemma lookup_update_where:
  assumes "\<And>r. c_id (f r) = c_id r"
  shows "lookup (update_where (\<lambda>r. c_id r = rid \<and> q r) f t) k =
    (if k = rid then map_option (\<lambda>r. if q r then f r else r) (lookup t k) else lookup t k)"
  using assms by (induction t) (auto simp: lookup_Cons update_where_def)

lemma lookup_update_id:
  "(\<And>r. c_id (f r) = c_id r) \<Longrightarrow>
   lookup (update_where (\<lambda>r. c_id r = rid) f t) k =
     (if k = rid then map_option f (lookup t k) else lookup t k)"
  using lookup_update_where [of f rid "\<lambda>_. True" t k] by simp

text \<open>Each statement on the list is the same statement on the map.\<close>

lemma lookup_exec [table_simps]: "lookup (fst (exec_stmt now s t)) = exec_map now s (lookup t)"
proof
  fix k
  show "lookup (fst (exec_stmt now s t)) k = exec_map now s (lookup t) k"
  proof (cases s)
    case (Upsert rid ext st polled err upd)
    then show ?thesis
      by (auto simp: exec_map_def lookup_append lookup_Cons lookup_update_id split: option.splits)
  next
    case (Retry rid)
    then show ?thesis by (simp add: exec_map_def lookup_update_where)
  qed (simp_all add: exec_map_def lookup_update_id)
qed

lemma exec_map_other [simp]: "k \<noteq> stmt_id s \<Longrightarrow> exec_map now s m k = m k"
  by (simp add: exec_map_def)

lemma length_filter_id:
  "distinct (map c_id t) \<Longrightarrow>
   length (filter (\<lambda>r. c_id r = rid \<and> q r) t) =
     (case lookup t rid of None \<Rightarrow> 0 | Some r \<Rightarrow> if q r then 1 else 0)"
proof (induction t)
  case (Cons a t)
  then have "lookup t (c_id a) = None" by (simp add: lookup_None_iff)
  with Cons show ?case by (auto simp: lookup_Cons split: option.splits)
qed simp

section \<open>Well-formed tables\<close>

text \<open>
  The primary key, and what the Go methods keep: no empty id, and an empty external id or
  error text is stored as NULL.
\<close>

definition wf_row :: "row \<Rightarrow> bool" where
  "wf_row r \<longleftrightarrow> c_id r \<noteq> [] \<and> c_ext r \<noteq> Some [] \<and> c_err r \<noteq> Some []"

definition wf_table :: "table \<Rightarrow> bool" where
  "wf_table t \<longleftrightarrow> distinct (map c_id t) \<and> list_all wf_row t"

fun wf_stmt :: "stmt \<Rightarrow> bool" where
  "wf_stmt (Upsert rid ext _ _ err _) \<longleftrightarrow> rid \<noteq> [] \<and> ext \<noteq> Some [] \<and> err \<noteq> Some []"
| "wf_stmt (MarkPolled rid ext _ _) \<longleftrightarrow> rid \<noteq> [] \<and> ext \<noteq> Some []"
| "wf_stmt (Retry rid) \<longleftrightarrow> rid \<noteq> []"
| "wf_stmt (MarkFailed rid reason) \<longleftrightarrow> rid \<noteq> [] \<and> reason \<noteq> []"

lemma wf_row_updates:
  "wf_row r \<Longrightarrow> ext \<noteq> Some [] \<Longrightarrow> err \<noteq> Some [] \<Longrightarrow> wf_row (merge_row ext st polled err upd r)"
  "wf_row r \<Longrightarrow> ext \<noteq> Some [] \<Longrightarrow> wf_row (polled_row ext st w r)"
  "wf_row r \<Longrightarrow> wf_row (retried_row now r)"
  "wf_row r \<Longrightarrow> reason \<noteq> [] \<Longrightarrow> wf_row (failed_row now reason r)"
  by (auto simp: wf_row_def merge_row_def polled_row_def retried_row_def failed_row_def coalesce_eq_Some)

lemma wf_table_update_where:
  assumes "wf_table t" and "\<And>r. c_id (f r) = c_id r" and "\<And>r. wf_row r \<Longrightarrow> wf_row (f r)"
  shows "wf_table (update_where p f t)"
  using assms map_id_update_where [of f p t]
  by (auto simp: wf_table_def list_all_iff) (auto simp: update_where_def)

lemma wf_table_exec: "wf_table t \<Longrightarrow> wf_stmt s \<Longrightarrow> wf_table (fst (exec_stmt now s t))"
proof (cases s)
  case (Upsert rid ext st polled err upd)
  assume wf: "wf_table t" "wf_stmt s"
  show ?thesis
  proof (cases "lookup t rid")
    case None
    with wf Upsert show ?thesis
      by (auto simp: wf_table_def lookup_None_iff new_row_def wf_row_def)
  next
    case (Some r)
    with wf Upsert show ?thesis by (auto intro!: wf_table_update_where wf_row_updates)
  qed
qed (auto intro!: wf_table_update_where wf_row_updates)

section \<open>The terminal guard\<close>

text \<open>The statements whose \<open>CASE\<close> keeps a terminal status.\<close>

fun guarded :: "stmt \<Rightarrow> bool" where
  "guarded (Upsert _ _ _ _ _ _) = True"
| "guarded (MarkPolled _ _ _ _) = True"
| "guarded _ = False"

text \<open>No request with the terminal status \<open>st\<close> leaves it.\<close>

definition terminal_kept :: "table \<Rightarrow> table \<Rightarrow> bool" where
  "terminal_kept t t' \<longleftrightarrow>
     (\<forall>rid r. lookup t rid = Some r \<and> terminal (c_status r) \<longrightarrow>
        (\<exists>r'. lookup t' rid = Some r' \<and> c_status r' = c_status r))"

lemma terminal_kept_refl: "terminal_kept t t"
  by (simp add: terminal_kept_def)

lemma terminal_kept_trans: "terminal_kept t u \<Longrightarrow> terminal_kept u v \<Longrightarrow> terminal_kept t v"
  unfolding terminal_kept_def by metis

lemma guarded_terminal_kept:
  assumes "guarded s"
  shows "terminal_kept t (fst (exec_stmt now s t))"
  using assms unfolding terminal_kept_def lookup_exec
  by (cases s) (auto simp: exec_map_def merge_row_def polled_row_def)

text \<open>Rows are never deleted and keep their creation time.\<close>

definition rows_kept :: "table \<Rightarrow> table \<Rightarrow> bool" where
  "rows_kept t t' \<longleftrightarrow>
     (\<forall>rid r. lookup t rid = Some r \<longrightarrow> (\<exists>r'. lookup t' rid = Some r' \<and> c_created r' = c_created r))"

lemma exec_rows_kept: "rows_kept t (fst (exec_stmt now s t))"
  unfolding rows_kept_def lookup_exec
  by (cases s)
    (auto simp: exec_map_def merge_row_def polled_row_def retried_row_def
      failed_row_def split: option.splits)

end
