(* ===== verification/Table_Queries.thy ===== *)
theory Table_Queries
  imports Forwarded_Table
begin

text \<open>
  The SELECT statements of \<open>internal/store/request.go\<close> as functions on a table. Two facts of
  the database session are parameters: \<open>z\<close>, the instant of the literal
  \<open>'0001-01-01 00:00:00'\<close> in the session's time zone (it stands for a NULL \<open>last_polled\<close>), and
  the collation of text, given by the sort key \<open>ck\<close> of a string. The order of rows that tie on
  \<open>created_at\<close> is the order of the scan.
\<close>

section \<open>Scanned rows\<close>

text \<open>The struct \<open>ForwardedRequest\<close>.\<close>

record forwarded_request =
  request_id :: string
  external_id :: string
  status :: string
  last_polled :: gotime
  error_text :: string
  created_at :: gotime
  updated_at :: gotime

definition or_else :: "'a option \<Rightarrow> 'a \<Rightarrow> 'a" where
  "or_else x d = (case x of None \<Rightarrow> d | Some a \<Rightarrow> a)"

lemma or_else_simps [simp]: "or_else None d = d" "or_else (Some a) d = a"
  by (simp_all add: or_else_def)

text \<open>The column list of the SELECTs, with its \<open>COALESCE\<close>s.\<close>

definition scan_row :: "gotime \<Rightarrow> row \<Rightarrow> forwarded_request" where
  "scan_row z r =
     \<lparr>request_id = c_id r, external_id = or_else (c_ext r) [], status = c_status r,
      last_polled = or_else (c_polled r) z, error_text = or_else (c_err r) [],
      created_at = c_created r, updated_at = c_updated r\<rparr>"

section \<open>The reconciler's work list\<close>

text \<open>\<open>ORDER BY COALESCE(last_polled, z) ASC, request_id ASC\<close>.\<close>

datatype poll_key = PollKey (key_time: gotime) (key_id: string)

instantiation poll_key :: linorder
begin

definition less_eq_poll_key :: "poll_key \<Rightarrow> poll_key \<Rightarrow> bool" where
  "less_eq_poll_key a b \<longleftrightarrow> key_time a < key_time b \<or> key_time a = key_time b \<and> key_id a \<le> key_id b"

definition less_poll_key :: "poll_key \<Rightarrow> poll_key \<Rightarrow> bool" where
  "less_poll_key a b \<longleftrightarrow> key_time a < key_time b \<or> key_time a = key_time b \<and> key_id a < key_id b"

instance
  by standard (auto simp: less_eq_poll_key_def less_poll_key_def poll_key.expand)

end

definition row_key :: "gotime \<Rightarrow> (string \<Rightarrow> string) \<Rightarrow> row \<Rightarrow> poll_key" where
  "row_key z ck r = PollKey (or_else (c_polled r) z) (ck (c_id r))"

definition open_rows :: "table \<Rightarrow> table" where
  "open_rows t = filter (\<lambda>r. \<not> terminal (c_status r)) t"

definition select_non_terminal :: "gotime \<Rightarrow> (string \<Rightarrow> string) \<Rightarrow> nat \<Rightarrow> table \<Rightarrow> table" where
  "select_non_terminal z ck n t = take n (sort_key (row_key z ck) (open_rows t))"

lemma set_select_non_terminal:
  "r \<in> set (select_non_terminal z ck n t) \<Longrightarrow> r \<in> set t \<and> \<not> terminal (c_status r)"
  by (auto simp: select_non_terminal_def open_rows_def dest!: in_set_takeD)

lemma length_select_non_terminal:
  "length (select_non_terminal z ck n t) = min n (length (open_rows t))"
  by (simp add: select_non_terminal_def)

lemma sorted_select_non_terminal: "sorted (map (row_key z ck) (select_non_terminal z ck n t))"
  by (simp add: select_non_terminal_def take_map [symmetric] sorted_wrt_take)

lemma distinct_select_non_terminal:
  "distinct (map c_id t) \<Longrightarrow> distinct (map c_id (select_non_terminal z ck n t))"
proof -
  assume "distinct (map c_id t)"
  then have "distinct (map c_id (open_rows t))"
    by (simp add: open_rows_def distinct_map_filter)
  then have "distinct (map c_id (sort_key (row_key z ck) (open_rows t)))"
    by (simp add: distinct_map)
  then show ?thesis by (simp add: select_non_terminal_def take_map [symmetric])
qed

text \<open>An open row the limit cuts off comes after every selected one.\<close>

lemma select_non_terminal_least:
  assumes "r \<in> set (open_rows t)" and "r \<notin> set (select_non_terminal z ck n t)"
    and "s \<in> set (select_non_terminal z ck n t)"
  shows "row_key z ck s \<le> row_key z ck r"
proof -
  let ?xs = "sort_key (row_key z ck) (open_rows t)"
  have "r \<in> set ?xs" using assms(1) by simp
  then have "r \<in> set (take n ?xs) \<union> set (drop n ?xs)" by (metis append_take_drop_id set_append)
  then have "r \<in> set (drop n ?xs)" using assms(2) by (simp add: select_non_terminal_def)
  moreover have "sorted (map (row_key z ck) (take n ?xs) @ map (row_key z ck) (drop n ?xs))"
    by (simp flip: map_append)
  ultimately show ?thesis using assms(3) by (auto simp: select_non_terminal_def sorted_append)
qed

lemma inj_on_row_key:
  assumes "inj ck" and "distinct (map c_id t)"
  shows "inj_on (row_key z ck) (set t)"
proof (rule inj_onI)
  fix r s assume "r \<in> set t" "s \<in> set t" "row_key z ck r = row_key z ck s"
  then have "c_id r = c_id s" using assms(1) by (simp add: row_key_def inj_eq)
  with \<open>r \<in> set t\<close> \<open>s \<in> set t\<close> show "r = s" using assms(2) by (auto simp: distinct_map dest: inj_onD)
qed

text \<open>The result does not depend on the order in which the rows lie in the table.\<close>

lemma select_non_terminal_perm:
  assumes "mset t = mset u" and "distinct (map c_id t)" and "inj ck"
  shows "select_non_terminal z ck n t = select_non_terminal z ck n u"
proof -
  have "mset (open_rows t) = mset (open_rows u)" using assms(1) by (simp add: open_rows_def mset_filter)
  moreover have "inj_on (row_key z ck) (set (open_rows t))"
    using inj_on_row_key [OF assms(3,2)] by (rule inj_on_subset) (auto simp: open_rows_def)
  ultimately show ?thesis
    unfolding select_non_terminal_def by (metis sort_key_perm_unique)
qed

section \<open>The admin queue\<close>

text \<open>The characters of a UTF-8 text, each as its bytes: a byte and the continuation bytes after it.\<close>

definition continuation :: "char \<Rightarrow> bool" where
  "continuation c \<longleftrightarrow> of_char c div 64 = (2 :: nat)"

function utf8_chars :: "string \<Rightarrow> string list" where
  "utf8_chars [] = []"
| "utf8_chars (c # cs) = (c # takeWhile continuation cs) # utf8_chars (dropWhile continuation cs)"
  by pat_completeness auto
termination
  by (relation "measure length") (simp_all add: le_imp_less_Suc length_dropWhile_le)

lemma concat_utf8_chars: "concat (utf8_chars s) = s"
  by (induction s rule: utf8_chars.induct) simp_all

text \<open>SQL \<open>LIKE\<close> on characters, the pattern first; \<open>ILIKE\<close> compares under the database's case folding.\<close>

fun like :: "string list \<Rightarrow> string list \<Rightarrow> bool" where
  "like [] t = (t = [])"
| "like (p # ps) [] = (p = ''%'' \<and> like ps [])"
| "like (p # ps) (c # cs) =
     (if p = ''%'' then like ps (c # cs) \<or> like (p # ps) cs
      else if p = ''_'' then like ps cs
      else if p = [CHR 0x5C] then (case ps of [] \<Rightarrow> False | q # qs \<Rightarrow> c = q \<and> like qs cs)
      else c = p \<and> like ps cs)"

definition ilike :: "(string \<Rightarrow> string) \<Rightarrow> string \<Rightarrow> string \<Rightarrow> bool" where
  "ilike lc s pat = like (utf8_chars (lc pat)) (utf8_chars (lc s))"

definition matches :: "(string \<Rightarrow> string) \<Rightarrow> string \<Rightarrow> string \<Rightarrow> row \<Rightarrow> bool" where
  "matches lc st search r \<longleftrightarrow>
     (st = [] \<or> c_status r = st) \<and>
     (search = [] \<or>
      ilike lc (c_id r) (''%'' @ search @ ''%'') \<or>
      (case c_ext r of None \<Rightarrow> False | Some x \<Rightarrow> ilike lc x (''%'' @ search @ ''%'')))"

text \<open>\<open>ORDER BY created_at DESC LIMIT l OFFSET o\<close>, and the count under the same filter.\<close>

definition newest_first :: "(string \<Rightarrow> string) \<Rightarrow> string \<Rightarrow> string \<Rightarrow> table \<Rightarrow> table" where
  "newest_first lc st search t = sort_key (\<lambda>r. - c_created r) (filter (matches lc st search) t)"

definition select_page :: "(string \<Rightarrow> string) \<Rightarrow> string \<Rightarrow> string \<Rightarrow> nat \<Rightarrow> nat \<Rightarrow> table \<Rightarrow> table" where
  "select_page lc st search l off t = take l (drop off (newest_first lc st search t))"

definition count_matching :: "(string \<Rightarrow> string) \<Rightarrow> string \<Rightarrow> string \<Rightarrow> table \<Rightarrow> nat" where
  "count_matching lc st search t = length (filter (matches lc st search) t)"

lemma length_newest_first: "length (newest_first lc st search t) = count_matching lc st search t"
  by (simp add: newest_first_def count_matching_def)

section \<open>Stuck rows and statistics\<close>

definition stuck_row :: "gotime \<Rightarrow> row \<Rightarrow> bool" where
  "stuck_row cutoff r \<longleftrightarrow>
     \<not> terminal (c_status r) \<and>
     (case c_polled r of Some p \<Rightarrow> p < cutoff | None \<Rightarrow> c_created r < cutoff)"

definition select_stuck :: "gotime \<Rightarrow> nat \<Rightarrow> table \<Rightarrow> table" where
  "select_stuck cutoff n t = take n (sort_key c_created (filter (stuck_row cutoff) t))"

record request_stats =
  total :: nat
  active :: nat
  failed :: nat
  imported :: nat
  with_errors :: nat
  unsubmitted :: nat

definition count_where :: "(row \<Rightarrow> bool) \<Rightarrow> table \<Rightarrow> nat" where
  "count_where p t = length (filter p t)"

definition select_stats :: "table \<Rightarrow> request_stats" where
  "select_stats t =
     \<lparr>total = length t,
      active = count_where (\<lambda>r. \<not> terminal (c_status r)) t,
      failed = count_where (\<lambda>r. c_status r = ''failed'') t,
      imported = count_where (\<lambda>r. c_status r = ''imported'') t,
      with_errors = count_where (\<lambda>r. or_else (c_err r) [] \<noteq> []) t,
      unsubmitted = count_where (\<lambda>r. or_else (c_ext r) [] = [] \<and> \<not> terminal (c_status r)) t\<rparr>"

lemma select_stats_total:
  "total (select_stats t) = active (select_stats t) + failed (select_stats t) + imported (select_stats t)"
  by (induction t) (auto simp: select_stats_def count_where_def terminal_def)

lemma select_stats_bounds:
  "unsubmitted (select_stats t) \<le> active (select_stats t)"
  "with_errors (select_stats t) \<le> total (select_stats t)"
proof -
  show "unsubmitted (select_stats t) \<le> active (select_stats t)"
    by (induction t) (auto simp: select_stats_def count_where_def)
qed (simp add: select_stats_def count_where_def)

end
