(* ===== verification/Plugin_IO.thy ===== *)
theory Plugin_IO
  imports Table_Queries
begin

text \<open>
  The plugin's surroundings. The \<open>world\<close> is the state a run changes: the table, the logs of
  database calls, HTTP requests and published events, and how often the clock and the context
  were read. The \<open>env\<close> is what the run cannot choose: the readings of the clocks, whether a
  context is cancelled, the outcome of every database call, the upstream's answers, and, for
  each database call, the statements other goroutines ran just before it. A theorem for every
  \<open>env\<close> therefore covers failures at any point and every interleaving of whole statements. The
  calls on the configuration row have outcomes and interleavings of their own (\<open>e_config\<close>,
  \<open>e_config_others\<close>), \<open>e_ping\<close> answers the pool's ping, and \<open>e_redirects\<close> names the hosts to which the
  upstream redirects a request. \<open>e_float\<close>, \<open>e_ip6\<close>, \<open>e_fold\<close>, \<open>e_collate\<close>,
  \<open>e_json_error\<close> and \<open>e_http_date\<close> stand for functions of the library and the database session.
\<close>

section \<open>The environment\<close>

text \<open>
  A call to the database runs and is answered, fails before it runs, or runs and its answer is
  lost. A result set may also break off after some rows: pgx then ends the iteration, and the
  error is only seen by a caller who asks \<open>rows.Err()\<close>.
\<close>

datatype db_outcome = DbOk | DbFail string | DbLost string | DbCut nat string

record http_request =
  rq_method :: string
  rq_url :: string
  rq_headers :: "(string \<times> string) list"
  rq_body :: string
  rq_deadline :: "gotime option"
  rq_timeout :: duration

record http_response =
  rs_status :: int
  rs_headers :: "(string \<times> string) list"
  rs_body :: string
  rs_read_error :: "string option"

text \<open>\<open>http.NewRequest\<close> rejects the URL, \<open>Do\<close> fails, or there is a response.\<close>

datatype http_result = ReqInvalid string | ReqFailed string | ReqDone http_response

record env =
  e_clock :: "nat \<Rightarrow> gotime"
  e_cancelled :: "nat \<Rightarrow> bool"
  e_db :: "nat \<Rightarrow> db_outcome"
  e_db_now :: "nat \<Rightarrow> gotime"
  e_others :: "nat \<Rightarrow> (gotime \<times> stmt) list"
  e_null_time :: gotime
  e_collate :: "string \<Rightarrow> string"
  e_fold :: "string \<Rightarrow> string"
  e_http :: "nat \<Rightarrow> http_request \<Rightarrow> http_result"
  e_redirects :: "nat \<Rightarrow> http_request \<Rightarrow> string list"
  e_http_date :: "string \<Rightarrow> gotime option"
  e_json_error :: "string \<Rightarrow> string"
  e_float :: "string \<Rightarrow> string option"
  e_ip6 :: "string \<Rightarrow> bool"
  e_ping :: "nat \<Rightarrow> string option"
  e_config :: "nat \<Rightarrow> db_outcome"
  e_config_others :: "nat \<Rightarrow> json list"

section \<open>The world\<close>

datatype db_call = CallExec stmt | CallQuery

record world =
  w_table :: table
  w_db :: "db_call list"
  w_clock :: nat
  w_ctx :: nat
  w_http :: "http_request list"
  w_events :: "(string \<times> payload) list"

type_synonym ('z, 'a) io = "('z world_scheme, 'a) state"

section \<open>Primitive operations\<close>

text \<open>\<open>time.Now()\<close>.\<close>

definition now :: "env \<Rightarrow> ('z, gotime) io" where
  "now e = State (\<lambda>w. (e_clock e (w_clock w), w\<lparr>w_clock := Suc (w_clock w)\<rparr>))"

text \<open>
  A context carries its deadline; \<open>ctx.Err() != nil\<close> when the caller cancelled it or the
  deadline has passed.
\<close>

record ctx = cx_deadline :: "gotime option"

definition background :: ctx where "background = \<lparr>cx_deadline = None\<rparr>"

definition with_timeout :: "env \<Rightarrow> ctx \<Rightarrow> duration \<Rightarrow> ('z, ctx) io" where
  "with_timeout e cx d = do {
     t \<leftarrow> now e;
     State_Monad.return (cx\<lparr>cx_deadline := Some (case cx_deadline cx of None \<Rightarrow> t + d | Some u \<Rightarrow> min u (t + d))\<rparr>)
   }"

definition ctx_done :: "env \<Rightarrow> ctx \<Rightarrow> ('z, bool) io" where
  "ctx_done e cx = do {
     t \<leftarrow> now e;
     State (\<lambda>w. (e_cancelled e (w_ctx w) \<or> (case cx_deadline cx of None \<Rightarrow> False | Some u \<Rightarrow> u \<le> t),
                 w\<lparr>w_ctx := Suc (w_ctx w)\<rparr>))
   }"

text \<open>The statements of other goroutines, then the call's own.\<close>

definition run_stmts :: "(gotime \<times> stmt) list \<Rightarrow> table \<Rightarrow> table" where
  "run_stmts ss t = fold (\<lambda>(n, s) u. fst (exec_stmt n s u)) ss t"

definition db_exec :: "env \<Rightarrow> stmt \<Rightarrow> ('z, goerr + nat) io" where
  "db_exec e s = State (\<lambda>w.
     let k = length (w_db w);
         t = run_stmts (e_others e k) (w_table w);
         (t', n) = exec_stmt (e_db_now e k) s t;
         w' = w\<lparr>w_db := w_db w @ [CallExec s]\<rparr>
     in case e_db e k of
          DbFail m \<Rightarrow> (Inl (Err m), w'\<lparr>w_table := t\<rparr>)
        | DbLost m \<Rightarrow> (Inl (Err m), w'\<lparr>w_table := t'\<rparr>)
        | _ \<Rightarrow> (Inr n, w'\<lparr>w_table := t'\<rparr>))"

text \<open>A query for many rows: what the iteration \<open>rows.Next()\<close> delivers, and what \<open>rows.Err()\<close> says after
  it. And a query for a single row.\<close>

definition db_query :: "env \<Rightarrow> (table \<Rightarrow> 'r list) \<Rightarrow> ('z, goerr + 'r list \<times> goerr option) io" where
  "db_query e q = State (\<lambda>w.
     let k = length (w_db w);
         t = run_stmts (e_others e k) (w_table w);
         w' = w\<lparr>w_table := t, w_db := w_db w @ [CallQuery]\<rparr>
     in case e_db e k of
          DbFail m \<Rightarrow> (Inl (Err m), w')
        | DbLost m \<Rightarrow> (Inl (Err m), w')
        | DbCut n m \<Rightarrow> (Inr (take n (q t), Some (Err m)), w')
        | DbOk \<Rightarrow> (Inr (q t, None), w'))"

definition db_query_row :: "env \<Rightarrow> (table \<Rightarrow> 'r) \<Rightarrow> ('z, goerr + 'r) io" where
  "db_query_row e q = State (\<lambda>w.
     let k = length (w_db w);
         t = run_stmts (e_others e k) (w_table w);
         w' = w\<lparr>w_table := t, w_db := w_db w @ [CallQuery]\<rparr>
     in case e_db e k of
          DbFail m \<Rightarrow> (Inl (Err m), w')
        | DbLost m \<Rightarrow> (Inl (Err m), w')
        | _ \<Rightarrow> (Inr (q t), w'))"

text \<open>\<open>Do\<close>: the request is logged when it was sent. The log holds the request \<open>Do\<close> was called with; the
  further ones it makes when it is redirected are \<open>wire\<close> in \<open>Ebookdb_Client\<close>.\<close>

definition http_do :: "env \<Rightarrow> http_request \<Rightarrow> ('z, http_result) io" where
  "http_do e r = State (\<lambda>w.
     case e_http e (length (w_http w)) r of
       ReqInvalid m \<Rightarrow> (ReqInvalid m, w)
     | x \<Rightarrow> (x, w\<lparr>w_http := w_http w @ [r]\<rparr>))"

definition emit :: "string \<Rightarrow> payload \<Rightarrow> ('z, unit) io" where
  "emit name p = State (\<lambda>w. ((), w\<lparr>w_events := w_events w @ [(name, p)]\<rparr>))"

section \<open>Quiet environments\<close>

text \<open>No other goroutine touches the table, and no database call fails.\<close>

definition quiet :: "env \<Rightarrow> bool" where
  "quiet e \<longleftrightarrow> (\<forall>k. e_others e k = []) \<and> (\<forall>k. e_db e k = DbOk)"

lemma run_stmts_simps [simp]:
  "run_stmts [] t = t" "run_stmts ((n, s) # ss) t = run_stmts ss (fst (exec_stmt n s t))"
  by (simp_all add: run_stmts_def)

lemma db_exec_quiet [run_simps]:
  "quiet e \<Longrightarrow> run_state (db_exec e s) w =
     (let (t, n) = exec_stmt (e_db_now e (length (w_db w))) s (w_table w)
      in (Inr n, w\<lparr>w_table := t, w_db := w_db w @ [CallExec s]\<rparr>))"
  by (simp add: db_exec_def quiet_def Let_def split: prod.splits)

lemma db_query_quiet [run_simps]:
  "quiet e \<Longrightarrow> run_state (db_query e q) w = (Inr (q (w_table w), None), w\<lparr>w_db := w_db w @ [CallQuery]\<rparr>)"
  by (simp add: db_query_def quiet_def Let_def)

lemma db_query_row_quiet [run_simps]:
  "quiet e \<Longrightarrow> run_state (db_query_row e q) w = (Inr (q (w_table w)), w\<lparr>w_db := w_db w @ [CallQuery]\<rparr>)"
  by (simp add: db_query_row_def quiet_def Let_def)

lemma now_run [run_simps]:
  "run_state (now e) w = (e_clock e (w_clock w), w\<lparr>w_clock := Suc (w_clock w)\<rparr>)"
  by (simp add: now_def)

lemma emit_run [run_simps]:
  "run_state (emit name p) w = ((), w\<lparr>w_events := w_events w @ [(name, p)]\<rparr>)"
  by (simp add: emit_def)

lemma with_timeout_any:
  assumes "run_state (with_timeout e cx d) w = (cx', w')"
  shows "w' = w\<lparr>w_clock := Suc (w_clock w)\<rparr>"
    "\<exists>u. cx_deadline cx' = Some u \<and> u \<le> e_clock e (w_clock w) + d"
    "cx_deadline cx = Some u \<Longrightarrow> \<exists>v. cx_deadline cx' = Some v \<and> v \<le> u"
    "cx_deadline cx = None \<Longrightarrow> cx_deadline cx' = Some (e_clock e (w_clock w) + d)"
  using assms by (auto simp: with_timeout_def now_run split: option.splits)

section \<open>What a run does to the table\<close>

text \<open>
  \<open>table_path P t t'\<close>: the table went from \<open>t\<close> to \<open>t'\<close> by statements that satisfy \<open>P\<close>, its own
  and those of others.
\<close>

inductive table_step :: "(stmt \<Rightarrow> bool) \<Rightarrow> table \<Rightarrow> table \<Rightarrow> bool" for P where
  "P s \<Longrightarrow> table_step P t (fst (exec_stmt n s t))"

inductive_cases table_stepE: "table_step P t t'"

definition table_path :: "(stmt \<Rightarrow> bool) \<Rightarrow> table \<Rightarrow> table \<Rightarrow> bool" where
  "table_path P = (table_step P)\<^sup>*\<^sup>*"

lemma table_path_refl [simp]: "table_path P t t"
  by (simp add: table_path_def)

lemma table_path_trans: "table_path P t u \<Longrightarrow> table_path P u v \<Longrightarrow> table_path P t v"
  unfolding table_path_def by (rule rtranclp_trans)

lemma table_path_exec: "P s \<Longrightarrow> table_path P t (fst (exec_stmt n s t))"
  unfolding table_path_def by (rule r_into_rtranclp) (rule table_step.intros)

lemma table_path_run_stmts:
  "(\<forall>(n, s) \<in> set ss. P s) \<Longrightarrow> table_path P t (run_stmts ss t)"
proof (induction ss arbitrary: t)
  case (Cons a ss)
  then show ?case
    by (cases a) (auto intro: table_path_trans [OF table_path_exec])
qed simp

lemma table_path_mono:
  assumes "table_path P t t'" and "\<And>s. P s \<Longrightarrow> Q s"
  shows "table_path Q t t'"
  using assms(1) unfolding table_path_def
proof (induction rule: rtranclp_induct)
  case (step u v)
  from step.hyps(2) have "table_step Q u v" by (auto elim!: table_stepE intro: table_step.intros assms(2))
  with step.IH show ?case by simp
qed simp

text \<open>A reflexive and transitive relation that every allowed statement respects holds along
  every path.\<close>

lemma table_path_rel:
  assumes "table_path P t t'" and "\<And>t. R t t" and "\<And>t u v. R t u \<Longrightarrow> R u v \<Longrightarrow> R t v"
    and "\<And>n s t. P s \<Longrightarrow> R t (fst (exec_stmt n s t))"
  shows "R t t'"
  using assms(1) unfolding table_path_def
proof (induction rule: rtranclp_induct)
  case base
  show ?case by (rule assms(2))
next
  case (step u v)
  then show ?case by (auto elim!: table_stepE intro: assms(3,4))
qed

lemma table_path_inv:
  assumes path: "table_path P t t'" and step: "\<And>n s t. P s \<Longrightarrow> I t \<Longrightarrow> I (fst (exec_stmt n s t))"
    and "I t"
  shows "I t'"
  using table_path_rel [OF path, of "\<lambda>t t'. I t \<longrightarrow> I t'"] step \<open>I t\<close> by blast

lemma table_path_wf:
  assumes "table_path P t t'" and "\<And>s. P s \<Longrightarrow> wf_stmt s" and "wf_table t"
  shows "wf_table t'"
  using assms(1) by (rule table_path_inv) (auto intro: wf_table_exec assms)

lemma table_path_terminal_kept:
  assumes "table_path P t t'" and "\<And>s. P s \<Longrightarrow> guarded s"
  shows "terminal_kept t t'"
  using assms(1)
  by (rule table_path_rel) (auto intro: terminal_kept_refl terminal_kept_trans guarded_terminal_kept assms)

lemma rows_kept_refl: "rows_kept t t"
  by (simp add: rows_kept_def)

lemma rows_kept_trans: "rows_kept t u \<Longrightarrow> rows_kept u v \<Longrightarrow> rows_kept t v"
  unfolding rows_kept_def by metis

lemma table_path_rows_kept:
  assumes "table_path P t t'"
  shows "rows_kept t t'"
  using assms by (rule table_path_rel) (auto intro: rows_kept_refl rows_kept_trans exec_rows_kept)

lemma table_path_frame:
  assumes "table_path P t t'" and "\<And>s. P s \<Longrightarrow> stmt_id s \<noteq> rid"
  shows "lookup t' rid = lookup t rid"
  using assms(1)
  by (rule table_path_rel [where R = "\<lambda>t t'. lookup t' rid = lookup t rid"])
    (auto simp: table_simps dest: assms(2))

section \<open>The effects\<close>

text \<open>\<open>others_do P e\<close>: the statements of other goroutines satisfy \<open>P\<close>.\<close>

definition others_do :: "(stmt \<Rightarrow> bool) \<Rightarrow> env \<Rightarrow> bool" where
  "others_do P e \<longleftrightarrow> (\<forall>k. \<forall>(n, s) \<in> set (e_others e k). P s)"

definition on_table :: "(stmt \<Rightarrow> bool) \<Rightarrow> 'z world_scheme \<Rightarrow> 'z world_scheme \<Rightarrow> bool" where
  "on_table P w w' \<longleftrightarrow> table_path P (w_table w) (w_table w')"

definition logs_grow :: "'z world_scheme \<Rightarrow> 'z world_scheme \<Rightarrow> bool" where
  "logs_grow w w' \<longleftrightarrow>
     prefix (w_db w) (w_db w') \<and> prefix (w_http w) (w_http w') \<and> prefix (w_events w) (w_events w')"

interpretation table_effect: effect "on_table P"
  by unfold_locales (auto simp: on_table_def intro: table_path_trans)

interpretation logs_effect: effect logs_grow
  by unfold_locales (auto simp: logs_grow_def)

lemma table_path_exec_eq: "P s \<Longrightarrow> exec_stmt n s t = (t', k) \<Longrightarrow> table_path P t t'"
  using table_path_exec [of P s t n] by simp

lemma table_path_others: "others_do P e \<Longrightarrow> table_path P t (run_stmts (e_others e k) t)"
  by (rule table_path_run_stmts) (auto simp: others_do_def)

lemma on_table_db_exec [effect_intros]:
  "others_do P e \<Longrightarrow> P s \<Longrightarrow> effect_of (on_table P) (db_exec e s)"
  by (rule effect_ofI)
    (auto simp: db_exec_def Let_def on_table_def split: db_outcome.splits prod.splits
      intro: table_path_others table_path_trans table_path_exec_eq)

lemma on_table_db_query [effect_intros]:
  "others_do P e \<Longrightarrow> effect_of (on_table P) (db_query e q)"
  by (rule effect_ofI)
    (auto simp: db_query_def Let_def on_table_def split: db_outcome.splits intro: table_path_others)

lemma on_table_db_query_row [effect_intros]:
  "others_do P e \<Longrightarrow> effect_of (on_table P) (db_query_row e q)"
  by (rule effect_ofI)
    (auto simp: db_query_row_def Let_def on_table_def split: db_outcome.splits intro: table_path_others)

lemma on_table_now [effect_intros]: "effect_of (on_table P) (now e)"
  by (rule effect_ofI) (simp add: now_def on_table_def)

lemma on_table_emit [effect_intros]: "effect_of (on_table P) (emit name p)"
  by (rule effect_ofI) (simp add: emit_def on_table_def)

lemma on_table_http_do [effect_intros]: "effect_of (on_table P) (http_do e r)"
  by (rule effect_ofI) (simp add: http_do_def on_table_def split: http_result.splits)

lemma on_table_with_timeout [effect_intros]: "effect_of (on_table P) (with_timeout e cx d)"
  unfolding with_timeout_def by (intro table_effect.effect_rules effect_intros)

lemma on_table_ctx_done [effect_intros]: "effect_of (on_table P) (ctx_done e cx)"
  unfolding ctx_done_def
  by (intro table_effect.effect_rules effect_intros effect_ofI) (simp add: on_table_def)

lemma on_table_wf:
  assumes "effect_of (on_table P) m" and "\<And>s. P s \<Longrightarrow> wf_stmt s" and "wf_table (w_table w)"
  shows "wf_table (w_table (snd (run_state m w)))"
  using assms by (auto simp: effect_of_def on_table_def intro: table_path_wf)

text \<open>What the clock, the context and the database leave alone: the requests sent, the events
  published, and whatever a component adds to the world.\<close>

definition backend_only :: "'z world_scheme \<Rightarrow> 'z world_scheme \<Rightarrow> bool" where
  "backend_only w w' \<longleftrightarrow> w_http w' = w_http w \<and> w_events w' = w_events w \<and> world.more w' = world.more w"

interpretation backend_effect: effect backend_only
  by unfold_locales (auto simp: backend_only_def)

lemma backend_only_db [effect_intros]:
  "effect_of backend_only (db_exec e s)" "effect_of backend_only (db_query e q)" "effect_of backend_only (db_query_row e f)"
  by (rule effect_ofI, auto simp: backend_only_def db_exec_def db_query_def db_query_row_def Let_def
      split: db_outcome.splits prod.splits)+

lemma backend_only_now [effect_intros]: "effect_of backend_only (now e)"
  by (rule effect_ofI) (simp add: backend_only_def now_def)

lemma backend_only_with_timeout [effect_intros]: "effect_of backend_only (with_timeout e cx d)"
  unfolding with_timeout_def by (intro backend_effect.effect_rules effect_intros)

lemma backend_only_ctx_done [effect_intros]: "effect_of backend_only (ctx_done e cx)"
  unfolding ctx_done_def
  by (intro backend_effect.effect_rules effect_intros effect_ofI) (simp add: backend_only_def)

text \<open>The memory of other components: what extends the world.\<close>

definition memory_kept :: "'z world_scheme \<Rightarrow> 'z world_scheme \<Rightarrow> bool" where
  "memory_kept w w' \<longleftrightarrow> world.more w' = world.more w"

interpretation memory_effect: effect memory_kept
  by unfold_locales (auto simp: memory_kept_def)

lemma memory_kept_backend: "effect_of backend_only m \<Longrightarrow> effect_of memory_kept m"
  by (erule effect_of_mono) (simp add: backend_only_def memory_kept_def)

lemmas memory_kept_basic [effect_intros] =
  backend_only_now [THEN memory_kept_backend] backend_only_with_timeout [THEN memory_kept_backend]

lemma memory_kept_logs [effect_intros]:
  "effect_of memory_kept (http_do e r)" "effect_of memory_kept (emit name p)"
  by (rule effect_ofI, simp add: memory_kept_def http_do_def emit_def split: http_result.splits)+

text \<open>
  The statements that leave the terminal status of the request \<open>rid\<close> alone: those with the
  guard, and those about other requests.
\<close>

definition spares :: "string \<Rightarrow> stmt \<Rightarrow> bool" where
  "spares rid s \<longleftrightarrow> guarded s \<or> stmt_id s \<noteq> rid"

definition status_held :: "string \<Rightarrow> string \<Rightarrow> table \<Rightarrow> bool" where
  "status_held rid st t \<longleftrightarrow> (\<exists>r. lookup t rid = Some r \<and> c_status r = st)"

lemma spares_exec:
  assumes "spares rid s" and "terminal st" and "status_held rid st t"
  shows "status_held rid st (fst (exec_stmt n s t))"
proof (cases "guarded s")
  case True
  from guarded_terminal_kept [OF this, of t n] assms(2,3) show ?thesis
    by (auto simp: status_held_def terminal_kept_def)
next
  case False
  with assms show ?thesis by (auto simp: spares_def status_held_def table_simps)
qed

lemma on_table_terminal:
  assumes "effect_of (on_table (spares rid)) m" and "terminal st" and "status_held rid st (w_table w)"
  shows "status_held rid st (w_table (snd (run_state m w)))"
proof -
  have "table_path (spares rid) (w_table w) (w_table (snd (run_state m w)))"
    using assms(1) by (simp add: effect_of_def on_table_def)
  then show ?thesis
    by (rule table_path_inv) (auto intro: spares_exec assms(2,3))
qed

section \<open>A concrete environment\<close>

text \<open>Used by the witnesses: clocks that advance by one, a database that always answers, and an
  upstream given by the caller.\<close>

definition demo_env :: "(nat \<Rightarrow> http_request \<Rightarrow> http_result) \<Rightarrow> env" where
  "demo_env up =
     \<lparr>e_clock = (\<lambda>n. 1000 + int n), e_cancelled = (\<lambda>_. False), e_db = (\<lambda>_. DbOk),
      e_db_now = (\<lambda>n. 1000 + int n), e_others = (\<lambda>_. []), e_null_time = 0,
      e_collate = (\<lambda>s. s), e_fold = to_lower, e_http = up, e_redirects = (\<lambda>_ _. []),
      e_http_date = (\<lambda>_. None), e_json_error = (\<lambda>_. ''invalid character''), e_float = (\<lambda>s. Some s), e_ip6 = (\<lambda>_. False),
      e_ping = (\<lambda>_. None), e_config = (\<lambda>_. DbOk), e_config_others = (\<lambda>_. [])\<rparr>"

definition demo_world :: "table \<Rightarrow> world" where
  "demo_world t = \<lparr>w_table = t, w_db = [], w_clock = 0, w_ctx = 0, w_http = [], w_events = []\<rparr>"

definition refused :: "nat \<Rightarrow> http_request \<Rightarrow> http_result" where
  "refused k r = ReqFailed ''connection refused''"

lemma demo_env_simps [simp]:
  "e_clock (demo_env up) n = 1000 + int n" "e_cancelled (demo_env up) n = False"
  "e_null_time (demo_env up) = 0" "e_collate (demo_env up) s = s" "e_fold (demo_env up) = to_lower"
  "e_http (demo_env up) = up" "e_db_now (demo_env up) n = 1000 + int n" "e_others (demo_env up) n = []"
  "e_db (demo_env up) n = DbOk" "e_float (demo_env up) s = Some s" "e_ip6 (demo_env up) s = False"
  "e_redirects (demo_env up) n q = []"
  "e_ping (demo_env up) n = None" "e_config (demo_env up) n = DbOk" "e_config_others (demo_env up) n = []"
  by (simp_all add: demo_env_def)

lemma demo_world_simps [simp]:
  "w_table (demo_world t) = t" "w_db (demo_world t) = []" "w_clock (demo_world t) = 0"
  "w_ctx (demo_world t) = 0" "w_http (demo_world t) = []" "w_events (demo_world t) = []"
  by (simp_all add: demo_world_def)

lemma quiet_demo [simp]: "quiet (demo_env up)"
  by (simp add: quiet_def demo_env_def)

lemma others_do_quiet [simp]: "quiet e \<Longrightarrow> others_do P e"
  by (simp add: quiet_def others_do_def)

end
