(* ===== verification/Request_Store.thy ===== *)
theory Request_Store
  imports Plugin_IO
begin

text \<open>
  The methods of \<open>Store\<close> in \<open>internal/store/request.go\<close>. Each checks its arguments, turns Go's
  zero values into NULL, runs one statement of \<open>Forwarded_Table\<close> or \<open>Table_Queries\<close> and wraps
  the error. The locale \<open>request_store\<close> is what the consumer and the reconciler rely on.
\<close>

section \<open>Zero values and NULL\<close>

definition opt_string :: "string \<Rightarrow> string option" where
  "opt_string s = (if s = [] then None else Some s)"

definition opt_time :: "gotime \<Rightarrow> gotime option" where
  "opt_time t = (if t = 0 then None else Some t)"

lemma opt_string_wf [simp]: "opt_string s \<noteq> Some []"
  by (simp add: opt_string_def)

lemma opt_string_simps [simp]: "opt_string [] = None" "s \<noteq> [] \<Longrightarrow> opt_string s = Some s"
  by (simp_all add: opt_string_def)

section \<open>Writing\<close>

text \<open>\<open>if t.IsZero() { t = time.Now() }\<close>.\<close>

definition stamp :: "env \<Rightarrow> gotime \<Rightarrow> ('z, gotime) io" where
  "stamp e t = (if t = 0 then now e else State_Monad.return t)"

definition upsert_stmt :: "forwarded_request \<Rightarrow> gotime \<Rightarrow> stmt" where
  "upsert_stmt r upd =
     Upsert (request_id r) (opt_string (external_id r)) (status r)
       (opt_time (last_polled r)) (opt_string (error_text r)) upd"

definition upsert_forwarded_request :: "env \<Rightarrow> forwarded_request \<Rightarrow> ('z, goerr + unit) io" where
  "upsert_forwarded_request e r =
     (if request_id r = [] then State_Monad.return (Inl (Err ''request_id required''))
      else do {
        upd \<leftarrow> stamp e (updated_at r);
        res \<leftarrow> db_exec e (upsert_stmt r upd);
        State_Monad.return (case res of
            Inl err \<Rightarrow> Inl (Wrapf ''upsert forwarded_request: '' err [])
          | Inr _ \<Rightarrow> Inr ())
      })"

definition mark_polled :: "env \<Rightarrow> string \<Rightarrow> string \<Rightarrow> string \<Rightarrow> gotime \<Rightarrow> ('z, goerr + unit) io" where
  "mark_polled e rid ext st w =
     (if rid = [] then State_Monad.return (Inl (Err ''request_id required''))
      else do {
        t \<leftarrow> stamp e w;
        res \<leftarrow> db_exec e (MarkPolled rid (opt_string ext) st t);
        State_Monad.return (case res of Inl err \<Rightarrow> Inl (Wrapf ''mark polled: '' err []) | Inr _ \<Rightarrow> Inr ())
      })"

definition retry_request :: "env \<Rightarrow> string \<Rightarrow> ('z, goerr + unit) io" where
  "retry_request e rid =
     (if rid = [] then State_Monad.return (Inl (Err ''request_id required''))
      else do {
        res \<leftarrow> db_exec e (Retry rid);
        State_Monad.return (case res of
            Inl err \<Rightarrow> Inl (Wrapf ''retry: '' err [])
          | Inr n \<Rightarrow> if n = 0 then Inl ErrNotFound else Inr ())
      })"

definition mark_failed_manually :: "env \<Rightarrow> string \<Rightarrow> string \<Rightarrow> ('z, goerr + unit) io" where
  "mark_failed_manually e rid reason =
     (if rid = [] then State_Monad.return (Inl (Err ''request_id required''))
      else do {
        res \<leftarrow> db_exec e (MarkFailed rid (if reason = [] then ''marked failed by admin'' else reason));
        State_Monad.return (case res of
            Inl err \<Rightarrow> Inl (Wrapf ''mark failed: '' err [])
          | Inr n \<Rightarrow> if n = 0 then Inl ErrNotFound else Inr ())
      })"

section \<open>Reading\<close>

definition get_forwarded_request :: "env \<Rightarrow> string \<Rightarrow> ('z, goerr + forwarded_request) io" where
  "get_forwarded_request e rid = do {
     res \<leftarrow> db_query_row e (\<lambda>t. lookup t rid);
     State_Monad.return (case res of
         Inl err \<Rightarrow> Inl (Wrapf ''get forwarded_request: '' err [])
       | Inr None \<Rightarrow> Inl ErrNotFound
       | Inr (Some r) \<Rightarrow> Inr (scan_row (e_null_time e) r))
   }"

text \<open>
  The loops \<open>for rows.Next()\<close> collect what the result set gives; none of them asks
  \<open>rows.Err()\<close>, the second component of the answer.
\<close>

definition list_non_terminal :: "env \<Rightarrow> int \<Rightarrow> ('z, goerr + forwarded_request list) io" where
  "list_non_terminal e limit = do {
     res \<leftarrow> db_query e (\<lambda>t. map (scan_row (e_null_time e))
              (select_non_terminal (e_null_time e) (e_collate e) (nat (if limit \<le> 0 then 100 else limit)) t));
     State_Monad.return (case res of Inl err \<Rightarrow> Inl (Wrapf ''list non-terminal: '' err []) | Inr (rows, rows_err) \<Rightarrow> Inr rows)
   }"

definition clamp_limit :: "int \<Rightarrow> int" where
  "clamp_limit limit = (if limit \<le> 0 \<or> limit > 200 then 50 else limit)"

definition list_requests ::
  "env \<Rightarrow> string \<Rightarrow> string \<Rightarrow> int \<Rightarrow> int \<Rightarrow> ('z, goerr + (forwarded_request list \<times> nat)) io" where
  "list_requests e st search limit offset = do {
     cnt \<leftarrow> db_query_row e (count_matching (e_fold e) st search);
     (case cnt of
        Inl err \<Rightarrow> State_Monad.return (Inl (Wrapf ''count requests: '' err []))
      | Inr n \<Rightarrow> do {
          res \<leftarrow> db_query e (\<lambda>t. map (scan_row (e_null_time e))
                   (select_page (e_fold e) st search (nat (clamp_limit limit))
                      (nat (if offset < 0 then 0 else offset)) t));
          State_Monad.return (case res of
              Inl err \<Rightarrow> Inl (Wrapf ''list requests: '' err [])
            | Inr (rows, rows_err) \<Rightarrow> Inr (rows, n))
        })
   }"

definition list_stuck :: "env \<Rightarrow> duration \<Rightarrow> int \<Rightarrow> ('z, goerr + forwarded_request list) io" where
  "list_stuck e threshold limit = do {
     t \<leftarrow> now e;
     res \<leftarrow> db_query e (\<lambda>u. map (scan_row (e_null_time e)) (select_stuck (t - threshold) (nat (clamp_limit limit)) u));
     State_Monad.return (case res of Inl err \<Rightarrow> Inl (Wrapf ''list stuck: '' err []) | Inr (rows, rows_err) \<Rightarrow> Inr rows)
   }"

definition request_stats_of :: "env \<Rightarrow> ('z, goerr + request_stats) io" where
  "request_stats_of e = do {
     res \<leftarrow> db_query_row e select_stats;
     State_Monad.return (case res of Inl err \<Rightarrow> Inl (Wrapf ''request stats: '' err []) | Inr s \<Rightarrow> Inr s)
   }"

section \<open>The contract of the store\<close>

definition old_ext :: "row option \<Rightarrow> string option" where
  "old_ext x = (case x of None \<Rightarrow> None | Some r \<Rightarrow> c_ext r)"

definition old_err :: "row option \<Rightarrow> string option" where
  "old_err x = (case x of None \<Rightarrow> None | Some r \<Rightarrow> c_err r)"

definition old_polled :: "row option \<Rightarrow> gotime option" where
  "old_polled x = (case x of None \<Rightarrow> None | Some r \<Rightarrow> c_polled r)"

text \<open>The status a write of \<open>st\<close> leaves: the terminal guard.\<close>

definition guard_status :: "row option \<Rightarrow> string \<Rightarrow> string" where
  "guard_status x st = (case x of None \<Rightarrow> st | Some r \<Rightarrow> if terminal (c_status r) then c_status r else st)"

text \<open>The row \<open>y\<close> is the row \<open>x\<close>, if there was one, after the upsert of \<open>r\<close>.\<close>

definition upserted :: "forwarded_request \<Rightarrow> row option \<Rightarrow> row \<Rightarrow> bool" where
  "upserted r x y \<longleftrightarrow>
     c_id y = request_id r \<and>
     c_ext y = coalesce (opt_string (external_id r)) (old_ext x) \<and>
     c_status y = guard_status x (status r) \<and>
     c_polled y = coalesce (opt_time (last_polled r)) (old_polled x) \<and>
     c_err y = coalesce (opt_string (error_text r)) (old_err x) \<and>
     (updated_at r \<noteq> 0 \<longrightarrow> c_updated y = updated_at r) \<and>
     (\<forall>z. x = Some z \<longrightarrow> c_created y = c_created z)"

definition poll_recorded :: "string \<Rightarrow> string \<Rightarrow> row \<Rightarrow> row \<Rightarrow> bool" where
  "poll_recorded ext st x y \<longleftrightarrow>
     c_id y = c_id x \<and> c_ext y = coalesce (opt_string ext) (c_ext x) \<and>
     c_status y = guard_status (Some x) st \<and> c_polled y \<noteq> None \<and> c_err y = None"

lemma guard_status_simps [simp]:
  "guard_status None st = st" "terminal (c_status r) \<Longrightarrow> guard_status (Some r) st = c_status r"
  "\<not> terminal (c_status r) \<Longrightarrow> guard_status (Some r) st = st"
  by (simp_all add: guard_status_def)

locale request_store =
  fixes ok :: "'e \<Rightarrow> bool"
    and row_of :: "'w \<Rightarrow> string \<Rightarrow> row option"
    and upsert :: "'e \<Rightarrow> forwarded_request \<Rightarrow> ('w, goerr + unit) state"
    and poll :: "'e \<Rightarrow> string \<Rightarrow> string \<Rightarrow> string \<Rightarrow> gotime \<Rightarrow> ('w, goerr + unit) state"
  assumes upsert_accepts: "ok e \<Longrightarrow> request_id r \<noteq> [] \<Longrightarrow> fst (run_state (upsert e r) w) = Inr ()"
    and upsert_row: "ok e \<Longrightarrow> request_id r \<noteq> [] \<Longrightarrow>
      \<exists>y. row_of (snd (run_state (upsert e r) w)) (request_id r) = Some y \<and> upserted r (row_of w (request_id r)) y"
    and upsert_other: "ok e \<Longrightarrow> k \<noteq> request_id r \<Longrightarrow> row_of (snd (run_state (upsert e r) w)) k = row_of w k"
    and poll_accepts: "ok e \<Longrightarrow> k \<noteq> [] \<Longrightarrow> fst (run_state (poll e k ext st t) w) = Inr ()"
    and poll_row: "ok e \<Longrightarrow> k \<noteq> [] \<Longrightarrow> row_of w k = Some x \<Longrightarrow>
      \<exists>y. row_of (snd (run_state (poll e k ext st t) w)) k = Some y \<and> poll_recorded ext st x y"
    and poll_other: "ok e \<Longrightarrow> k' \<noteq> k \<Longrightarrow> row_of (snd (run_state (poll e k ext st t) w)) k' = row_of w k'"
    and poll_absent: "ok e \<Longrightarrow> row_of w k = None \<Longrightarrow> row_of (snd (run_state (poll e k ext st t) w)) k = None"
begin

text \<open>Two writes of one request, with nothing in between that touches its row: the later status
  counts unless a terminal one was reached.\<close>

lemma upsert_twice:
  assumes "ok e" and "request_id r \<noteq> []" and "request_id s = request_id r"
    and run1: "run_state (upsert e r) w = (a, w')"
    and same: "row_of v (request_id r) = row_of w' (request_id r)"
    and run2: "run_state (upsert e s) v = (b, w'')"
  shows "\<exists>y. row_of w'' (request_id r) = Some y \<and>
     c_status y = guard_status (row_of w (request_id r)) (if terminal (status r) then status r else status s) \<and>
     c_ext y = coalesce (opt_string (external_id s)) (coalesce (opt_string (external_id r)) (old_ext (row_of w (request_id r)))) \<and>
     c_err y = coalesce (opt_string (error_text s)) (coalesce (opt_string (error_text r)) (old_err (row_of w (request_id r))))"
proof -
  from upsert_row [OF assms(1,2), of w] run1
  obtain x where x: "row_of w' (request_id r) = Some x" "upserted r (row_of w (request_id r)) x" by auto
  from upsert_row [OF assms(1), of s v] run2 assms(2,3) x same
  obtain y where y: "row_of w'' (request_id r) = Some y" "upserted s (Some x) y" by auto
  with x show ?thesis
    by (auto simp: upserted_def guard_status_def old_ext_def old_err_def split: option.splits)
qed

text \<open>The same for other requests: two writes of one leave them alone.\<close>

lemma upsert_twice_other:
  assumes "ok e" and "k \<noteq> request_id r" and "request_id s = request_id r"
    and run1: "run_state (upsert e r) w = (a, w')"
    and same: "row_of v k = row_of w' k"
    and run2: "run_state (upsert e s) v = (b, w'')"
  shows "row_of w'' k = row_of w k"
  using upsert_other [OF assms(1,2), of w] upsert_other [OF assms(1), of k s v] assms by simp

text \<open>A poll after an upsert records the polled status and clears the error.\<close>

lemma upsert_then_poll:
  assumes "ok e" and "request_id r \<noteq> []" and "\<not> terminal (status r)"
    and "\<And>x. row_of w (request_id r) = Some x \<Longrightarrow> \<not> terminal (c_status x)"
    and run1: "run_state (upsert e r) w = (a, w')"
    and run2: "run_state (poll e (request_id r) ext st t) w' = (b, w'')"
  shows "\<exists>y. row_of w'' (request_id r) = Some y \<and> c_status y = st \<and> c_err y = None"
proof -
  from upsert_row [OF assms(1,2), of w] run1
  obtain x where x: "row_of w' (request_id r) = Some x" "upserted r (row_of w (request_id r)) x" by auto
  then have "\<not> terminal (c_status x)"
    using assms(3,4) by (auto simp: upserted_def guard_status_def split: option.splits)
  moreover from poll_row [OF assms(1,2) x(1)] run2
  obtain y where "row_of w'' (request_id r) = Some y" "poll_recorded ext st x y"
    by (metis snd_conv)
  ultimately show ?thesis by (auto simp: poll_recorded_def)
qed

end

section \<open>The Go methods meet the contract\<close>

definition stamped :: "env \<Rightarrow> gotime \<Rightarrow> 'z world_scheme \<Rightarrow> gotime" where
  "stamped e t w = (if t = 0 then e_clock e (w_clock w) else t)"

lemma stamp_run [run_simps]:
  "run_state (stamp e t) w = (stamped e t w, w\<lparr>w_clock := w_clock w + (if t = 0 then 1 else 0)\<rparr>)"
  by (simp add: stamp_def stamped_def run_simps)

text \<open>What a successful statement does to the world, besides the clock.\<close>

definition applied :: "env \<Rightarrow> stmt \<Rightarrow> 'z world_scheme \<Rightarrow> 'z world_scheme" where
  "applied e s w =
     w\<lparr>w_table := fst (exec_stmt (e_db_now e (length (w_db w))) s (w_table w)),
       w_db := w_db w @ [CallExec s]\<rparr>"

lemma lookup_applied: "lookup (w_table (applied e s w)) = exec_map (e_db_now e (length (w_db w))) s (lookup (w_table w))"
  by (simp add: applied_def lookup_exec)

lemma applied_frame [simp]:
  "w_http (applied e s w) = w_http w" "w_events (applied e s w) = w_events w"
  "w_db (applied e s w) = w_db w @ [CallExec s]" "w_ctx (applied e s w) = w_ctx w"
  by (simp_all add: applied_def)

lemma db_exec_applied:
  "quiet e \<Longrightarrow> run_state (db_exec e s) w = (Inr (snd (exec_stmt (e_db_now e (length (w_db w))) s (w_table w))), applied e s w)"
  by (simp add: db_exec_quiet applied_def split: prod.splits)

lemma upsert_quiet [run_simps]:
  "quiet e \<Longrightarrow> request_id r \<noteq> [] \<Longrightarrow>
   run_state (upsert_forwarded_request e r) w =
     (Inr (), applied e (upsert_stmt r (stamped e (updated_at r) w))
                (w\<lparr>w_clock := w_clock w + (if updated_at r = 0 then 1 else 0)\<rparr>))"
  by (simp add: upsert_forwarded_request_def stamp_run db_exec_applied)

lemma mark_polled_quiet [run_simps]:
  "quiet e \<Longrightarrow> rid \<noteq> [] \<Longrightarrow>
   run_state (mark_polled e rid ext st t) w =
     (Inr (), applied e (MarkPolled rid (opt_string ext) st (stamped e t w))
                (w\<lparr>w_clock := w_clock w + (if t = 0 then 1 else 0)\<rparr>))"
  by (simp add: mark_polled_def stamp_run db_exec_applied)

lemma upsert_stmt_row:
  assumes "\<And>x. m (request_id r) = Some x \<Longrightarrow> c_id x = request_id r" and "updated_at r \<noteq> 0 \<Longrightarrow> upd = updated_at r"
  shows "\<exists>y. exec_map n (upsert_stmt r upd) m (request_id r) = Some y \<and> upserted r (m (request_id r)) y"
  using assms
  by (cases "m (request_id r)")
    (auto simp: upsert_stmt_def exec_map_def upserted_def new_row_def merge_row_def guard_status_def old_ext_def
      old_err_def old_polled_def)

lemma upsert_stmt_id [simp]: "stmt_id (upsert_stmt r upd) = request_id r"
  by (simp add: upsert_stmt_def)

lemma upsert_no_id: "request_id r = [] \<Longrightarrow> run_state (upsert_forwarded_request e r) w = (Inl (Err ''request_id required''), w)"
  by (simp add: upsert_forwarded_request_def)

lemma mark_polled_no_id: "run_state (mark_polled e [] ext st t) w = (Inl (Err ''request_id required''), w)"
  by (simp add: mark_polled_def)

interpretation store: request_store quiet "\<lambda>w. lookup (w_table w)" upsert_forwarded_request mark_polled
proof
  fix e :: env and r w and k k' :: string and ext st t x
  assume q: "quiet e"
  show "request_id r \<noteq> [] \<Longrightarrow> fst (run_state (upsert_forwarded_request e r) w) = Inr ()"
    using q by (simp add: upsert_quiet)
  show "request_id r \<noteq> [] \<Longrightarrow>
      \<exists>y. lookup (w_table (snd (run_state (upsert_forwarded_request e r) w))) (request_id r) = Some y \<and>
          upserted r (lookup (w_table w) (request_id r)) y"
    using q upsert_stmt_row [of "lookup (w_table w)" r "stamped e (updated_at r) w"]
    by (simp add: upsert_quiet lookup_applied lookup_id stamped_def)
  show "k \<noteq> request_id r \<Longrightarrow> lookup (w_table (snd (run_state (upsert_forwarded_request e r) w))) k = lookup (w_table w) k"
    using q by (cases "request_id r = []") (simp_all add: upsert_no_id upsert_quiet lookup_applied)
  show "k \<noteq> [] \<Longrightarrow> fst (run_state (mark_polled e k ext st t) w) = Inr ()"
    using q by (simp add: mark_polled_quiet)
  show "k \<noteq> [] \<Longrightarrow> lookup (w_table w) k = Some x \<Longrightarrow>
      \<exists>y. lookup (w_table (snd (run_state (mark_polled e k ext st t) w))) k = Some y \<and> poll_recorded ext st x y"
    using q by (simp add: mark_polled_quiet lookup_applied exec_map_def poll_recorded_def polled_row_def guard_status_def)
  show "k' \<noteq> k \<Longrightarrow> lookup (w_table (snd (run_state (mark_polled e k ext st t) w))) k' = lookup (w_table w) k'"
    using q by (cases "k = []") (simp_all add: mark_polled_no_id mark_polled_quiet lookup_applied)
  show "lookup (w_table w) k = None \<Longrightarrow> lookup (w_table (snd (run_state (mark_polled e k ext st t) w))) k = None"
    using q by (cases "k = []") (simp_all add: mark_polled_no_id mark_polled_quiet lookup_applied exec_map_def)
qed

section \<open>Effects of the methods\<close>

text \<open>The statements a method may run, for the frame conditions of its callers.\<close>

lemma on_table_stamp [effect_intros]: "effect_of (on_table P) (stamp e t)"
  unfolding stamp_def by (intro table_effect.effect_rules effect_intros)

lemma on_table_upsert [effect_intros]:
  "others_do P e \<Longrightarrow> (\<And>upd. request_id r \<noteq> [] \<Longrightarrow> P (upsert_stmt r upd)) \<Longrightarrow>
   effect_of (on_table P) (upsert_forwarded_request e r)"
  unfolding upsert_forwarded_request_def by (intro table_effect.effect_rules effect_intros)

lemma on_table_mark_polled [effect_intros]:
  "others_do P e \<Longrightarrow> (\<And>t'. rid \<noteq> [] \<Longrightarrow> P (MarkPolled rid (opt_string ext) st t')) \<Longrightarrow>
   effect_of (on_table P) (mark_polled e rid ext st t)"
  unfolding mark_polled_def by (intro table_effect.effect_rules effect_intros)

lemma on_table_retry [effect_intros]:
  "others_do P e \<Longrightarrow> (rid \<noteq> [] \<Longrightarrow> P (Retry rid)) \<Longrightarrow> effect_of (on_table P) (retry_request e rid)"
  unfolding retry_request_def by (intro table_effect.effect_rules effect_intros)

lemma on_table_mark_failed [effect_intros]:
  "others_do P e \<Longrightarrow>
   (rid \<noteq> [] \<Longrightarrow> P (MarkFailed rid (if reason = [] then ''marked failed by admin'' else reason))) \<Longrightarrow>
   effect_of (on_table P) (mark_failed_manually e rid reason)"
  unfolding mark_failed_manually_def by (intro table_effect.effect_rules effect_intros)

lemma on_table_list_non_terminal [effect_intros]:
  "others_do P e \<Longrightarrow> effect_of (on_table P) (list_non_terminal e n)"
  unfolding list_non_terminal_def by (intro table_effect.effect_rules effect_intros)

lemma backend_only_store [effect_intros]:
  "effect_of backend_only (stamp e t)" "effect_of backend_only (upsert_forwarded_request e r)"
  "effect_of backend_only (mark_polled e rid ext st t)" "effect_of backend_only (list_non_terminal e limit)"
  unfolding stamp_def upsert_forwarded_request_def mark_polled_def list_non_terminal_def
  by (intro backend_effect.effect_rules effect_intros)+

lemma wf_upsert_stmt: "request_id r \<noteq> [] \<Longrightarrow> wf_stmt (upsert_stmt r upd)"
  by (simp add: upsert_stmt_def)

lemma guarded_upsert_stmt [simp]: "guarded (upsert_stmt r upd)"
  by (simp add: upsert_stmt_def)

section \<open>Properties\<close>

lemmas write_effects = on_table_upsert on_table_mark_polled on_table_retry on_table_mark_failed

text \<open>C36: every writing method keeps the table well formed: distinct, non-empty request ids,
  and NULL instead of an empty external id or error text, whatever calls fail and whatever
  well-formed statements other goroutines run in between.\<close>

theorem store_writes_keep_wf:
  assumes "others_do wf_stmt e" and "wf_table (w_table w)"
  shows "wf_table (w_table (snd (run_state (upsert_forwarded_request e r) w))) \<and>
    wf_table (w_table (snd (run_state (mark_polled e rid ext st t) w))) \<and>
    wf_table (w_table (snd (run_state (retry_request e rid) w))) \<and>
    wf_table (w_table (snd (run_state (mark_failed_manually e rid reason) w)))"
  using assms
  by (auto intro!: on_table_wf [where P = wf_stmt] write_effects wf_upsert_stmt)

definition demo_row :: row where
  "demo_row = \<lparr>c_id = ''r1'', c_ext = Some ''job1'', c_status = ''searching'', c_polled = Some 5,
     c_err = Some ''boom'', c_created = 1, c_updated = 5\<rparr>"

definition demo_request :: forwarded_request where
  "demo_request = \<lparr>request_id = ''r1'', external_id = ''job1'', status = ''acknowledged'', last_polled = 0,
     error_text = [], created_at = 0, updated_at = 7\<rparr>"

lemma demo_row_simps [simp]:
  "c_id demo_row = ''r1''" "c_ext demo_row = Some ''job1''" "c_status demo_row = ''searching''"
  "c_polled demo_row = Some 5" "c_err demo_row = Some ''boom''" "c_created demo_row = 1"
  by (simp_all add: demo_row_def)

lemma demo_row_wf [simp]: "wf_table [demo_row]"
  by (simp add: wf_table_def wf_row_def demo_row_def)

theorem store_writes_keep_wf_witness:
  "wf_table (w_table (demo_world [demo_row])) \<and>
   wf_table (w_table (snd (run_state (upsert_forwarded_request (demo_env refused) demo_request) (demo_world [demo_row]))))"
  using store_writes_keep_wf [of "demo_env refused" "demo_world [demo_row]" demo_request]
  by (simp add: demo_world_def)

text \<open>C17: the terminal guard. Once a request is imported or failed, no upsert and no recorded
  poll, of any request and at any interleaving with guarded statements or statements about
  other requests, changes its status; neither does an admin action on another request.\<close>

theorem terminal_status_survives:
  assumes "others_do (spares rid) e" and "terminal st" and "status_held rid st (w_table w)"
  shows "status_held rid st (w_table (snd (run_state (upsert_forwarded_request e r) w))) \<and>
    status_held rid st (w_table (snd (run_state (mark_polled e k ext st' t) w))) \<and>
    (k \<noteq> rid \<longrightarrow>
      status_held rid st (w_table (snd (run_state (retry_request e k) w))) \<and>
      status_held rid st (w_table (snd (run_state (mark_failed_manually e k reason) w))))"
proof (intro conjI impI)
  show "status_held rid st (w_table (snd (run_state (upsert_forwarded_request e r) w)))"
    using assms by (intro on_table_terminal on_table_upsert) (simp_all add: spares_def)
  show "status_held rid st (w_table (snd (run_state (mark_polled e k ext st' t) w)))"
    using assms by (intro on_table_terminal on_table_mark_polled) (simp_all add: spares_def)
  assume "k \<noteq> rid"
  then show "status_held rid st (w_table (snd (run_state (retry_request e k) w)))"
    "status_held rid st (w_table (snd (run_state (mark_failed_manually e k reason) w)))"
    using assms by (intro on_table_terminal on_table_retry on_table_mark_failed; simp add: spares_def)+
qed

theorem terminal_status_survives_witness:
  "status_held ''r1'' ''imported''
     (w_table (snd (run_state (upsert_forwarded_request (demo_env refused) demo_request)
       (demo_world [demo_row\<lparr>c_status := ''imported''\<rparr>]))))"
  using terminal_status_survives [of "''r1''" "demo_env refused" "''imported''"
      "demo_world [demo_row\<lparr>c_status := ''imported''\<rparr>]" demo_request]
  by (simp add: demo_world_def status_held_def lookup_def demo_row_def terminal_def)

text \<open>C37: an upsert stores exactly the row the conflict rule says and touches no other one. A new
  request gets a row with NULL for what is empty, created at the database's time. An existing row
  keeps its creation time, and the external id, poll time and error text that the new record leaves
  empty; its status obeys the terminal guard. Either way the row is updated at the record's time, or
  at the time of the clock when the record has none.\<close>

theorem upsert_writes_one_row:
  assumes "quiet e" and "request_id r \<noteq> []"
  shows "\<exists>w' y. run_state (upsert_forwarded_request e r) w = (Inr (), w') \<and>
    lookup (w_table w') = (lookup (w_table w))(request_id r \<mapsto> y) \<and>
    c_updated y = (if updated_at r = 0 then e_clock e (w_clock w) else updated_at r) \<and>
    (case lookup (w_table w) (request_id r) of
       None \<Rightarrow> c_id y = request_id r \<and> c_created y = e_db_now e (length (w_db w)) \<and> c_status y = status r \<and>
         c_ext y = (if external_id r = [] then None else Some (external_id r)) \<and>
         c_polled y = (if last_polled r = 0 then None else Some (last_polled r)) \<and>
         c_err y = (if error_text r = [] then None else Some (error_text r))
     | Some x \<Rightarrow> c_id y = c_id x \<and> c_created y = c_created x \<and>
         c_status y = (if c_status x = ''imported'' \<or> c_status x = ''failed'' then c_status x else status r) \<and>
         c_ext y = (if external_id r = [] then c_ext x else Some (external_id r)) \<and>
         c_polled y = (if last_polled r = 0 then c_polled x else Some (last_polled r)) \<and>
         c_err y = (if error_text r = [] then c_err x else Some (error_text r)))"
proof -
  let ?w' = "snd (run_state (upsert_forwarded_request e r) w)" and ?m = "lookup (w_table w)"
  let ?n = "e_db_now e (length (w_db w))" and ?upd = "stamped e (updated_at r) w"
  have run: "run_state (upsert_forwarded_request e r) w = (Inr (), ?w')"
    and table: "lookup (w_table ?w') = exec_map ?n (upsert_stmt r ?upd) ?m"
    using assms by (simp_all add: upsert_quiet lookup_applied)
  obtain y where y: "stmt_row ?n (upsert_stmt r ?upd) (?m (request_id r)) = Some y"
    by (cases "?m (request_id r)") (simp_all add: upsert_stmt_def)
  then have row: "lookup (w_table ?w') = ?m(request_id r \<mapsto> y)"
    using table by (simp add: exec_map_def)
  show ?thesis
    using run row y
    by (intro exI [of _ ?w'] exI [of _ y])
      (cases "?m (request_id r)"; auto simp: upsert_stmt_def new_row_def merge_row_def stamped_def terminal_def
        opt_string_def opt_time_def)
qed

theorem upsert_writes_one_row_witness:
  "\<exists>w' y. run_state (upsert_forwarded_request (demo_env refused) demo_request) (demo_world [demo_row]) = (Inr (), w') \<and>
    lookup (w_table w') = (lookup [demo_row])(''r1'' \<mapsto> y) \<and> c_created y = c_created demo_row \<and>
    c_updated y = updated_at demo_request"
  using upsert_writes_one_row [of "demo_env refused" demo_request "demo_world [demo_row]"]
  by (auto simp: demo_request_def demo_world_def lookup_def demo_row_def)

text \<open>A redelivered write is idempotent: the same upsert a second time leaves the table as
  the first one did.\<close>

lemma merge_row_idem: "merge_row ext st p err upd (merge_row ext st p err upd r) = merge_row ext st p err upd r"
  by (simp add: merge_row_def)

lemma merge_new_row: "merge_row ext st p err upd (new_row n rid ext st p err upd) = new_row n rid ext st p err upd"
  by (simp add: merge_row_def new_row_def)

lemma update_where_absent: "lookup t rid = None \<Longrightarrow> update_where (\<lambda>r. c_id r = rid) f t = t"
  by (induction t) (auto simp: lookup_Cons update_where_def split: if_splits)

lemma update_where_idem:
  "(\<And>r. c_id (f r) = c_id r) \<Longrightarrow> (\<And>r. f (f r) = f r) \<Longrightarrow>
   update_where (\<lambda>r. c_id r = rid) f (update_where (\<lambda>r. c_id r = rid) f t) = update_where (\<lambda>r. c_id r = rid) f t"
  by (simp add: update_where_def)

lemma exec_upsert_idem:
  "fst (exec_stmt m (Upsert rid ext st p err upd) (fst (exec_stmt n (Upsert rid ext st p err upd) t))) =
   fst (exec_stmt n (Upsert rid ext st p err upd) t)"
proof (cases "lookup t rid")
  case None
  then have "lookup (t @ [new_row n rid ext st p err upd]) rid \<noteq> None"
    by (simp add: lookup_append lookup_Cons)
  with None show ?thesis
    using update_where_absent [OF None] by (auto simp: update_where_def merge_new_row)
next
  case (Some r)
  then show ?thesis by (auto simp: lookup_update_id update_where_idem merge_row_idem)
qed

lemma upsert_redelivery_idempotent:
  assumes "quiet e" and "request_id r \<noteq> []" and "updated_at r \<noteq> 0"
    and "w' = snd (run_state (upsert_forwarded_request e r) w)"
  shows "w_table (snd (run_state (upsert_forwarded_request e r) w')) = w_table w'"
  using assms by (simp add: upsert_quiet stamped_def applied_def upsert_stmt_def exec_upsert_idem del: exec_stmt.simps)

lemma demo_request_simps [simp]: "request_id demo_request = ''r1''" "updated_at demo_request = 7"
  by (simp_all add: demo_request_def)

text \<open>A successful poll is visible to the next read: the row has the new external id (when
  one was given), the new status unless a terminal one was reached, and no error text.\<close>

lemma get_quiet [run_simps]:
  "quiet e \<Longrightarrow> run_state (get_forwarded_request e rid) w =
     ((case lookup (w_table w) rid of None \<Rightarrow> Inl ErrNotFound | Some r \<Rightarrow> Inr (scan_row (e_null_time e) r)),
      w\<lparr>w_db := w_db w @ [CallQuery]\<rparr>)"
  by (simp add: get_forwarded_request_def run_simps split: option.splits)

lemma poll_then_read:
  assumes "quiet e" and "rid \<noteq> []" and "lookup (w_table w) rid = Some x"
  shows "\<exists>w' f. run_state (mark_polled e rid ext st t) w = (Inr (), w') \<and>
    fst (run_state (get_forwarded_request e rid) w') = Inr f \<and>
    request_id f = rid \<and> error_text f = [] \<and>
    status f = (if terminal (c_status x) then c_status x else st) \<and>
    external_id f = (if ext = [] then or_else (c_ext x) [] else ext)"
proof -
  let ?w' = "snd (run_state (mark_polled e rid ext st t) w)"
  from store.poll_row [of e rid w x ext st t] assms
  obtain y where y: "lookup (w_table ?w') rid = Some y" "poll_recorded ext st x y" by auto
  moreover have "run_state (mark_polled e rid ext st t) w = (Inr (), ?w')"
    using store.poll_accepts [OF assms(1,2), of ext st t w] by (metis prod.collapse)
  moreover have "fst (run_state (get_forwarded_request e rid) ?w') = Inr (scan_row (e_null_time e) y)"
    using y(1) assms(1) by (simp add: get_quiet)
  ultimately show ?thesis
    using lookup_id [OF y(1)]
    by (intro exI [of _ ?w'] exI [of _ "scan_row (e_null_time e) y"])
      (auto simp: scan_row_def poll_recorded_def guard_status_def)
qed

text \<open>C38: \<open>ListNonTerminal\<close> returns open rows only, least recently polled first with ties broken
  by request id, at most \<open>limit\<close> of them, and omits an open row only in favour of rows that come
  before it; the result does not depend on the order of the rows in the table.\<close>

lemma list_non_terminal_quiet:
  "quiet e \<Longrightarrow> run_state (list_non_terminal e limit) w =
     (Inr (map (scan_row (e_null_time e))
        (select_non_terminal (e_null_time e) (e_collate e) (nat (if limit \<le> 0 then 100 else limit)) (w_table w))),
      w\<lparr>w_db := w_db w @ [CallQuery]\<rparr>)"
  by (simp add: list_non_terminal_def run_simps)

theorem list_non_terminal_spec:
  fixes w :: "'z world_scheme"
  assumes "quiet e" and "wf_table (w_table w)" and "inj (e_collate e)" and "0 < limit"
  shows "\<exists>rows. fst (run_state (list_non_terminal e limit) w) = Inr (map (scan_row (e_null_time e)) rows) \<and>
    distinct (map c_id rows) \<and> length rows = min (nat limit) (length (open_rows (w_table w))) \<and>
    (\<forall>r \<in> set rows. r \<in> set (open_rows (w_table w))) \<and>
    sorted (map (row_key (e_null_time e) (e_collate e)) rows) \<and>
    (\<forall>r \<in> set rows. \<forall>s \<in> set (open_rows (w_table w)) - set rows.
        row_key (e_null_time e) (e_collate e) r \<le> row_key (e_null_time e) (e_collate e) s) \<and>
    (\<forall>u :: 'z world_scheme. mset (w_table u) = mset (w_table w) \<longrightarrow>
        fst (run_state (list_non_terminal e limit) u) = fst (run_state (list_non_terminal e limit) w))"
proof -
  let ?rows = "select_non_terminal (e_null_time e) (e_collate e) (nat limit) (w_table w)"
  have d: "distinct (map c_id (w_table w))" using assms(2) by (simp add: wf_table_def)
  show ?thesis
  proof (intro exI [of _ ?rows] conjI)
    show "fst (run_state (list_non_terminal e limit) w) = Inr (map (scan_row (e_null_time e)) ?rows)"
      using assms by (simp add: list_non_terminal_quiet)
    show "distinct (map c_id ?rows)" using d by (rule distinct_select_non_terminal)
    show "length ?rows = min (nat limit) (length (open_rows (w_table w)))"
      by (rule length_select_non_terminal)
    show "\<forall>r \<in> set ?rows. r \<in> set (open_rows (w_table w))"
      by (auto simp: open_rows_def dest: set_select_non_terminal)
    show "sorted (map (row_key (e_null_time e) (e_collate e)) ?rows)" by (rule sorted_select_non_terminal)
    show "\<forall>r \<in> set ?rows. \<forall>s \<in> set (open_rows (w_table w)) - set ?rows.
        row_key (e_null_time e) (e_collate e) r \<le> row_key (e_null_time e) (e_collate e) s"
      by (blast intro: select_non_terminal_least)
    show "\<forall>u :: 'z world_scheme. mset (w_table u) = mset (w_table w) \<longrightarrow>
        fst (run_state (list_non_terminal e limit) u) = fst (run_state (list_non_terminal e limit) w)"
    proof (intro allI impI)
      fix u :: "'z world_scheme" assume "mset (w_table u) = mset (w_table w)"
      from select_non_terminal_perm [OF this [symmetric] d assms(3)]
      show "fst (run_state (list_non_terminal e limit) u) = fst (run_state (list_non_terminal e limit) w)"
        using assms(1) by (simp add: list_non_terminal_quiet)
    qed
  qed
qed

theorem list_non_terminal_spec_witness:
  "\<exists>rows. fst (run_state (list_non_terminal (demo_env refused) 200) (demo_world [demo_row])) =
      Inr (map (scan_row 0) rows) \<and> length rows = min 200 (length (open_rows [demo_row]))"
proof -
  have "inj (e_collate (demo_env refused))" "e_null_time (demo_env refused) = 0"
    by (simp_all add: demo_env_def inj_def)
  then show ?thesis
    using list_non_terminal_spec [of "demo_env refused" "demo_world [demo_row]" 200]
    by (auto simp: demo_world_def)
qed

text \<open>Paging. With a page size the store accepts, the first \<open>k\<close> pages of the admin queue,
  put together, are the first \<open>k\<close> times as many matching rows, newest first: no row is repeated
  or skipped, and the total is the number of matching rows.\<close>

definition page_rows :: "env \<Rightarrow> string \<Rightarrow> string \<Rightarrow> int \<Rightarrow> int \<Rightarrow> 'z world_scheme \<Rightarrow> forwarded_request list" where
  "page_rows e st q limit offset w =
     (case fst (run_state (list_requests e st q limit offset) w) of Inr (rows, _) \<Rightarrow> rows | Inl _ \<Rightarrow> [])"

lemma list_requests_quiet:
  "quiet e \<Longrightarrow> fst (run_state (list_requests e st q limit offset) w) =
     Inr (map (scan_row (e_null_time e))
            (select_page (e_fold e) st q (nat (clamp_limit limit)) (nat (max 0 offset)) (w_table w)),
          count_matching (e_fold e) st q (w_table w))"
  by (simp add: list_requests_def run_simps max_def)

lemma list_requests_pages:
  assumes "quiet e" and "1 \<le> limit" and "limit \<le> 200"
  shows "concat (map (\<lambda>p. page_rows e st q limit (int p * limit) w) [0..<k]) =
      map (scan_row (e_null_time e)) (take (k * nat limit) (newest_first (e_fold e) st q (w_table w))) \<and>
    (\<exists>rows. fst (run_state (list_requests e st q limit offset) w) =
      Inr (rows, length (newest_first (e_fold e) st q (w_table w))))"
proof -
  have nat_mult: "nat (max 0 (int p * limit)) = p * nat limit" for p
    using assms(2) by (simp add: nat_mult_distrib max_def)
  have "page_rows e st q limit (int p * limit) w =
      map (scan_row (e_null_time e)) (take (nat limit) (drop (p * nat limit) (newest_first (e_fold e) st q (w_table w))))" for p
    using assms nat_mult by (simp add: page_rows_def list_requests_quiet select_page_def clamp_limit_def)
  then have "concat (map (\<lambda>p. page_rows e st q limit (int p * limit) w) [0..<k]) =
      map (scan_row (e_null_time e))
        (concat (map (\<lambda>p. take (nat limit) (drop (p * nat limit) (newest_first (e_fold e) st q (w_table w)))) [0..<k]))"
    by (simp add: map_concat o_def)
  with assms show ?thesis
    by (simp add: take_eq_concat_pages list_requests_quiet length_newest_first)
qed

text \<open>The admin retry revives any request that has an external id, terminal or not: it is
  acknowledged again without error text, and it is among the rows of the next work list
  whenever the open rows that were never polled fit into it. Without a row or an external id
  the answer is \<open>ErrNotFound\<close> and the table is unchanged.\<close>

lemma retry_quiet:
  "quiet e \<Longrightarrow> rid \<noteq> [] \<Longrightarrow> wf_table (w_table w) \<Longrightarrow>
   run_state (retry_request e rid) w =
     ((case lookup (w_table w) rid of None \<Rightarrow> Inl ErrNotFound | Some r \<Rightarrow> if has_ext r then Inr () else Inl ErrNotFound),
      applied e (Retry rid) w)"
  by (simp add: retry_request_def db_exec_applied wf_table_def length_filter_id split: option.splits)

lemma selected_never_polled:
  assumes "distinct (map c_id t)" and r: "r \<in> set (open_rows t)" "c_polled r = None"
    and later: "\<And>s p. s \<in> set (open_rows t) \<Longrightarrow> c_polled s = Some p \<Longrightarrow> z < p"
    and few: "length (filter (\<lambda>s. c_polled s = None) (open_rows t)) \<le> n"
  shows "r \<in> set (select_non_terminal z ck n t)"
proof (rule ccontr)
  let ?sel = "select_non_terminal z ck n t"
  assume out: "r \<notin> set ?sel"
  have never: "c_polled s = None" if "s \<in> set ?sel" for s
  proof (rule ccontr)
    assume "c_polled s \<noteq> None"
    then obtain p where p: "c_polled s = Some p" by auto
    from that have "s \<in> set (open_rows t)" by (auto simp: open_rows_def dest: set_select_non_terminal)
    with p later have "z < p" by blast
    moreover have "row_key z ck s \<le> row_key z ck r" using select_non_terminal_least [OF r(1) out that] .
    ultimately show False using p r(2) by (simp add: row_key_def less_eq_poll_key_def)
  qed
  have d: "distinct ?sel" using distinct_select_non_terminal [OF assms(1)] by (simp add: distinct_map)
  have full: "length ?sel = n"
  proof (rule ccontr)
    assume "length ?sel \<noteq> n"
    then have "length (open_rows t) \<le> n" by (simp add: length_select_non_terminal min_def split: if_splits)
    then show False using out r(1) by (simp add: select_non_terminal_def)
  qed
  have "insert r (set ?sel) \<subseteq> set (filter (\<lambda>s. c_polled s = None) (open_rows t))"
    using never r by (auto simp: open_rows_def dest: set_select_non_terminal)
  then have "card (insert r (set ?sel)) \<le> length (filter (\<lambda>s. c_polled s = None) (open_rows t))"
    by (meson List.finite_set card_length card_mono le_trans)
  with few out d full show False by (simp add: distinct_card)
qed

lemma retry_revives:
  assumes "quiet e" and "wf_table (w_table w)" and r: "lookup (w_table w) rid = Some r" "has_ext r"
  shows "\<exists>w' y. run_state (retry_request e rid) w = (Inr (), w') \<and>
    lookup (w_table w') = (lookup (w_table w))(rid \<mapsto> y) \<and>
    c_status y = ''acknowledged'' \<and> c_err y = None \<and> c_ext y = c_ext r \<and>
    ((\<forall>s \<in> set (w_table w'). \<forall>p. c_polled s = Some p \<longrightarrow> e_null_time e < p) \<and>
     length (filter (\<lambda>s. c_polled s = None) (open_rows (w_table w'))) \<le> 200 \<longrightarrow>
     (\<exists>rows. fst (run_state (list_non_terminal e 200) w') = Inr rows \<and> rid \<in> request_id ` set rows))"
proof -
  let ?w' = "applied e (Retry rid) w" and ?y = "retried_row (e_db_now e (length (w_db w))) r"
  have "rid \<noteq> []" using assms(2) lookup_in [OF r(1)] lookup_id [OF r(1)] by (auto simp: wf_table_def wf_row_def list_all_iff)
  then have run: "run_state (retry_request e rid) w = (Inr (), ?w')"
    using retry_quiet [OF assms(1) _ assms(2), of rid] r by simp
  have row: "lookup (w_table ?w') = (lookup (w_table w))(rid \<mapsto> ?y)"
    using r by (simp add: lookup_applied exec_map_def)
  have wf: "wf_table (w_table ?w')"
    using assms \<open>rid \<noteq> []\<close> by (simp add: applied_def wf_table_exec del: exec_stmt.simps)
  have mem: "?y \<in> set (w_table ?w')" by (rule lookup_in [of _ rid]) (simp add: row)
  have "\<exists>rows. fst (run_state (list_non_terminal e 200) ?w') = Inr rows \<and> rid \<in> request_id ` set rows"
    if "\<forall>s \<in> set (w_table ?w'). \<forall>p. c_polled s = Some p \<longrightarrow> e_null_time e < p"
      "length (filter (\<lambda>s. c_polled s = None) (open_rows (w_table ?w'))) \<le> 200"
  proof -
    have "?y \<in> set (select_non_terminal (e_null_time e) (e_collate e) 200 (w_table ?w'))"
      using that mem wf
      by (intro selected_never_polled)
        (auto simp: wf_table_def open_rows_def retried_row_def terminal_def)
    moreover have "request_id (scan_row (e_null_time e) ?y) = rid"
      using lookup_id [OF r(1)] by (simp add: scan_row_def)
    ultimately show ?thesis using assms(1) by (force simp: list_non_terminal_quiet)
  qed
  with run row show ?thesis
    by (intro exI [of _ ?w'] exI [of _ ?y]) (simp add: retried_row_def)
qed

lemma mark_failed_quiet:
  "quiet e \<Longrightarrow> rid \<noteq> [] \<Longrightarrow> wf_table (w_table w) \<Longrightarrow>
   run_state (mark_failed_manually e rid reason) w =
     ((if lookup (w_table w) rid = None then Inl ErrNotFound else Inr ()),
      applied e (MarkFailed rid (if reason = [] then ''marked failed by admin'' else reason)) w)"
  using length_filter_id [of "w_table w" rid "\<lambda>_. True"]
  by (simp add: mark_failed_manually_def db_exec_applied wf_table_def split: option.splits)

text \<open>C39: what the admin actions do, and what they report. Retry answers \<open>ErrNotFound\<close> exactly when
  the request has no row or no external id, and then changes nothing; otherwise, whatever the status
  of the row, terminal or not, it leaves it acknowledged, without error and poll time and updated at
  the database's time, with its external id and creation time. Marking a request failed answers
  \<open>ErrNotFound\<close> exactly when it has no row, and otherwise leaves it failed with the reason (or the
  default reason), whatever its status was. Neither touches another row.\<close>

theorem admin_actions_outcome:
  assumes "quiet e" and "rid \<noteq> []" and "wf_table (w_table w)"
  shows "(fst (run_state (retry_request e rid) w) = Inl ErrNotFound \<longleftrightarrow>
      (\<forall>r. lookup (w_table w) rid = Some r \<longrightarrow> \<not> has_ext r)) \<and>
    (fst (run_state (retry_request e rid) w) = Inl ErrNotFound \<longrightarrow>
      lookup (w_table (snd (run_state (retry_request e rid) w))) = lookup (w_table w)) \<and>
    (\<forall>r. lookup (w_table w) rid = Some r \<and> has_ext r \<longrightarrow>
      fst (run_state (retry_request e rid) w) = Inr () \<and>
      lookup (w_table (snd (run_state (retry_request e rid) w))) = (lookup (w_table w))(rid \<mapsto>
        \<lparr>c_id = c_id r, c_ext = c_ext r, c_status = ''acknowledged'', c_polled = None, c_err = None,
         c_created = c_created r, c_updated = e_db_now e (length (w_db w))\<rparr>)) \<and>
    (fst (run_state (mark_failed_manually e rid reason) w) = Inl ErrNotFound \<longleftrightarrow> lookup (w_table w) rid = None) \<and>
    (\<forall>r. lookup (w_table w) rid = Some r \<longrightarrow>
      fst (run_state (mark_failed_manually e rid reason) w) = Inr () \<and>
      lookup (w_table (snd (run_state (mark_failed_manually e rid reason) w))) = (lookup (w_table w))(rid \<mapsto>
        \<lparr>c_id = c_id r, c_ext = c_ext r, c_status = ''failed'', c_polled = c_polled r,
         c_err = Some (if reason = [] then ''marked failed by admin'' else reason),
         c_created = c_created r, c_updated = e_db_now e (length (w_db w))\<rparr>)) \<and>
    (lookup (w_table w) rid = None \<longrightarrow>
      lookup (w_table (snd (run_state (mark_failed_manually e rid reason) w))) = lookup (w_table w))"
  using retry_quiet [OF assms] mark_failed_quiet [OF assms, of reason]
  by (cases "lookup (w_table w) rid")
    (simp_all add: lookup_applied exec_map_def fun_eq_iff failed_row_def retried_row_def)

theorem admin_actions_outcome_witness:
  "fst (run_state (mark_failed_manually (demo_env refused) ''r9'' []) (demo_world [demo_row])) = Inl ErrNotFound \<and>
   fst (run_state (retry_request (demo_env refused) ''r1'') (demo_world [demo_row])) = Inr () \<and>
   lookup (w_table (snd (run_state (retry_request (demo_env refused) ''r1'') (demo_world [demo_row])))) ''r1'' =
     Some \<lparr>c_id = ''r1'', c_ext = Some ''job1'', c_status = ''acknowledged'', c_polled = None, c_err = None,
       c_created = 1, c_updated = e_db_now (demo_env refused) 0\<rparr>"
  using admin_actions_outcome [of "demo_env refused" "''r9''" "demo_world [demo_row]" "[]"]
    admin_actions_outcome [of "demo_env refused" "''r1''" "demo_world [demo_row]" "[]"]
  by (simp add: lookup_Cons has_ext_def)

text \<open>The statistics partition the table: every row is active, failed or imported, the
  active rows are those of the reconciler's work list when it has room for them, and the rows
  without an external id that count as unsubmitted are active.\<close>

lemma stats_partition:
  assumes "quiet e"
  shows "\<exists>s. fst (run_state (request_stats_of e) w) = Inr s \<and>
    total s = length (w_table w) \<and> total s = active s + failed s + imported s \<and>
    unsubmitted s \<le> active s \<and> with_errors s \<le> total s \<and>
    (\<exists>rows. fst (run_state (list_non_terminal e (int (active s) + 1)) w) = Inr rows \<and> length rows = active s)"
proof -
  have "active (select_stats (w_table w)) = length (open_rows (w_table w))"
    by (simp add: select_stats_def count_where_def open_rows_def)
  then show ?thesis
    using assms select_stats_total [of "w_table w"] select_stats_bounds [of "w_table w"]
    by (simp add: request_stats_of_def run_simps list_non_terminal_quiet length_select_non_terminal
        select_stats_def [THEN arg_cong [of _ _ total]])
qed

text \<open>C40: a result set that breaks off is returned as if it were complete. When the database
  delivers only the first \<open>n\<close> rows and then fails, the query itself says so (its second component is
  the error \<open>rows.Err()\<close> would return), but \<open>ListNonTerminal\<close>, \<open>ListStuck\<close> and \<open>ListRequests\<close> return
  those rows and no error, so the caller cannot tell a short list from a broken one.\<close>

theorem broken_result_set_is_silent:
  fixes q :: "table \<Rightarrow> 'r list"
  assumes "e_db e (length (w_db w)) = DbCut n m" and "e_others e (length (w_db w)) = []"
    and "0 < limit" and "limit \<le> 200"
    and "length (w_db w) = Suc (length (w_db v))" and "w_table v = w_table w"
    and "e_db e (length (w_db v)) = DbOk" and "e_others e (length (w_db v)) = []"
  shows "fst (run_state (db_query e q) w) = Inr (take n (q (w_table w)), Some (Err m)) \<and>
    fst (run_state (list_non_terminal e limit) w) =
      Inr (map (scan_row (e_null_time e)) (take n (select_non_terminal (e_null_time e) (e_collate e) (nat limit) (w_table w)))) \<and>
    fst (run_state (list_stuck e threshold limit) w) =
      Inr (map (scan_row (e_null_time e)) (take n (select_stuck (e_clock e (w_clock w) - threshold) (nat limit) (w_table w)))) \<and>
    fst (run_state (list_requests e st search limit offset) v) =
      Inr (map (scan_row (e_null_time e)) (take n (select_page (e_fold e) st search (nat limit) (nat (max 0 offset)) (w_table w))),
        count_matching (e_fold e) st search (w_table w))"
proof (intro conjI)
  show "fst (run_state (db_query e q) w) = Inr (take n (q (w_table w)), Some (Err m))"
    using assms by (simp add: db_query_def Let_def)
  show "fst (run_state (list_non_terminal e limit) w) =
      Inr (map (scan_row (e_null_time e)) (take n (select_non_terminal (e_null_time e) (e_collate e) (nat limit) (w_table w))))"
    using assms by (simp add: list_non_terminal_def db_query_def Let_def take_map)
  show "fst (run_state (list_stuck e threshold limit) w) =
      Inr (map (scan_row (e_null_time e)) (take n (select_stuck (e_clock e (w_clock w) - threshold) (nat limit) (w_table w))))"
    using assms by (simp add: list_stuck_def db_query_def Let_def clamp_limit_def now_run take_map)
  show "fst (run_state (list_requests e st search limit offset) v) =
      Inr (map (scan_row (e_null_time e)) (take n (select_page (e_fold e) st search (nat limit) (nat (max 0 offset)) (w_table w))),
        count_matching (e_fold e) st search (w_table w))"
    using assms
    by (auto simp: list_requests_def db_query_def db_query_row_def Let_def clamp_limit_def take_map max_def)
qed

theorem broken_result_set_is_silent_witness:
  "let e = (demo_env refused)\<lparr>e_db := \<lambda>k. if k = 0 then DbOk else DbCut 0 ''connection reset''\<rparr>
   in fst (run_state (list_non_terminal e 200) ((demo_world [demo_row])\<lparr>w_db := [CallQuery]\<rparr>)) = Inr [] \<and>
      fst (run_state (list_requests e [] [] 50 0) (demo_world [demo_row])) = Inr ([], 1)"
proof -
  let ?e = "(demo_env refused)\<lparr>e_db := \<lambda>k. if k = 0 then DbOk else DbCut 0 ''connection reset''\<rparr>"
  have "count_matching (e_fold ?e) [] [] [demo_row] = 1" by (simp add: count_matching_def matches_def)
  then show ?thesis
    using broken_result_set_is_silent [of ?e "(demo_world [demo_row])\<lparr>w_db := [CallQuery]\<rparr>" 0 "''connection reset''" 200
        "demo_world [demo_row]" "\<lambda>t. t" 0 "[]" "[]" 0]
      broken_result_set_is_silent [of ?e "(demo_world [demo_row])\<lparr>w_db := [CallQuery]\<rparr>" 0 "''connection reset''" 50
        "demo_world [demo_row]" "\<lambda>t. t" 0 "[]" "[]" 0]
    by (simp add: demo_world_def Let_def)
qed

lemma own_statements:
  "lookup (run_stmts ss t) rid = lookup (run_stmts (filter (\<lambda>(n, s). stmt_id s = rid) ss) t) rid"
proof -
  have "lookup (run_stmts (filter (\<lambda>(n, s). stmt_id s = rid) ss) u) rid = lookup (run_stmts ss t) rid"
    if "lookup u rid = lookup t rid" for u
    using that
  proof (induction ss arbitrary: t u)
    case (Cons a ss)
    obtain n s where a: "a = (n, s)" by (cases a)
    show ?case
    proof (cases "stmt_id s = rid")
      case True
      then have "lookup (fst (exec_stmt n s u)) rid = lookup (fst (exec_stmt n s t)) rid"
        using Cons.prems by (simp add: lookup_exec exec_map_def)
      with Cons.IH True show ?thesis by (simp add: a)
    next
      case False
      then have "lookup u rid = lookup (fst (exec_stmt n s t)) rid" using Cons.prems by (simp add: lookup_exec)
      with Cons.IH False show ?thesis by (simp add: a)
    qed
  qed simp
  then show ?thesis by simp
qed

text \<open>C25: requests do not affect each other. Two schedules of statements that run the same
  statements at the same times for every single request, in any interleaving, leave the same row
  under every id: what happens to one request is what its own statements make of its own row.\<close>

theorem interleavings_agree:
  assumes "\<And>rid. filter (\<lambda>(n, s). stmt_id s = rid) ss = filter (\<lambda>(n, s). stmt_id s = rid) ss'"
  shows "lookup (run_stmts ss t) = lookup (run_stmts ss' t)"
proof
  fix rid show "lookup (run_stmts ss t) rid = lookup (run_stmts ss' t) rid"
    by (subst (1 2) own_statements) (simp add: assms)
qed

theorem interleavings_agree_witness:
  "lookup (run_stmts [(1, Retry ''a''), (2, MarkFailed ''b'' ''x''), (3, MarkFailed ''a'' ''y'')] [demo_row\<lparr>c_id := ''a''\<rparr>, demo_row\<lparr>c_id := ''b''\<rparr>]) =
   lookup (run_stmts [(2, MarkFailed ''b'' ''x''), (1, Retry ''a''), (3, MarkFailed ''a'' ''y'')] [demo_row\<lparr>c_id := ''a''\<rparr>, demo_row\<lparr>c_id := ''b''\<rparr>])"
  by (rule interleavings_agree) auto

end
