(* ===== verification/Event_Publisher.thy ===== *)
theory Event_Publisher
  imports Request_Store
begin

text \<open>
  \<open>internal/event/publisher.go\<close>, and what any environment lets the store's upsert do: the facts
  about one write that hold under failures and interleavings, for the handlers built on it.
\<close>

section \<open>Publishing\<close>

text \<open>A publisher knows whether the host is bound. An error of the host is logged and dropped, so
  a published event is a call to the host, delivered or not.\<close>

record publisher = pub_host :: bool

definition publish_event :: "publisher \<Rightarrow> string \<Rightarrow> payload \<Rightarrow> ('z, unit) io" where
  "publish_event p name pl = (if pub_host p then emit name pl else State_Monad.return ())"

lemma on_table_publish_event [effect_intros]: "effect_of (on_table P) (publish_event p name pl)"
  unfolding publish_event_def by (intro table_effect.effect_rules effect_intros)

lemma publish_event_run [run_simps]:
  "run_state (publish_event p name pl) w =
     ((), if pub_host p then w\<lparr>w_events := w_events w @ [(name, pl)]\<rparr> else w)"
  by (simp add: publish_event_def run_simps)

section \<open>A write in any environment\<close>

text \<open>The call number \<open>k\<close> failed, or its answer was lost.\<close>

definition db_failed :: "env \<Rightarrow> nat \<Rightarrow> bool" where
  "db_failed e k \<longleftrightarrow> (case e_db e k of DbFail _ \<Rightarrow> True | DbLost _ \<Rightarrow> True | _ \<Rightarrow> False)"

lemma db_failed_quiet [simp]: "quiet e \<Longrightarrow> \<not> db_failed e k"
  by (simp add: quiet_def db_failed_def)

lemma db_exec_any:
  assumes "run_state (db_exec e s) w = (res, w')"
  shows "w_http w' = w_http w" "w_events w' = w_events w" "w_db w' = w_db w @ [CallExec s]"
    "world.more w' = world.more w" "w_clock w' = w_clock w"
    "(\<exists>err. res = Inl err) \<longleftrightarrow> db_failed e (length (w_db w))"
    "\<not> db_failed e (length (w_db w)) \<Longrightarrow>
       w_table w' = fst (exec_stmt (e_db_now e (length (w_db w))) s (run_stmts (e_others e (length (w_db w))) (w_table w)))"
  using assms
  by (auto simp: db_exec_def Let_def db_failed_def split: db_outcome.splits prod.splits)

lemma db_exec_rows_kept: "run_state (db_exec e s) w = (res, w') \<Longrightarrow> rows_kept (w_table w) (w_table w')"
proof -
  assume "run_state (db_exec e s) w = (res, w')"
  moreover have "effect_of (on_table (\<lambda>_. True)) (db_exec e s)"
    by (rule on_table_db_exec) (simp_all add: others_do_def)
  ultimately show ?thesis
    by (auto dest!: effect_ofD simp: on_table_def intro: table_path_rows_kept)
qed

lemma rows_kept_on_table: "effect_of (on_table P) m \<Longrightarrow> run_state m w = (a, w') \<Longrightarrow> rows_kept (w_table w) (w_table w')"
  by (auto dest!: effect_ofD simp: on_table_def intro: table_path_rows_kept)

lemma stmt_row_upsert: "stmt_row n (upsert_stmt r upd) x \<noteq> None"
  by (cases x) (simp_all add: upsert_stmt_def)

lemma upsert_any:
  assumes run: "run_state (upsert_forwarded_request e r) w = (res, w')" and rid: "request_id r \<noteq> []"
  shows "w_http w' = w_http w" "w_events w' = w_events w" "length (w_db w') = Suc (length (w_db w))"
    "world.more w' = world.more w"
    "(\<exists>err. res = Inl err) \<longleftrightarrow> db_failed e (length (w_db w))"
    "res = Inr () \<Longrightarrow> lookup (w_table w') (request_id r) \<noteq> None"
    "rows_kept (w_table w) (w_table w')"
proof -
  let ?s = "upsert_stmt r (stamped e (updated_at r) w)"
  let ?w0 = "w\<lparr>w_clock := w_clock w + (if updated_at r = 0 then 1 else 0)\<rparr>"
  obtain x where ex: "run_state (db_exec e ?s) ?w0 = (x, w')"
    and res: "res = (case x of Inl err \<Rightarrow> Inl (Wrapf ''upsert forwarded_request: '' err []) | Inr _ \<Rightarrow> Inr ())"
    using run rid by (auto simp: upsert_forwarded_request_def stamp_run split: prod.splits)
  note any = db_exec_any [OF ex]
  show "w_http w' = w_http w" "w_events w' = w_events w" "length (w_db w') = Suc (length (w_db w))"
    "world.more w' = world.more w"
    using any by simp_all
  show err: "(\<exists>err. res = Inl err) \<longleftrightarrow> db_failed e (length (w_db w))"
    using any(6) res by (cases x) auto
  show "rows_kept (w_table w) (w_table w')" using db_exec_rows_kept [OF ex] by simp
  show "lookup (w_table w') (request_id r) \<noteq> None" if "res = Inr ()"
  proof -
    from that err have "\<not> db_failed e (length (w_db ?w0))" by auto
    from any(7) [OF this] show ?thesis
      using stmt_row_upsert by (simp add: lookup_exec exec_map_def)
  qed
qed

end
