(* ===== verification/Go_Url.thy ===== *)
theory Go_Url
  imports Go_Std
begin

text \<open>
  Package \<open>net/url\<close> as far as the plugin uses it: parsing a URL into its scheme, host, path and
  query, printing one that consists of a path and a query, and reading a query string. The
  contents of a bracketed host are judged by \<open>netip.ParseAddr\<close>, which is the parameter \<open>ip6\<close>.
\<close>

section \<open>Cutting strings\<close>

text \<open>\<open>strings.Cut(s, string(c))\<close>: what is before and after the first \<open>c\<close>.\<close>

definition before :: "char \<Rightarrow> string \<Rightarrow> string" where
  "before c s = takeWhile (\<lambda>x. x \<noteq> c) s"

definition after :: "char \<Rightarrow> string \<Rightarrow> string" where
  "after c s = drop (Suc (length (before c s))) s"

section \<open>Parsing\<close>

text \<open>\<open>getScheme\<close>: \<open>None\<close> is the error of a URL that starts with a colon.\<close>

definition is_alpha :: "char \<Rightarrow> bool" where
  "is_alpha c \<longleftrightarrow> (CHR ''a'' \<le> c \<and> c \<le> CHR ''z'') \<or> (CHR ''A'' \<le> c \<and> c \<le> CHR ''Z'')"

definition scheme_char :: "char \<Rightarrow> bool" where
  "scheme_char c \<longleftrightarrow> is_alpha c \<or> is_digit c \<or> c \<in> set ''+-.''"

definition get_scheme :: "string \<Rightarrow> (string \<times> string) option" where
  "get_scheme s =
     (let sc = takeWhile scheme_char s; r = drop (length sc) s
      in if sc = [] then (if has_prefix s '':'' then None else Some ([], s))
         else if is_alpha (hd sc) \<and> has_prefix r '':'' then Some (sc, tl r)
         else Some ([], s))"

text \<open>The modes of \<open>unescape\<close> and \<open>shouldEscape\<close> for hosts; \<open>path_unescape\<close> serves the others.\<close>

definition host_plain :: "char \<Rightarrow> bool" where
  "host_plain c \<longleftrightarrow> is_alnum c \<or> c \<in> set ''!$&()*+,;=:[]<>-_.~'' \<or> c = CHR 0x22 \<or> c = CHR 0x27"

fun host_unescape :: "bool \<Rightarrow> string \<Rightarrow> string option" where
  "host_unescape zone [] = Some []"
| "host_unescape zone (c # cs) =
     (if c = CHR ''%'' then
        (case cs of
           x # y # rest \<Rightarrow>
             (case (hex_val x, hex_val y) of
                (Some h, Some l) \<Rightarrow>
                  if \<not> zone \<and> h < 8 \<and> [x, y] \<noteq> ''25'' then None
                  else if zone \<and> [x, y] \<noteq> ''25'' \<and> 16 * h + l \<noteq> 32 \<and> \<not> host_plain (char_of (16 * h + l)) then None
                  else map_option (Cons (char_of (16 * h + l))) (host_unescape zone rest)
              | _ \<Rightarrow> None)
         | _ \<Rightarrow> None)
      else if c < CHR 0x80 \<and> \<not> host_plain c then None
      else map_option (Cons c) (host_unescape zone cs))"

definition valid_optional_port :: "string \<Rightarrow> bool" where
  "valid_optional_port s \<longleftrightarrow> s = [] \<or> (hd s = CHR '':'' \<and> list_all is_digit (tl s))"

text \<open>The last occurrence of a character: what is before it and from it on.\<close>

definition split_last :: "char \<Rightarrow> string \<Rightarrow> string \<times> string" where
  "split_last c s = (let n = length (takeWhile (\<lambda>x. x \<noteq> c) (rev s)) in (take (length s - Suc n) s, drop (length s - Suc n) s))"

text \<open>The prefix before the first \<open>%25\<close>, if there is one.\<close>

fun before_zone :: "string \<Rightarrow> string option" where
  "before_zone [] = None"
| "before_zone (c # cs) = (if has_prefix (c # cs) ''%25'' then Some [] else map_option (Cons c) (before_zone cs))"

definition parse_host :: "(string \<Rightarrow> bool) \<Rightarrow> string \<Rightarrow> string option" where
  "parse_host ip6 h =
     (if CHR ''['' \<in> set h then
        (if hd h \<noteq> CHR ''['' \<or> CHR ''['' \<in> set (tl h) \<or> CHR '']'' \<notin> set h then None
         else
           (let (lit, close) = split_last (CHR '']'') h; port = tl close; name = tl lit
            in if \<not> valid_optional_port port then None
               else
                 (case (case before_zone name of
                          Some z \<Rightarrow>
                            (case (host_unescape False z, host_unescape True (drop (length z) name)) of
                               (Some a, Some b) \<Rightarrow> Some (a @ b)
                             | _ \<Rightarrow> None)
                        | None \<Rightarrow> host_unescape False name) of
                    None \<Rightarrow> None
                  | Some n \<Rightarrow> if ip6 n then Some (''['' @ n @ '']'' @ port) else None)))
      else if CHR '':'' \<in> set h \<and> \<not> valid_optional_port (drop (length (before (CHR '':'') h)) h) then None
      else host_unescape False h)"

definition valid_userinfo :: "string \<Rightarrow> bool" where
  "valid_userinfo s \<longleftrightarrow> list_all (\<lambda>c. is_alnum c \<or> c \<in> set ''-._:~!$&()*+,;=%@'' \<or> c = CHR 0x27) s"

definition parse_authority :: "(string \<Rightarrow> bool) \<Rightarrow> string \<Rightarrow> string option" where
  "parse_authority ip6 a =
     (if CHR ''@'' \<in> set a then
        (let (user, h) = split_last (CHR ''@'') a
         in case parse_host ip6 (tl h) of
              None \<Rightarrow> None
            | Some host \<Rightarrow> if valid_userinfo user \<and> path_unescape user \<noteq> None then Some host else None)
      else parse_host ip6 a)"

text \<open>
  A parsed URL; \<open>u_path\<close> is \<open>Path\<close>, unescaped. \<open>parse_rest\<close> is \<open>parse\<close> after the scheme.
\<close>

record url =
  u_scheme :: string
  u_host :: string
  u_path :: string
  u_query :: string

definition parse_rest :: "(string \<Rightarrow> bool) \<Rightarrow> string \<Rightarrow> string \<Rightarrow> url option" where
  "parse_rest ip6 sch s =
     (let rest = before (CHR ''?'') s; q = after (CHR ''?'') s
      in if \<not> has_prefix rest ''/'' \<and> sch \<noteq> [] then
           Some \<lparr>u_scheme = to_lower sch, u_host = [], u_path = [], u_query = q\<rparr>
         else if \<not> has_prefix rest ''/'' \<and> CHR '':'' \<in> set (before (CHR ''/'') rest) then None
         else if has_prefix rest ''//'' \<and> (sch \<noteq> [] \<or> \<not> has_prefix rest ''///'') then
           (let au = before (CHR ''/'') (drop 2 rest)
            in case (parse_authority ip6 au, path_unescape (drop (length au) (drop 2 rest))) of
                 (Some h, Some p) \<Rightarrow> Some \<lparr>u_scheme = to_lower sch, u_host = h, u_path = p, u_query = q\<rparr>
               | _ \<Rightarrow> None)
         else map_option (\<lambda>p. \<lparr>u_scheme = to_lower sch, u_host = [], u_path = p, u_query = q\<rparr>) (path_unescape rest))"

definition has_control :: "string \<Rightarrow> bool" where
  "has_control s \<longleftrightarrow> list_ex (\<lambda>c. c < CHR '' '' \<or> c = CHR 0x7F) s"

text \<open>\<open>url.Parse\<close>; the fragment is only checked.\<close>

definition parse_url :: "(string \<Rightarrow> bool) \<Rightarrow> string \<Rightarrow> url option" where
  "parse_url ip6 raw =
     (let s = before (CHR ''#'') raw
      in if has_control s \<or> path_unescape (after (CHR ''#'') raw) = None then None
         else if s = ''*'' then Some \<lparr>u_scheme = [], u_host = [], u_path = ''*'', u_query = []\<rparr>
         else (case get_scheme s of None \<Rightarrow> None | Some (sch, rest) \<Rightarrow> parse_rest ip6 sch rest))"

section \<open>Printing a path and a query\<close>

text \<open>\<open>escape\<close> in the mode \<open>encodePath\<close>.\<close>

definition in_path_plain :: "char \<Rightarrow> bool" where
  "in_path_plain c \<longleftrightarrow> is_alnum c \<or> c \<in> set ''-_.~$&+,/:;=@''"

definition escaped_path :: "string \<Rightarrow> string" where
  "escaped_path p =
     (if p = ''*'' then ''*'' else concat (map (\<lambda>c. if in_path_plain c then [c] else percent c) p))"

text \<open>\<open>URL.String\<close> and \<open>URL.RequestURI\<close> of a URL with no scheme, host, user and fragment.\<close>

definition url_string :: "string \<Rightarrow> string \<Rightarrow> string" where
  "url_string p q =
     (let ep = escaped_path p
      in (if CHR '':'' \<in> set (before (CHR ''/'') ep) then ''./'' else []) @ ep @
         (if q = [] then [] else ''?'' @ q))"

definition request_uri :: "string \<Rightarrow> string \<Rightarrow> string" where
  "request_uri p q =
     (let ep = escaped_path p in (if ep = [] then ''/'' else ep) @ (if q = [] then [] else ''?'' @ q))"

section \<open>Query strings\<close>

text \<open>\<open>url.QueryUnescape\<close> and \<open>url.ParseQuery\<close>; malformed pairs are dropped, and so are pairs
  with a semicolon.\<close>

fun query_unescape :: "string \<Rightarrow> string option" where
  "query_unescape [] = Some []"
| "query_unescape (c # cs) =
     (if c = CHR ''%'' then
        (case cs of
           x # y # rest \<Rightarrow>
             (case (hex_val x, hex_val y) of
                (Some h, Some l) \<Rightarrow> map_option (Cons (char_of (16 * h + l))) (query_unescape rest)
              | _ \<Rightarrow> None)
         | _ \<Rightarrow> None)
      else map_option (Cons (if c = CHR ''+'' then CHR '' '' else c)) (query_unescape cs))"

fun split_on :: "char \<Rightarrow> string \<Rightarrow> string list" where
  "split_on d [] = [[]]"
| "split_on d (c # cs) = (if c = d then [] # split_on d cs else (c # hd (split_on d cs)) # tl (split_on d cs))"

definition parse_pair :: "string \<Rightarrow> (string \<times> string) option" where
  "parse_pair s =
     (if CHR '';'' \<in> set s \<or> s = [] then None
      else case (query_unescape (before (CHR ''='') s), query_unescape (after (CHR ''='') s)) of
             (Some k, Some v) \<Rightarrow> Some (k, v)
           | _ \<Rightarrow> None)"

definition parse_query :: "string \<Rightarrow> (string \<times> string) list" where
  "parse_query q = List.map_filter parse_pair (split_on (CHR ''&'') q)"

text \<open>\<open>Values.Get\<close>: the first value of a key.\<close>

definition query_get :: "string \<Rightarrow> string \<Rightarrow> string" where
  "query_get q k = (case map_of (parse_query q) k of None \<Rightarrow> [] | Some v \<Rightarrow> v)"

section \<open>The host of a URL\<close>

lemma before_append [simp]: "c \<notin> set xs \<Longrightarrow> before c (xs @ ys) = xs @ before c ys"
  by (induction xs) (auto simp: before_def)

lemma before_simps [simp]:
  "before c [] = []" "before c (x # xs) = (if x = c then [] else x # before c xs)"
  by (simp_all add: before_def)

lemma before_not_in [simp]: "c \<notin> set (before c s)"
  by (auto simp: before_def dest: set_takeWhileD)

lemma before_split: "\<exists>t. s = before c s @ t \<and> (t = [] \<or> hd t = c)"
proof (intro exI conjI)
  show "s = before c s @ dropWhile (\<lambda>x. x \<noteq> c) s" by (simp add: before_def)
  show "dropWhile (\<lambda>x. x \<noteq> c) s = [] \<or> hd (dropWhile (\<lambda>x. x \<noteq> c) s) = c"
    using hd_dropWhile [of "\<lambda>x. x \<noteq> c" s] by auto
qed

lemma has_prefix_iff: "has_prefix s p \<longleftrightarrow> (\<exists>t. s = p @ t)"
  unfolding has_prefix_def by (metis append_eq_conv_conj)

text \<open>
  The shape of an absolute URL with a host: a scheme, \<open>://\<close>, the authority, and a rest that is
  empty or starts with a delimiter.
\<close>

definition host_url :: "string \<Rightarrow> string \<Rightarrow> string \<Rightarrow> string \<Rightarrow> bool" where
  "host_url raw sc au t \<longleftrightarrow>
     raw = sc @ ''://'' @ au @ t \<and> sc \<noteq> [] \<and> is_alpha (hd sc) \<and> list_all scheme_char sc \<and>
     CHR ''/'' \<notin> set au \<and> CHR ''?'' \<notin> set au \<and> CHR ''#'' \<notin> set au \<and>
     (t = [] \<or> hd t \<in> {CHR ''/'', CHR ''?'', CHR ''#''})"

lemma scheme_char_not [simp]:
  "\<not> scheme_char (CHR '':'')" "\<not> scheme_char (CHR ''/'')" "\<not> scheme_char (CHR ''#'')" "\<not> scheme_char (CHR ''?'')"
  "\<not> scheme_char (CHR ''*'')"
  by (simp_all add: scheme_char_def is_alpha_def is_digit_iff less_eq_char_def)

lemma list_all_not_in: "list_all P xs \<Longrightarrow> \<not> P x \<Longrightarrow> x \<notin> set xs"
  by (auto simp: list_all_iff)

lemma get_scheme_of:
  assumes "sc \<noteq> []" and "is_alpha (hd sc)" and "list_all scheme_char sc"
  shows "get_scheme (sc @ CHR '':'' # s) = Some (sc, s)"
proof -
  have "takeWhile scheme_char (sc @ CHR '':'' # s) = sc" using assms(3) by (simp add: list_all_iff takeWhile_append2)
  then show ?thesis using assms by (simp add: get_scheme_def has_prefix_def)
qed

lemma get_scheme_shape:
  assumes "get_scheme s = Some (sc, r)" and "sc \<noteq> []"
  shows "s = sc @ CHR '':'' # r" "is_alpha (hd sc)" "list_all scheme_char sc"
proof -
  let ?t = "takeWhile scheme_char s" and ?d = "drop (length (takeWhile scheme_char s)) s"
  from assms have *: "?t = sc" "is_alpha (hd sc)" "has_prefix ?d '':''" "r = tl ?d"
    by (auto simp: get_scheme_def Let_def split: if_splits)
  have "s = ?t @ ?d" by (metis append_take_drop_id takeWhile_eq_take)
  moreover have "?d = CHR '':'' # r" using * by (auto simp: has_prefix_iff)
  ultimately show "s = sc @ CHR '':'' # r" using *(1) by simp
  show "is_alpha (hd sc)" by fact
  show "list_all scheme_char sc" unfolding *(1) [symmetric] list_all_iff by (auto dest: set_takeWhileD)
qed

lemma parse_host_url:
  assumes "host_url raw sc au t" and "parse_url ip6 raw = Some u"
  shows "u_scheme u = to_lower sc" and "parse_authority ip6 au = Some (u_host u)"
proof -
  from assms(1) have raw: "raw = sc @ ''://'' @ au @ t" and sc: "sc \<noteq> []" "is_alpha (hd sc)" "list_all scheme_char sc"
    and au: "CHR ''/'' \<notin> set au" "CHR ''?'' \<notin> set au" "CHR ''#'' \<notin> set au"
    and t: "t = [] \<or> hd t \<in> {CHR ''/'', CHR ''?'', CHR ''#''}"
    by (auto simp: host_url_def)
  have "CHR ''#'' \<notin> set sc" using sc(3) list_all_not_in by fastforce
  then have s: "before (CHR ''#'') raw = sc @ CHR '':'' # ''//'' @ au @ before (CHR ''#'') t"
    using au by (simp add: raw)
  let ?t = "before (CHR ''?'') (before (CHR ''#'') t)"
  have rest: "before (CHR ''?'') (''//'' @ au @ before (CHR ''#'') t) = ''//'' @ au @ ?t" using au by simp
  have "?t = [] \<or> (\<exists>x. ?t = CHR ''/'' # x)" using t by (cases t) auto
  then have auth: "before (CHR ''/'') (au @ ?t) = au" using au by auto
  from assms(2) sc have "parse_rest ip6 sc (''//'' @ au @ before (CHR ''#'') t) = Some u"
    unfolding parse_url_def Let_def s get_scheme_of [OF sc]
    by (auto split: if_splits simp: append_eq_Cons_conv)
  then show "u_scheme u = to_lower sc" "parse_authority ip6 au = Some (u_host u)"
    using sc auth unfolding parse_rest_def Let_def rest
    by (auto simp: has_prefix_def split: if_splits option.splits)
qed

lemma parse_url_host:
  assumes parse: "parse_url ip6 raw = Some u" and host: "u_host u \<noteq> []" and sch: "u_scheme u \<noteq> []"
  shows "\<exists>sc au t. host_url raw sc au t"
proof -
  obtain f where f: "raw = before (CHR ''#'') raw @ f" "f = [] \<or> hd f = CHR ''#''" using before_split by blast
  define s where "s = before (CHR ''#'') raw"
  from parse sch obtain sc r where scheme: "get_scheme s = Some (sc, r)" and rest: "parse_rest ip6 sc r = Some u"
    by (auto simp: parse_url_def Let_def s_def split: if_splits option.splits)
  have "sc \<noteq> []"
    using rest sch by (auto simp: parse_rest_def Let_def split: if_splits option.splits)
  note sc = get_scheme_shape [OF scheme this] this
  obtain q where q: "r = before (CHR ''?'') r @ q" "q = [] \<or> hd q = CHR ''?''" using before_split by blast
  define x where "x = before (CHR ''?'') r"
  have "has_prefix x ''//''"
    using rest host sc(4) by (auto simp: parse_rest_def Let_def x_def split: if_splits option.splits)
  then obtain y where y: "x = ''//'' @ y" by (auto simp: has_prefix_iff)
  obtain p where p: "y = before (CHR ''/'') y @ p" "p = [] \<or> hd p = CHR ''/''" using before_split by blast
  have "CHR ''?'' \<notin> set x" "CHR ''#'' \<notin> set s" by (simp_all add: x_def s_def)
  moreover have "s = sc @ '':'' @ ''//'' @ before (CHR ''/'') y @ p @ q"
    using sc(1) q(1) [folded x_def] p(1) unfolding y by simp
  moreover from this f have "raw = sc @ ''://'' @ before (CHR ''/'') y @ p @ q @ f" by (simp add: s_def)
  moreover have "set (before (CHR ''/'') y) \<subseteq> set y" by (auto simp: before_def dest: set_takeWhileD)
  ultimately have "host_url raw sc (before (CHR ''/'') y) (p @ q @ f)"
    using sc p(2) q(2) f(2) unfolding host_url_def y by (cases p; cases q; cases f) auto
  then show ?thesis by blast
qed

text \<open>
  The client trims the slashes at the end of its base URL and appends a path that starts with a
  slash: scheme and authority stay the same.
\<close>

lemma trim_right_append:
  assumes "xs \<noteq> []" and "last xs \<noteq> c"
  shows "trim_right_char c (xs @ ys) = xs @ trim_right_char c ys"
proof -
  have "dropWhile (\<lambda>x. x = c) (rev xs) = rev xs" using assms by (cases "rev xs") (auto simp: last_rev [symmetric])
  moreover have "dropWhile (\<lambda>x. x = c) (rev ys @ zs) =
      (if dropWhile (\<lambda>x. x = c) (rev ys) = [] then dropWhile (\<lambda>x. x = c) zs else dropWhile (\<lambda>x. x = c) (rev ys) @ zs)" for zs
    by (induction "rev ys" arbitrary: ys) (metis append_Nil dropWhile.simps(1), auto simp: dropWhile_append)
  ultimately show ?thesis by (simp add: trim_right_char_def)
qed

lemma trim_right_hd: "trim_right_char c ys = [] \<or> hd (trim_right_char c ys) = hd ys"
proof -
  have "\<exists>zs. ys = trim_right_char c ys @ zs"
    by (metis rev_append rev_rev_ident takeWhile_dropWhile_id trim_right_char_def)
  then show ?thesis by (metis hd_append2)
qed

lemma host_url_append:
  assumes "host_url raw sc au t" and "au \<noteq> []" and "has_prefix path ''/''"
  shows "\<exists>t'. host_url (trim_right_char (CHR ''/'') raw @ path) sc au t'"
proof -
  from assms(1) have raw: "raw = (sc @ ''://'' @ au) @ t" and "CHR ''/'' \<notin> set au" by (auto simp: host_url_def)
  then have "last (sc @ ''://'' @ au) \<noteq> CHR ''/''" using assms(2) by (metis append_is_Nil_conv last_appendR last_in_set)
  then have "trim_right_char (CHR ''/'') raw = (sc @ ''://'' @ au) @ trim_right_char (CHR ''/'') t"
    unfolding raw by (intro trim_right_append) simp_all
  moreover have "hd (trim_right_char (CHR ''/'') t @ path) \<in> {CHR ''/'', CHR ''?'', CHR ''#''}"
  proof (cases "trim_right_char (CHR ''/'') t = []")
    case True
    then show ?thesis using assms(3) by (auto simp: has_prefix_iff)
  next
    case False
    then have "t \<noteq> []" by (auto simp: trim_right_char_def)
    then have "hd t \<in> {CHR ''/'', CHR ''?'', CHR ''#''}" using assms(1) unfolding host_url_def by blast
    moreover have "hd (trim_right_char (CHR ''/'') t) = hd t" using trim_right_hd False by blast
    ultimately show ?thesis using False by (metis hd_append2)
  qed
  ultimately show ?thesis using assms(1) by (auto simp: host_url_def)
qed

lemma parse_authority_Nil: "parse_authority ip6 [] = Some []"
  by (simp add: parse_authority_def parse_host_def)

lemma base_url_keeps_host:
  assumes "parse_url ip6 raw = Some u" and "u_host u \<noteq> []" and "u_scheme u \<noteq> []"
    and "has_prefix path ''/''" and "parse_url ip6 (trim_right_char (CHR ''/'') raw @ path) = Some v"
  shows "u_host v = u_host u" and "u_scheme v = u_scheme u"
proof -
  obtain sc au t where h: "host_url raw sc au t" using parse_url_host [OF assms(1-3)] by blast
  note u = parse_host_url [OF h assms(1)]
  with assms(2) have "au \<noteq> []" by (auto simp: parse_authority_Nil)
  from host_url_append [OF h this assms(4)] obtain t' where
    "host_url (trim_right_char (CHR ''/'') raw @ path) sc au t'" by blast
  from parse_host_url [OF this assms(5)] u show "u_host v = u_host u" "u_scheme v = u_scheme u" by simp_all
qed

section \<open>Printing and reading back\<close>

lemma percent_reads:
  "path_unescape (percent c @ s) = map_option (Cons c) (path_unescape s)"
  "query_unescape (percent c @ s) = map_option (Cons c) (query_unescape s)"
proof -
  have "hex_val (hex_digit (of_char c div 16)) = Some (of_char c div 16)"
    "hex_val (hex_digit (of_char c mod 16)) = Some (of_char c mod 16)"
    by (auto intro!: hex_val_hex_digit)
  moreover have "16 * (of_char c div 16) + of_char c mod 16 = (of_char c :: nat)" by simp
  ultimately show "query_unescape (percent c @ s) = map_option (Cons c) (query_unescape s)"
    by (simp add: percent_def)
qed (rule path_unescape_percent)

lemma in_path_plain_not [simp]:
  "\<not> in_path_plain (CHR ''%'')" "\<not> in_path_plain (CHR ''?'')" "\<not> in_path_plain (CHR ''#'')" "in_path_plain (CHR ''/'')"
  by (simp_all add: in_path_plain_def is_alnum_def is_digit_iff less_eq_char_def)

lemma query_plain_not [simp]:
  "\<not> query_plain (CHR ''%'')" "\<not> query_plain (CHR ''+'')" "\<not> query_plain (CHR ''&'')" "\<not> query_plain (CHR ''='')"
  "\<not> query_plain (CHR '';'')" "\<not> query_plain (CHR ''#'')"
  by (simp_all add: query_plain_def is_alnum_def is_digit_iff less_eq_char_def)

lemma hex_digit_alnum: "n < 16 \<Longrightarrow> is_alnum (hex_digit n)"
  by (auto simp: is_alnum_def is_digit_iff hex_digit_def less_eq_char_def)

lemma set_percent: "x \<in> set (percent c) \<Longrightarrow> x = CHR ''%'' \<or> is_alnum x"
  using hex_digit_alnum by (auto simp: percent_def)

lemma path_unescape_in_path:
  "path_unescape (concat (map (\<lambda>c. if in_path_plain c then [c] else percent c) p)) = Some p"
proof (induction p)
  case (Cons c p)
  have "path_unescape (c # s) = map_option (Cons c) (path_unescape s)" if "in_path_plain c" for s
    using that in_path_plain_not(1) by fastforce
  with Cons show ?case by (simp add: percent_reads)
qed simp

lemma escaped_path_reads: "path_unescape (escaped_path p) = Some p"
  by (simp add: escaped_path_def path_unescape_in_path)

lemma set_escaped_path: "x \<in> set (escaped_path p) \<Longrightarrow> in_path_plain x \<or> x = CHR ''%'' \<or> x = CHR ''*''"
  using set_percent by (fastforce simp: escaped_path_def in_path_plain_def split: if_splits)

lemma query_escape_Cons:
  "query_escape (c # s) = (if query_plain c then [c] else if c = CHR '' '' then ''+'' else percent c) @ query_escape s"
  by (simp add: query_escape_def)

lemma query_unescape_escape: "query_unescape (query_escape s) = Some s"
proof (induction s)
  case Nil
  show ?case by (simp add: query_escape_def)
next
  case (Cons c s)
  have "query_unescape (c # u) = map_option (Cons c) (query_unescape u)" if "query_plain c" for u
    using that query_plain_not(1,2) by fastforce
  with Cons show ?case by (simp add: query_escape_Cons percent_reads)
qed

lemma set_query_escape: "x \<in> set (query_escape s) \<Longrightarrow> query_plain x \<or> x = CHR ''%'' \<or> x = CHR ''+''"
  using set_percent by (fastforce simp: query_escape_def query_plain_def split: if_splits)

lemma query_escape_free:
  "CHR ''&'' \<notin> set (query_escape s)" "CHR ''='' \<notin> set (query_escape s)" "CHR '';'' \<notin> set (query_escape s)"
  by (auto dest: set_query_escape)

lemma parse_pair_escaped: "parse_pair (query_escape k @ ''='' @ query_escape v) = Some (k, v)"
  using query_escape_free by (simp add: parse_pair_def after_def query_unescape_escape)

lemma split_on_append: "d \<notin> set xs \<Longrightarrow> split_on d (xs @ d # ys) = xs # split_on d ys"
  by (induction xs) auto

lemma split_on_none: "d \<notin> set xs \<Longrightarrow> split_on d xs = [xs]"
  by (induction xs) auto

lemma split_on_join:
  "xs \<noteq> [] \<Longrightarrow> \<forall>x \<in> set xs. d \<notin> set x \<Longrightarrow> split_on d (join [d] xs) = xs"
proof (induction xs)
  case (Cons x xs)
  then show ?case by (cases xs) (auto simp: join_def split_on_none split_on_append)
qed simp

lemma parse_query_encode: "parse_query (values_encode kvs) = sort_key fst kvs"
proof (cases "kvs = []")
  case True
  then show ?thesis by (simp add: parse_query_def values_encode_def join_def parse_pair_def)
next
  case False
  let ?enc = "\<lambda>(k, v). query_escape k @ ''='' @ query_escape v"
  define ys where "ys = sort_key fst kvs"
  have "ys \<noteq> []" unfolding ys_def using False by (metis length_0_conv length_sort)
  moreover have "\<forall>x \<in> set (map ?enc ys). CHR ''&'' \<notin> set x" using query_escape_free(1) by auto
  ultimately have "split_on (CHR ''&'') (join ''&'' (map ?enc ys)) = map ?enc ys" by (intro split_on_join) simp_all
  then have "parse_query (values_encode kvs) = List.map_filter parse_pair (map ?enc ys)"
    by (simp only: parse_query_def values_encode_def ys_def)
  also have "\<dots> = ys"
    by (induction ys) (simp_all add: List.map_filter_simps case_prod_beta parse_pair_escaped [simplified])
  finally show ?thesis by (simp only: ys_def)
qed

lemma map_of_sort_key:
  assumes "distinct (map fst kvs)"
  shows "map_of (sort_key fst kvs) = map_of kvs"
proof -
  have "distinct (map fst (sort_key fst kvs))"
    using assms by (metis mset_eq_imp_distinct_iff mset_map mset_sort)
  then show ?thesis using assms by (intro map_of_eqI ext) (auto simp: map_of_eq_Some_iff set_eq_iff map_of_inject_set)
qed

text \<open>A URL made of a rooted path and an encoded query is read back as they are.\<close>

definition url_safe :: "string \<Rightarrow> bool" where
  "url_safe s \<longleftrightarrow> CHR ''#'' \<notin> set s \<and> \<not> has_control s"

lemma control_not_plain:
  "in_path_plain c \<or> query_plain c \<or> c \<in> set ''%+*&='' \<Longrightarrow> c \<noteq> CHR ''#'' \<and> \<not> (c < CHR '' '' \<or> c = CHR 0x7F)"
  by (auto simp: in_path_plain_def query_plain_def is_alnum_def is_digit_iff less_eq_char_def less_char_def)

lemma url_safeI:
  assumes "\<And>c. c \<in> set s \<Longrightarrow> in_path_plain c \<or> query_plain c \<or> c \<in> set ''%+*&=''"
  shows "url_safe s"
  using control_not_plain [OF assms] by (auto simp: url_safe_def has_control_def list_ex_iff)

lemma url_safe_escaped_path: "url_safe (escaped_path p)"
  by (rule url_safeI) (auto dest: set_escaped_path)

lemma set_join: "x \<in> set (join sep xs) \<Longrightarrow> x \<in> set sep \<or> (\<exists>y \<in> set xs. x \<in> set y)"
  by (cases xs) (auto simp: join_def split: if_splits)

lemma url_safe_values: "url_safe (values_encode kvs)"
proof (rule url_safeI)
  fix c assume "c \<in> set (values_encode kvs)"
  then have "c = CHR ''&'' \<or> (\<exists>k v. c \<in> set (query_escape k @ ''='' @ query_escape v))"
    unfolding values_encode_def by (auto dest!: set_join)
  then show "in_path_plain c \<or> query_plain c \<or> c \<in> set ''%+*&=''" by (auto dest: set_query_escape)
qed

lemma after_none: "c \<notin> set s \<Longrightarrow> after c s = []"
  using before_append [of c s "[]"] by (simp add: after_def)

lemma after_append: "c \<notin> set xs \<Longrightarrow> after c (xs @ c # ys) = ys"
  by (simp add: after_def)

lemma before_none: "c \<notin> set s \<Longrightarrow> before c s = s"
  using before_append [of c s "[]"] by simp

lemma escaped_path_slash:
  assumes "p \<noteq> ''*''"
  shows "has_prefix (escaped_path p) ''/'' = has_prefix p ''/''"
    and "has_prefix (escaped_path p) ''//'' = has_prefix p ''//''"
    and "has_prefix (escaped_path p) ''///'' = has_prefix p ''///''"
proof -
  have step: "has_prefix (concat (map (\<lambda>c. if in_path_plain c then [c] else percent c) s)) (CHR ''/'' # u) =
      (\<exists>s'. s = CHR ''/'' # s' \<and> has_prefix (concat (map (\<lambda>c. if in_path_plain c then [c] else percent c) s')) u)" for s u
    by (cases s) (auto simp: has_prefix_def percent_def)
  have nil: "has_prefix s []" for s by (simp add: has_prefix_def)
  have plain: "has_prefix s (CHR ''/'' # u) = (\<exists>s'. s = CHR ''/'' # s' \<and> has_prefix s' u)" for s u
    by (cases s) (auto simp: has_prefix_def)
  show "has_prefix (escaped_path p) ''/'' = has_prefix p ''/''"
    "has_prefix (escaped_path p) ''//'' = has_prefix p ''//''"
    "has_prefix (escaped_path p) ''///'' = has_prefix p ''///''"
    unfolding escaped_path_def if_not_P [OF assms] step nil by (auto simp: plain nil)
qed

lemma parse_url_rooted:
  assumes "has_prefix ep ''/''" and "url_safe ep" and "CHR ''?'' \<notin> set ep" and "url_safe q"
  shows "parse_url ip6 (ep @ (if q = [] then [] else ''?'' @ q)) =
     (if has_prefix ep ''//'' \<and> \<not> has_prefix ep ''///'' then
        (let au = before (CHR ''/'') (drop 2 ep)
         in case (parse_authority ip6 au, path_unescape (drop (length au) (drop 2 ep))) of
              (Some h, Some p) \<Rightarrow> Some \<lparr>u_scheme = [], u_host = h, u_path = p, u_query = q\<rparr>
            | _ \<Rightarrow> None)
      else map_option (\<lambda>p. \<lparr>u_scheme = [], u_host = [], u_path = p, u_query = q\<rparr>) (path_unescape ep))"
proof -
  let ?s = "ep @ (if q = [] then [] else ''?'' @ q)"
  have hash: "CHR ''#'' \<notin> set ?s" and control: "\<not> has_control ?s"
    using assms(2,4) by (auto simp: url_safe_def has_control_def list_ex_iff)
  obtain r where ep: "ep = CHR ''/'' # r" using assms(1) by (auto simp: has_prefix_iff)
  have scheme: "get_scheme ?s = Some ([], ?s)" by (simp add: get_scheme_def ep has_prefix_def)
  have cut: "before (CHR ''?'') ?s = ep" "after (CHR ''?'') ?s = q"
    using assms(3) by (simp_all add: before_none after_none after_append)
  have not_star: "?s \<noteq> ''*''" by (simp add: ep)
  have "parse_url ip6 ?s = parse_rest ip6 [] ?s"
    unfolding parse_url_def Let_def before_none [OF hash] after_none [OF hash] scheme
    using control not_star by simp
  then show ?thesis unfolding parse_rest_def Let_def cut using assms(1) by (auto simp: to_lower.simps split: option.splits)
qed

lemma url_string_rooted: "has_prefix p ''/'' \<Longrightarrow> url_string p q = escaped_path p @ (if q = [] then [] else ''?'' @ q)"
  using escaped_path_slash(1) [of p] by (auto simp: url_string_def Let_def has_prefix_iff)

lemma escaped_path_no_query: "CHR ''?'' \<notin> set (escaped_path p)"
  by (auto dest: set_escaped_path)

lemma parse_url_string:
  assumes "has_prefix p ''/''" and "has_prefix p ''//'' \<longrightarrow> has_prefix p ''///''" and "url_safe q"
  shows "parse_url ip6 (url_string p q) = Some \<lparr>u_scheme = [], u_host = [], u_path = p, u_query = q\<rparr>"
proof -
  have p: "p \<noteq> ''*''" using assms(1) by (auto simp: has_prefix_iff)
  have "\<not> (has_prefix p ''//'' \<and> \<not> has_prefix p ''///'')" using assms(2) by blast
  then show ?thesis
    using parse_url_rooted [OF _ url_safe_escaped_path escaped_path_no_query assms(3), of p ip6] assms(1)
    by (simp only: url_string_rooted escaped_path_slash [OF p] escaped_path_reads if_False option.map)
qed

text \<open>But a path that starts with two slashes loses what it holds up to the next one.\<close>

lemma host_unescape_alnum: "list_all is_alnum h \<Longrightarrow> host_unescape z h = Some h"
proof (induction h)
  case (Cons c h)
  have "c \<noteq> CHR ''%''" "host_plain c"
    using Cons.prems by (auto simp: host_plain_def is_alnum_def is_digit_iff less_eq_char_def)
  with Cons show ?case by simp
qed simp

lemma alnum_not_in: "list_all is_alnum h \<Longrightarrow> \<not> is_alnum c \<Longrightarrow> c \<notin> set h"
  by (auto simp: list_all_iff)

lemma not_alnum [simp]:
  "\<not> is_alnum (CHR ''['')" "\<not> is_alnum (CHR '':'')" "\<not> is_alnum (CHR ''@'')" "\<not> is_alnum (CHR ''/'')"
  by (simp_all add: is_alnum_def is_digit_iff less_eq_char_def)

lemma escape_alnum:
  "list_all is_alnum h \<Longrightarrow> concat (map (\<lambda>c. if in_path_plain c then [c] else percent c) h) = h"
  by (induction h) (auto simp: in_path_plain_def)

lemma parse_url_string_slashes:
  assumes "list_all is_alnum h" and "h \<noteq> []" and "url_safe q"
  shows "parse_url ip6 (url_string (''//'' @ h @ ''/'' @ r) q) =
    Some \<lparr>u_scheme = [], u_host = h, u_path = ''/'' @ r, u_query = q\<rparr>"
proof -
  let ?e = "\<lambda>s. concat (map (\<lambda>c. if in_path_plain c then [c] else percent c) s)"
  define p where "p = ''//'' @ h @ ''/'' @ r"
  have h: "CHR ''['' \<notin> set h" "CHR '':'' \<notin> set h" "CHR ''@'' \<notin> set h" "CHR ''/'' \<notin> set h"
    using alnum_not_in [OF assms(1)] by simp_all
  have pre: "has_prefix p ''/''" "has_prefix p ''//''" "\<not> has_prefix p ''///''"
    using h(4) assms(2) by (auto simp: p_def has_prefix_def) (cases h; auto)+
  have ep: "escaped_path p = ''//'' @ h @ ''/'' @ ?e r"
    by (simp add: p_def escaped_path_def escape_alnum [OF assms(1)])
  have star: "p \<noteq> ''*''" by (simp add: p_def)
  have auth: "parse_authority ip6 h = Some h"
    using h host_unescape_alnum [OF assms(1)] by (simp add: parse_authority_def parse_host_def)
  have cut: "before (CHR ''/'') (drop 2 (escaped_path p)) = h" unfolding ep using h(4) by simp
  have path: "path_unescape (drop (length h) (drop 2 (escaped_path p))) = Some (''/'' @ r)"
    unfolding ep using path_unescape_in_path [of "''/'' @ r"] by simp
  show ?thesis
    unfolding p_def [symmetric] url_string_rooted [OF pre(1)]
    using parse_url_rooted [OF _ url_safe_escaped_path escaped_path_no_query assms(3), of p ip6] pre
    by (simp only: escaped_path_slash [OF star] Let_def cut path auth option.case prod.case simp_thms if_True)
qed

end
