(* ===== verification/Ebookdb_Client.thy ===== *)
theory Ebookdb_Client
  imports Plugin_IO Go_Url
begin

text \<open>
  The HTTP client of the upstream downloader: \<open>internal/ebookdb/client.go\<close> and
  \<open>monitoring.go\<close>. The upstream's answers come from the environment; what the client makes of
  them is modelled here: status classification, the 429 error with its Retry-After, the size
  limits, the redirect policy, the monitoring calls and their decoding.
\<close>

section \<open>Rate limiting\<close>

text \<open>\<open>IsRateLimited\<close>: \<open>errors.As\<close> along the chain of wrapped errors.\<close>

fun is_rate_limited :: "goerr \<Rightarrow> (duration \<times> string) option" where
  "is_rate_limited (RateLimitError d body) = Some (d, body)"
| "is_rate_limited (Wrapf pre e post) = is_rate_limited e"
| "is_rate_limited _ = None"

text \<open>\<open>time.Until\<close> saturates at the bounds of a duration.\<close>

definition saturate :: "int \<Rightarrow> duration" where
  "saturate d = max (- (2 ^ 63)) (min (2 ^ 63 - 1) d)"

definition parse_retry_after :: "env \<Rightarrow> string \<Rightarrow> ('z, duration) io" where
  "parse_retry_after e h0 =
     (let h = trim_space h0
      in if h = [] then State_Monad.return 0
         else (case (case atoi h of Some n \<Rightarrow> if n \<ge> 0 then Some n else None | None \<Rightarrow> None) of
             Some n \<Rightarrow> State_Monad.return (seconds n)
           | None \<Rightarrow>
               (case e_http_date e h of
                  Some t \<Rightarrow> do {
                    u \<leftarrow> now e;
                    State_Monad.return (let d = saturate (t - u) in if d < 0 then 0 else d)
                  }
                | None \<Rightarrow> State_Monad.return 0)))"

section \<open>Bounded bodies\<close>

definition max_response_bytes :: int where "max_response_bytes = 10 * 2 ^ 20"

definition err_body_snippet :: int where "err_body_snippet = 512"

text \<open>\<open>io.LimitReader\<close>: the first \<open>n\<close> bytes.\<close>

definition limit_read :: "int \<Rightarrow> string \<Rightarrow> string" where
  "limit_read n s = (if int (length s) \<le> n then s else take (nat n) s)"

definition trunc_suffix :: string where
  "trunc_suffix = [CHR 0xE2, CHR 0x80, CHR 0xA6] @ ''(truncated)''"

definition trunc_for_error :: "string \<Rightarrow> string" where
  "trunc_for_error b =
     (if int (length b) \<le> err_body_snippet then b else take (nat err_body_snippet) b @ trunc_suffix)"

section \<open>The client\<close>

definition default_timeout :: duration where "default_timeout = 30 * second"

record client =
  cl_base :: string
  cl_key :: string
  cl_timeout :: duration

definition new_client :: "string \<Rightarrow> string \<Rightarrow> client" where
  "new_client base key =
     \<lparr>cl_base = trim_right_char (CHR ''/'') base, cl_key = key, cl_timeout = default_timeout\<rparr>"

text \<open>
  \<open>CheckRedirect\<close> on the next request and the requests already made. \<open>redirect_chain\<close> is how
  \<open>net/http\<close> uses it: every further request of a chain starts with the headers of the first
  one, the policy may remove some, and the chain ends when the policy stops it.
\<close>

record hop =
  hop_host :: string
  hop_headers :: "(string \<times> string) list"

definition check_redirect :: "hop \<Rightarrow> hop list \<Rightarrow> hop option" where
  "check_redirect req via =
     (if length via \<ge> 10 then None
      else Some (if hop_host req \<noteq> hop_host (hd via)
                 then req\<lparr>hop_headers := filter (\<lambda>(k, v). k \<noteq> canonical_header ''X-API-Key'') (hop_headers req)\<rparr>
                 else req))"

fun redirect_chain :: "hop list \<Rightarrow> string list \<Rightarrow> hop list" where
  "redirect_chain via [] = via"
| "redirect_chain via (h # hs) =
     (case check_redirect \<lparr>hop_host = h, hop_headers = hop_headers (hd via)\<rparr> via of
        None \<Rightarrow> via
      | Some r \<Rightarrow> redirect_chain (via @ [r]) hs)"

text \<open>
  What the client puts on the wire for the \<open>k\<close>-th call of \<open>Do\<close>: the request itself and one more for
  every redirect the upstream answers with, as long as \<open>CheckRedirect\<close> lets it.
\<close>

definition wire :: "env \<Rightarrow> nat \<Rightarrow> http_request \<Rightarrow> hop list" where
  "wire e k q =
     (case parse_url (e_ip6 e) (rq_url q) of
        None \<Rightarrow> []
      | Some u \<Rightarrow> redirect_chain [\<lparr>hop_host = u_host u, hop_headers = rq_headers q\<rparr>] (e_redirects e k q))"

text \<open>\<open>Header.Get\<close>: a header is kept under its canonical key.\<close>

definition get_header :: "string \<Rightarrow> (string \<times> string) list \<Rightarrow> string" where
  "get_header k hs = (case map_of hs (canonical_header k) of None \<Rightarrow> [] | Some v \<Rightarrow> v)"

text \<open>What \<open>Get\<close> and \<open>PostJSON\<close> make of the outcome of \<open>Do\<close>.\<close>

definition read_response :: "env \<Rightarrow> http_result \<Rightarrow> ('z, goerr + string) io" where
  "read_response e res =
     (case res of
        ReqInvalid m \<Rightarrow> State_Monad.return (Inl (Wrapf ''new request: '' (Err m) []))
      | ReqFailed m \<Rightarrow> State_Monad.return (Inl (Wrapf ''do: '' (Err m) []))
      | ReqDone rs \<Rightarrow>
          (let body = limit_read max_response_bytes (rs_body rs);
               broken = (if int (length (rs_body rs)) < max_response_bytes then rs_read_error rs else None)
           in case broken of
                Some m \<Rightarrow> State_Monad.return (Inl (Wrapf ''read body: '' (Err m) []))
              | None \<Rightarrow>
                  if rs_status rs = 429 then do {
                    ra \<leftarrow> parse_retry_after e (get_header ''Retry-After'' (rs_headers rs));
                    State_Monad.return (Inl (RateLimitError ra (trunc_for_error body)))
                  }
                  else if rs_status rs \<ge> 400 then
                    State_Monad.return (Inl (Err (''upstream '' @ itoa (rs_status rs) @ '': '' @ trunc_for_error body)))
                  else State_Monad.return (Inr body)))"

definition client_get :: "env \<Rightarrow> client \<Rightarrow> ctx \<Rightarrow> string \<Rightarrow> ('z, goerr + string) io" where
  "client_get e c cx path = do {
     res \<leftarrow> http_do e \<lparr>rq_method = ''GET'', rq_url = cl_base c @ path,
              rq_headers = [(canonical_header ''X-API-Key'', cl_key c), (''Accept'', ''application/json'')],
              rq_body = [], rq_deadline = cx_deadline cx, rq_timeout = cl_timeout c\<rparr>;
     read_response e res
   }"

definition post_json :: "env \<Rightarrow> client \<Rightarrow> ctx \<Rightarrow> string \<Rightarrow> string \<Rightarrow> ('z, goerr + string) io" where
  "post_json e c cx path body = do {
     res \<leftarrow> http_do e \<lparr>rq_method = ''POST'', rq_url = cl_base c @ path,
              rq_headers = [(canonical_header ''X-API-Key'', cl_key c), (''Content-Type'', ''application/json''),
                            (''Accept'', ''application/json'')],
              rq_body = body, rq_deadline = cx_deadline cx, rq_timeout = cl_timeout c\<rparr>;
     read_response e res
   }"

definition ping :: "env \<Rightarrow> client \<Rightarrow> ctx \<Rightarrow> ('z, goerr option) io" where
  "ping e c cx = do {
     r \<leftarrow> client_get e c cx ''/api/v1/health'';
     (case r of
        Inr _ \<Rightarrow> State_Monad.return None
      | Inl _ \<Rightarrow> do {
          r' \<leftarrow> client_get e c cx ''/health'';
          State_Monad.return (case r' of Inl err \<Rightarrow> Some err | Inr _ \<Rightarrow> None)
        })
   }"

text \<open>Streamed responses are handed on unread; 416 is not an error.\<close>

definition get_stream_with_range ::
  "env \<Rightarrow> client \<Rightarrow> ctx \<Rightarrow> string \<Rightarrow> string \<Rightarrow> ('z, goerr + http_response) io" where
  "get_stream_with_range e c cx path rng = do {
     res \<leftarrow> http_do e \<lparr>rq_method = ''GET'', rq_url = cl_base c @ path,
              rq_headers = (canonical_header ''X-API-Key'', cl_key c) # (if rng = [] then [] else [(''Range'', rng)]),
              rq_body = [], rq_deadline = cx_deadline cx, rq_timeout = cl_timeout c\<rparr>;
     State_Monad.return (case res of
         ReqInvalid m \<Rightarrow> Inl (Wrapf ''new request: '' (Err m) [])
       | ReqFailed m \<Rightarrow> Inl (Wrapf ''do: '' (Err m) [])
       | ReqDone rs \<Rightarrow>
           if rs_status rs \<ge> 400 \<and> rs_status rs \<noteq> 416
           then Inl (Err (''upstream '' @ itoa (rs_status rs)))
           else Inr rs)
   }"

definition get_stream :: "env \<Rightarrow> client \<Rightarrow> ctx \<Rightarrow> string \<Rightarrow> ('z, goerr + http_response) io" where
  "get_stream e c cx path = get_stream_with_range e c cx path []"

section \<open>Monitoring\<close>

record monitoring_request =
  mr_title :: string
  mr_authors :: "string list"
  mr_isbn :: string
  mr_format :: string

record monitoring_response =
  ms_id :: string
  ms_status :: string
  ms_book :: string

definition monitoring_fields :: "json \<Rightarrow> (string \<times> string \<times> string \<times> string) option" where
  "monitoring_fields j =
     (case struct_members j of
        None \<Rightarrow> None
      | Some kvs \<Rightarrow>
          (case (string_field ''request_id'' kvs, string_field ''id'' kvs,
                 string_field ''status'' kvs, string_field ''book_id'' kvs) of
             (Some rid, Some i, Some st, Some b) \<Rightarrow> Some (rid, i, st, b)
           | _ \<Rightarrow> None))"

definition decode_monitoring :: "env \<Rightarrow> string \<Rightarrow> string \<Rightarrow> goerr + monitoring_response" where
  "decode_monitoring e b what =
     (case (case json_parse b of None \<Rightarrow> None | Some j \<Rightarrow> monitoring_fields j) of
        None \<Rightarrow> Inl (Wrapf (''decode '' @ what @ '': '') (Err (e_json_error e b)) [])
      | Some (rid, i, st, book) \<Rightarrow>
          (let mid = (if rid = [] then i else rid)
           in if mid = [] \<and> st = [] then
                Inl (Err (''decode '' @ what @ '': invalid monitoring response: '' @ trunc_for_error b))
              else Inr \<lparr>ms_id = mid, ms_status = st, ms_book = book\<rparr>))"

definition monitoring_payload :: "monitoring_request \<Rightarrow> json" where
  "monitoring_payload r =
     (let search = go_map ([(''title'', JStr (mr_title r)), (''source'', JStr ''silo'')] @
            (if mr_authors r \<noteq> [] then [(''authors'', JArr (map JStr (mr_authors r)))] else []) @
            (if mr_isbn r \<noteq> [] then [(''isbn13'', JStr (mr_isbn r))] else []))
      in go_map ([(''search_result'', search),
                  (''preferred_format'', JStr (if mr_format r = [] then ''epub'' else mr_format r))] @
            (if mr_isbn r \<noteq> [] then [(''isbn'', JStr (mr_isbn r))] else [])))"

definition add_monitoring :: "env \<Rightarrow> client \<Rightarrow> ctx \<Rightarrow> monitoring_request \<Rightarrow> ('z, goerr + monitoring_response) io" where
  "add_monitoring e c cx r = do {
     res \<leftarrow> post_json e c cx ''/api/v1/monitoring/add'' (json_encode (monitoring_payload r));
     State_Monad.return (case res of Inl err \<Rightarrow> Inl err | Inr b \<Rightarrow> decode_monitoring e b ''monitoring/add'')
   }"

definition get_monitoring :: "env \<Rightarrow> client \<Rightarrow> ctx \<Rightarrow> string \<Rightarrow> ('z, goerr + monitoring_response) io" where
  "get_monitoring e c cx rid = do {
     res \<leftarrow> client_get e c cx (''/api/v1/monitoring/'' @ path_escape rid);
     State_Monad.return (case res of Inl err \<Rightarrow> Inl err | Inr b \<Rightarrow> decode_monitoring e b ''monitoring snapshot'')
   }"

section \<open>What the calls do to the world\<close>

lemma on_table_parse_retry_after [effect_intros]: "effect_of (on_table P) (parse_retry_after e h)"
  unfolding parse_retry_after_def by (intro table_effect.effect_rules effect_intros)

lemma on_table_read_response [effect_intros]: "effect_of (on_table P) (read_response e res)"
  unfolding read_response_def
  by (cases res) (auto simp: Let_def split: option.splits intro!: table_effect.effect_rules effect_intros)

lemma on_table_client_get [effect_intros]: "effect_of (on_table P) (client_get e c cx path)"
  unfolding client_get_def by (intro table_effect.effect_rules effect_intros)

lemma on_table_post_json [effect_intros]: "effect_of (on_table P) (post_json e c cx path b)"
  unfolding post_json_def by (intro table_effect.effect_rules effect_intros)

lemma on_table_get_monitoring [effect_intros]: "effect_of (on_table P) (get_monitoring e c cx rid)"
  unfolding get_monitoring_def by (intro table_effect.effect_rules effect_intros)

lemma on_table_add_monitoring [effect_intros]: "effect_of (on_table P) (add_monitoring e c cx r)"
  unfolding add_monitoring_def by (intro table_effect.effect_rules effect_intros)

lemma memory_kept_upstream [effect_intros]:
  "effect_of memory_kept (parse_retry_after e h)" "effect_of memory_kept (read_response e res)"
  "effect_of memory_kept (post_json e c cx path b)" "effect_of memory_kept (add_monitoring e c cx r)"
proof -
  show ra: "effect_of memory_kept (parse_retry_after e h)" for h :: string
    unfolding parse_retry_after_def by (intro memory_effect.effect_rules effect_intros)
  show rd: "effect_of memory_kept (read_response e res)" for res
    unfolding read_response_def
    by (cases res) (auto simp: Let_def split: option.splits intro!: memory_effect.effect_rules ra)
  show post: "effect_of memory_kept (post_json e c cx path b)" for path b
    unfolding post_json_def by (intro memory_effect.effect_rules effect_intros rd)
  show "effect_of memory_kept (add_monitoring e c cx r)"
    unfolding add_monitoring_def by (intro memory_effect.effect_rules post)
qed

text \<open>
  An upstream call leaves the table, the database log and the events alone, and sends at most
  one request, to a URL below the client's base and with its key.
\<close>

definition upstream_only :: "(http_request \<Rightarrow> bool) \<Rightarrow> 'z world_scheme \<Rightarrow> 'z world_scheme \<Rightarrow> bool" where
  "upstream_only ok w w' \<longleftrightarrow>
     w_table w' = w_table w \<and> w_db w' = w_db w \<and> w_events w' = w_events w \<and>
     world.more w' = world.more w \<and>
     (w_http w' = w_http w \<or> (\<exists>r. ok r \<and> w_http w' = w_http w @ [r]))"

lemma upstream_only_read_response:
  "upstream_only ok w w0 \<Longrightarrow> run_state (read_response e res) w0 = (a, w') \<Longrightarrow> upstream_only ok w w'"
  unfolding read_response_def parse_retry_after_def
  by (cases res) (auto simp: upstream_only_def Let_def run_simps split: option.splits if_splits)

lemma upstream_only_http_do:
  "ok r \<Longrightarrow> run_state (http_do e r) w = (res, w') \<Longrightarrow> upstream_only ok w w'"
  by (auto simp: http_do_def upstream_only_def split: http_result.splits)

lemma upstream_only_client_get:
  assumes "run_state (client_get e c cx path) w = (a, w')"
  shows "upstream_only (\<lambda>r. rq_url r = cl_base c @ path \<and> rq_method r = ''GET'' \<and> rq_deadline r = cx_deadline cx) w w'"
proof -
  let ?r = "\<lparr>rq_method = ''GET'', rq_url = cl_base c @ path,
              rq_headers = [(canonical_header ''X-API-Key'', cl_key c), (''Accept'', ''application/json'')],
              rq_body = [], rq_deadline = cx_deadline cx, rq_timeout = cl_timeout c\<rparr>"
  obtain res w0 where do: "run_state (http_do e ?r) w = (res, w0)" by fastforce
  with assms have "run_state (read_response e res) w0 = (a, w')" by (simp add: client_get_def)
  then show ?thesis by - (rule upstream_only_read_response [OF upstream_only_http_do [OF _ do]], simp_all)
qed

lemma upstream_only_post_json:
  assumes "run_state (post_json e c cx path b) w = (a, w')"
  shows "upstream_only (\<lambda>r. rq_url r = cl_base c @ path \<and> rq_method r = ''POST'' \<and> rq_body r = b \<and> rq_deadline r = cx_deadline cx) w w'"
proof -
  let ?r = "\<lparr>rq_method = ''POST'', rq_url = cl_base c @ path,
              rq_headers = [(canonical_header ''X-API-Key'', cl_key c), (''Content-Type'', ''application/json''),
                            (''Accept'', ''application/json'')],
              rq_body = b, rq_deadline = cx_deadline cx, rq_timeout = cl_timeout c\<rparr>"
  obtain res w0 where do: "run_state (http_do e ?r) w = (res, w0)" by fastforce
  with assms have "run_state (read_response e res) w0 = (a, w')" by (simp add: post_json_def)
  then show ?thesis by - (rule upstream_only_read_response [OF upstream_only_http_do [OF _ do]], simp_all)
qed

lemma upstream_only_get_monitoring:
  assumes "run_state (get_monitoring e c cx rid) w = (a, w')"
  shows "upstream_only (\<lambda>r. rq_url r = cl_base c @ ''/api/v1/monitoring/'' @ path_escape rid \<and> rq_method r = ''GET'' \<and>
           rq_deadline r = cx_deadline cx) w w'"
proof -
  obtain b w0 where "run_state (client_get e c cx (''/api/v1/monitoring/'' @ path_escape rid)) w = (b, w0)"
    by fastforce
  with assms upstream_only_client_get [OF this] show ?thesis
    by (simp add: get_monitoring_def)
qed

lemma upstream_only_add_monitoring:
  assumes "run_state (add_monitoring e c cx r) w = (a, w')"
  shows "upstream_only (\<lambda>q. rq_url q = cl_base c @ ''/api/v1/monitoring/add'' \<and> rq_method q = ''POST'' \<and>
           rq_body q = json_encode (monitoring_payload r) \<and> rq_deadline q = cx_deadline cx) w w'"
proof -
  obtain b w0 where "run_state (post_json e c cx ''/api/v1/monitoring/add'' (json_encode (monitoring_payload r))) w = (b, w0)"
    by fastforce
  with assms upstream_only_post_json [OF this] show ?thesis
    by (simp add: add_monitoring_def)
qed

lemma get_monitoring_answer:
  assumes "\<And>q. e_http e (length (w_http w)) q = ReqDone rs" and "rs_read_error rs = None" and "rs_status rs < 400"
  shows "\<exists>q. run_state (get_monitoring e c cx rid) w =
      (decode_monitoring e (limit_read max_response_bytes (rs_body rs)) ''monitoring snapshot'', w\<lparr>w_http := w_http w @ [q]\<rparr>) \<and>
    rq_url q = cl_base c @ ''/api/v1/monitoring/'' @ path_escape rid"
proof -
  let ?q = "\<lparr>rq_method = ''GET'', rq_url = cl_base c @ ''/api/v1/monitoring/'' @ path_escape rid,
              rq_headers = [(canonical_header ''X-API-Key'', cl_key c), (''Accept'', ''application/json'')],
              rq_body = [], rq_deadline = cx_deadline cx, rq_timeout = cl_timeout c\<rparr>"
  have "run_state (get_monitoring e c cx rid) w =
      (decode_monitoring e (limit_read max_response_bytes (rs_body rs)) ''monitoring snapshot'', w\<lparr>w_http := w_http w @ [?q]\<rparr>)"
    using assms by (simp add: get_monitoring_def client_get_def http_do_def read_response_def Let_def)
  then show ?thesis by (intro exI [of _ ?q]) simp
qed

lemma add_monitoring_answer:
  assumes "\<And>q. e_http e (length (w_http w)) q = ReqDone rs" and "rs_read_error rs = None" and "rs_status rs < 400"
  shows "\<exists>q. run_state (add_monitoring e c cx r) w =
      (decode_monitoring e (limit_read max_response_bytes (rs_body rs)) ''monitoring/add'', w\<lparr>w_http := w_http w @ [q]\<rparr>) \<and>
    rq_url q = cl_base c @ ''/api/v1/monitoring/add''"
proof -
  let ?q = "\<lparr>rq_method = ''POST'', rq_url = cl_base c @ ''/api/v1/monitoring/add'',
              rq_headers = [(canonical_header ''X-API-Key'', cl_key c), (''Content-Type'', ''application/json''),
                            (''Accept'', ''application/json'')],
              rq_body = json_encode (monitoring_payload r), rq_deadline = cx_deadline cx, rq_timeout = cl_timeout c\<rparr>"
  have "run_state (add_monitoring e c cx r) w =
      (decode_monitoring e (limit_read max_response_bytes (rs_body rs)) ''monitoring/add'', w\<lparr>w_http := w_http w @ [?q]\<rparr>)"
    using assms by (simp add: add_monitoring_def post_json_def http_do_def read_response_def Let_def)
  then show ?thesis by (intro exI [of _ ?q]) simp
qed

lemma decode_monitoring_not_limited:
  "decode_monitoring e b what = Inl err \<Longrightarrow> is_rate_limited err = None"
  by (auto simp: decode_monitoring_def Let_def split: option.splits prod.splits if_splits)

text \<open>The answers that count as rate limiting: a 429 whose body could be read.\<close>

definition answered_429 :: "env \<Rightarrow> nat \<Rightarrow> http_request \<Rightarrow> bool" where
  "answered_429 e k q \<longleftrightarrow>
     (case e_http e k q of
        ReqDone rs \<Rightarrow> rs_status rs = 429 \<and> (rs_read_error rs = None \<or> max_response_bytes \<le> int (length (rs_body rs)))
      | _ \<Rightarrow> False)"

text \<open>A poll of the upstream: it is sent or not, and it is rate limited exactly by such an answer.\<close>

lemma get_monitoring_any:
  assumes run: "run_state (get_monitoring e c cx rid) w = (res, w')"
  obtains (unsent) err where "w_http w' = w_http w" "res = Inl err" "is_rate_limited err = None"
  | (sent) q where "w_http w' = w_http w @ [q]" "rq_url q = cl_base c @ ''/api/v1/monitoring/'' @ path_escape rid"
      "(\<exists>err. res = Inl err \<and> is_rate_limited err \<noteq> None) \<longleftrightarrow> answered_429 e (length (w_http w)) q"
proof -
  let ?q = "\<lparr>rq_method = ''GET'', rq_url = cl_base c @ ''/api/v1/monitoring/'' @ path_escape rid,
              rq_headers = [(canonical_header ''X-API-Key'', cl_key c), (''Accept'', ''application/json'')],
              rq_body = [], rq_deadline = cx_deadline cx, rq_timeout = cl_timeout c\<rparr>"
  show thesis
  proof (cases "e_http e (length (w_http w)) ?q")
    case (ReqInvalid m)
    with run show thesis
      by (intro unsent) (auto simp: get_monitoring_def client_get_def http_do_def read_response_def)
  next
    case (ReqFailed m)
    with run show thesis
      by (intro sent [of ?q])
        (auto simp: get_monitoring_def client_get_def http_do_def read_response_def answered_429_def)
  next
    case (ReqDone rs)
    let ?w0 = "w\<lparr>w_http := w_http w @ [?q]\<rparr>"
    obtain b w1 where rd: "run_state (read_response e (ReqDone rs)) ?w0 = (b, w1)" by fastforce
    with run ReqDone have w': "w' = w1" "res = (case b of Inl err \<Rightarrow> Inl err | Inr b \<Rightarrow> decode_monitoring e b ''monitoring snapshot'')"
      by (auto simp: get_monitoring_def client_get_def http_do_def)
    have http: "w_http w1 = w_http w @ [?q]"
      using rd by (auto simp: read_response_def parse_retry_after_def Let_def now_run split: option.splits if_splits)
    have "(\<exists>err. b = Inl err \<and> is_rate_limited err \<noteq> None) \<longleftrightarrow> answered_429 e (length (w_http w)) ?q"
      using rd ReqDone
      by (auto simp: read_response_def Let_def answered_429_def split: option.splits if_splits prod.splits)
    with w' http show thesis
      by (intro sent [of ?q]) (auto split: sum.splits dest: decode_monitoring_not_limited)
  qed
qed

text \<open>A decoded monitoring response carries an id or a status.\<close>

lemma decode_monitoring_nonempty:
  "decode_monitoring e b what = Inr m \<Longrightarrow> ms_id m \<noteq> [] \<or> ms_status m \<noteq> []"
  by (auto simp: decode_monitoring_def Let_def split: option.splits prod.splits if_splits)

section \<open>Properties\<close>

text \<open>C34: the outcome of \<open>Get\<close>, status by status. A fully read 429 gives a rate-limit error that
  \<open>IsRateLimited\<close> finds, with a body of at most 512 bytes and the marker; another status from 400
  gives an error that names it; anything lower gives the body, of at most 10 MiB.\<close>

lemma limit_read_length: "0 \<le> n \<Longrightarrow> int (length (limit_read n s)) \<le> n"
  by (auto simp: limit_read_def)

lemma trunc_length: "length (trunc_for_error b) \<le> 526"
  by (auto simp: trunc_for_error_def err_body_snippet_def trunc_suffix_def)

theorem client_get_by_status:
  assumes "\<And>r. e_http e (length (w_http w)) r = ReqDone rs" and "rs_read_error rs = None"
  shows "\<exists>w'. (\<exists>q. w_http w' = w_http w @ [q] \<and> rq_url q = cl_base c @ path \<and>
        get_header ''X-API-Key'' (rq_headers q) = cl_key c) \<and>
     (if rs_status rs = 429 then
        \<exists>d body. run_state (client_get e c cx path) w = (Inl (RateLimitError d body), w') \<and>
          is_rate_limited (RateLimitError d body) = Some (d, body) \<and> length body \<le> 526
      else if rs_status rs \<ge> 400 then
        \<exists>body. run_state (client_get e c cx path) w =
            (Inl (Err (''upstream '' @ itoa (rs_status rs) @ '': '' @ body)), w') \<and> length body \<le> 526
      else
        run_state (client_get e c cx path) w = (Inr (limit_read max_response_bytes (rs_body rs)), w') \<and>
        int (length (limit_read max_response_bytes (rs_body rs))) \<le> 10 * 2 ^ 20)"
proof -
  let ?q = "\<lparr>rq_method = ''GET'', rq_url = cl_base c @ path,
              rq_headers = [(canonical_header ''X-API-Key'', cl_key c), (''Accept'', ''application/json'')],
              rq_body = [], rq_deadline = cx_deadline cx, rq_timeout = cl_timeout c\<rparr>"
  let ?w0 = "w\<lparr>w_http := w_http w @ [?q]\<rparr>"
  have run: "run_state (client_get e c cx path) w = run_state (read_response e (ReqDone rs)) ?w0"
    by (simp add: client_get_def http_do_def assms(1))
  obtain d w1 where ra: "run_state (parse_retry_after e (get_header ''Retry-After'' (rs_headers rs))) ?w0 = (d, w1)"
    by fastforce
  have http1: "w_http w1 = w_http ?w0"
    using ra by (auto simp: parse_retry_after_def Let_def run_simps split: option.splits if_splits)
  have key: "get_header ''X-API-Key'' (rq_headers ?q) = cl_key c" by (simp add: get_header_def)
  have len: "int (length (limit_read max_response_bytes (rs_body rs))) \<le> 10 * 2 ^ 20"
    using limit_read_length [of max_response_bytes "rs_body rs"] by (simp add: max_response_bytes_def)
  show ?thesis
  proof (cases "rs_status rs = 429")
    case True
    have "run_state (client_get e c cx path) w =
        (Inl (RateLimitError d (trunc_for_error (limit_read max_response_bytes (rs_body rs)))), w1)"
      using run ra True assms(2) by (simp add: read_response_def Let_def)
    with True http1 key show ?thesis
      by (intro exI [of _ w1]) (auto intro!: exI [of _ ?q] simp: trunc_length)
  next
    case False
    then have "run_state (client_get e c cx path) w =
        (if rs_status rs \<ge> 400
         then Inl (Err (''upstream '' @ itoa (rs_status rs) @ '': '' @ trunc_for_error (limit_read max_response_bytes (rs_body rs))))
         else Inr (limit_read max_response_bytes (rs_body rs)), ?w0)"
      using run assms(2) by (simp add: read_response_def Let_def)
    with False key len show ?thesis
      by (intro exI [of _ ?w0]) (auto intro!: exI [of _ ?q] simp: trunc_length)
  qed
qed

definition demo_client :: client where "demo_client = new_client ''http://u/'' ''k''"

definition answer :: "int \<Rightarrow> string \<Rightarrow> nat \<Rightarrow> http_request \<Rightarrow> http_result" where
  "answer st body k r = ReqDone \<lparr>rs_status = st, rs_headers = [(''Retry-After'', ''30'')], rs_body = body, rs_read_error = None\<rparr>"

theorem client_get_by_status_witness:
  "\<exists>w' d body. run_state (client_get (demo_env (answer 429 ''slow down'')) demo_client background ''/x'') (demo_world []) =
     (Inl (RateLimitError d body), w')"
  using client_get_by_status [of "demo_env (answer 429 ''slow down'')" "demo_world []"
      "\<lparr>rs_status = 429, rs_headers = [(''Retry-After'', ''30'')], rs_body = ''slow down'', rs_read_error = None\<rparr>"
      demo_client "''/x''" background]
  by (auto simp: answer_def)

text \<open>The monitoring id cannot leave its path segment. Whatever the id, the request goes to
  the client's base URL followed by the monitoring path and one more segment, which holds no
  slash, question mark, number sign or space, and which a server unescapes to the id.\<close>

lemma monitoring_id_stays_in_segment:
  assumes "run_state (get_monitoring e c cx rid) w = (res, w')" and "q \<in> set (w_http w') - set (w_http w)"
  shows "\<exists>seg. rq_url q = cl_base c @ ''/api/v1/monitoring/'' @ seg \<and>
     CHR ''/'' \<notin> set seg \<and> CHR ''?'' \<notin> set seg \<and> CHR ''#'' \<notin> set seg \<and> CHR '' '' \<notin> set seg \<and>
     path_unescape seg = Some rid"
proof -
  from upstream_only_get_monitoring [OF assms(1)] assms(2)
  have "rq_url q = cl_base c @ ''/api/v1/monitoring/'' @ path_escape rid"
    by (auto simp: upstream_only_def)
  moreover have "\<forall>x \<in> {CHR ''/'', CHR ''?'', CHR ''#'', CHR '' ''}. x \<notin> set (path_escape rid)"
    using set_path_escape path_separators_not_plain by fastforce
  ultimately show ?thesis using path_unescape_escape by (intro exI [of _ "path_escape rid"]) simp
qed

lemma hd_redirect_chain: "via \<noteq> [] \<Longrightarrow> redirect_chain via hs \<noteq> [] \<and> hd (redirect_chain via hs) = hd via"
  by (induction via hs rule: redirect_chain.induct) (auto split: option.splits)

lemma redirect_chain_inv:
  assumes "via \<noteq> []" and "length via \<le> 10"
    and "\<forall>r \<in> set via. hop_host r \<noteq> hop_host (hd via) \<longrightarrow> canonical_header ''X-API-Key'' \<notin> fst ` set (hop_headers r)"
  shows "length (redirect_chain via hs) \<le> 10 \<and>
    (\<forall>r \<in> set (redirect_chain via hs). hop_host r \<noteq> hop_host (hd via) \<longrightarrow> canonical_header ''X-API-Key'' \<notin> fst ` set (hop_headers r))"
  using assms
proof (induction via hs rule: redirect_chain.induct)
  case (2 via h hs)
  show ?case
  proof (cases "check_redirect \<lparr>hop_host = h, hop_headers = hop_headers (hd via)\<rparr> via")
    case None
    with 2 show ?thesis by simp
  next
    case (Some r)
    have r: "hop_host r \<noteq> hop_host (hd via) \<longrightarrow> canonical_header ''X-API-Key'' \<notin> fst ` set (hop_headers r)"
      and len: "length (via @ [r]) \<le> 10"
      using Some by (auto simp: check_redirect_def split: if_splits)
    have "hd (via @ [r]) = hd via" using "2.prems"(1) by simp
    with "2.IH" [OF Some] "2.prems" r len Some show ?thesis by auto
  qed
qed simp

lemma redirect_chain_bounds:
  "length (redirect_chain [\<lparr>hop_host = h, hop_headers = hs\<rparr>] targets) \<le> 10"
  "r \<in> set (redirect_chain [\<lparr>hop_host = h, hop_headers = hs\<rparr>] targets) \<Longrightarrow> hop_host r \<noteq> h \<Longrightarrow>
   canonical_header ''X-API-Key'' \<notin> fst ` set (hop_headers r)"
  using redirect_chain_inv [of "[\<lparr>hop_host = h, hop_headers = hs\<rparr>]" targets] by auto

lemma wire_key_at_host:
  assumes "h \<in> set (wire e k q)" and "canonical_header ''X-API-Key'' \<in> fst ` set (hop_headers h)"
  shows "\<exists>u. parse_url (e_ip6 e) (rq_url q) = Some u \<and> hop_host h = u_host u"
proof (cases "parse_url (e_ip6 e) (rq_url q)")
  case (Some u)
  with assms redirect_chain_bounds(2) [of h "u_host u" "rq_headers q" "e_redirects e k q"] show ?thesis
    by (auto simp: wire_def)
qed (use assms in \<open>simp add: wire_def\<close>)

lemma length_wire: "length (wire e k q) \<le> 10"
  by (simp add: wire_def redirect_chain_bounds(1) split: option.splits)

text \<open>C35: the API key stays with the upstream. Along a chain of redirects at most ten requests
  are made, and every one to a host other than the first request's is sent without the
  \<open>X-API-Key\<close> header.\<close>

theorem api_key_stays_home:
  "length (redirect_chain [\<lparr>hop_host = h, hop_headers = hs\<rparr>] targets) \<le> 10 \<and>
   (\<forall>r \<in> set (redirect_chain [\<lparr>hop_host = h, hop_headers = hs\<rparr>] targets).
      hop_host r \<noteq> h \<longrightarrow> canonical_header ''X-API-Key'' \<notin> fst ` set (hop_headers r))"
  using redirect_chain_inv [of "[\<lparr>hop_host = h, hop_headers = hs\<rparr>]" targets] by simp

theorem api_key_stays_home_witness:
  "length (redirect_chain [\<lparr>hop_host = ''u'', hop_headers = [(''X-Api-Key'', ''k'')]\<rparr>] [''evil'', ''u'']) \<le> 10 \<and>
   map hop_headers (redirect_chain [\<lparr>hop_host = ''u'', hop_headers = [(''X-Api-Key'', ''k'')]\<rparr>] [''evil'', ''u'']) =
     [[(''X-Api-Key'', ''k'')], [], [(''X-Api-Key'', ''k'')]]"
  using api_key_stays_home [of "''u''" "[(''X-Api-Key'', ''k'')]" "[''evil'', ''u'']"]
  by (simp add: check_redirect_def)

text \<open>A monitoring response is accepted exactly when it names a request or a status. On an
  object whose four fields are strings or missing, \<open>decodeMonitoring\<close> takes the id from
  \<open>request_id\<close> or else from \<open>id\<close>, and rejects the object when id and status are both empty.\<close>

lemma decode_monitoring_spec:
  assumes "json_parse b = Some (JObj kvs)"
    and "string_field ''request_id'' kvs = Some rid" and "string_field ''id'' kvs = Some i"
    and "string_field ''status'' kvs = Some st" and "string_field ''book_id'' kvs = Some book"
  shows "(rid = [] \<and> i = [] \<and> st = [] \<longrightarrow>
      (\<exists>m. decode_monitoring e b what = Inl (Err (''decode '' @ what @ '': invalid monitoring response: '' @ m)))) \<and>
    (\<not> (rid = [] \<and> i = [] \<and> st = []) \<longrightarrow>
      decode_monitoring e b what = Inr \<lparr>ms_id = (if rid = [] then i else rid), ms_status = st, ms_book = book\<rparr>)"
  using assms by (auto simp: decode_monitoring_def monitoring_fields_def struct_members_def)

definition job_body :: string where
  "job_body = json_encode (JObj [(''id'', JStr ''job-1''), (''status'', JStr ''queued'')])"

lemma job_body_parse: "json_parse job_body = Some (JObj [(''id'', JStr ''job-1''), (''status'', JStr ''queued'')])"
  by code_simp

end
