(* ===== verification/Event_Consumer.thy ===== *)
theory Event_Consumer
  imports Event_Publisher Ebookdb_Client
begin

text \<open>
  \<open>internal/consumer/handler.go\<close>: the handler of \<open>request_submitted\<close> events. \<open>handle_event\<close> is
  the guards up to the request id, \<open>forward_request\<close> the rest: persist, call the upstream,
  persist the outcome, publish. The result is the host's view: \<open>Inr ()\<close> acknowledges the event,
  \<open>Inl\<close> asks for redelivery.
\<close>

section \<open>Reading the payload\<close>

text \<open>\<open>trimmedStringValue\<close>: the pair of Go, with \<open>False\<close> when the key is missing.\<close>

definition trimmed_string_value :: "payload \<Rightarrow> string \<Rightarrow> string \<times> bool" where
  "trimmed_string_value p key =
     (case map_of p key of
        None \<Rightarrow> ([], False)
      | Some (JStr s) \<Rightarrow> (trim_space s, True)
      | Some _ \<Rightarrow> ([], True))"

fun first_target :: "payload \<Rightarrow> string list \<Rightarrow> string \<times> bool" where
  "first_target p [] = ([], False)"
| "first_target p (key # keys) =
     (case trimmed_string_value p key of (target, ok) \<Rightarrow> if ok then (target, True) else first_target p keys)"

definition target_plugin_id :: "payload \<Rightarrow> string \<times> bool" where
  "target_plugin_id p = first_target p [''target_plugin_id'', ''target_provider_plugin_id'', ''provider_plugin_id'']"

definition request_id_of :: "payload \<Rightarrow> string" where
  "request_id_of p =
     (if get_string p ''request_id'' \<noteq> [] then get_string p ''request_id'' else get_string p ''requestId'')"

definition string_slice :: "payload \<Rightarrow> string \<Rightarrow> string list" where
  "string_slice p key = (case map_of p key of Some (JArr js) \<Rightarrow> strings_of js | _ \<Rightarrow> [])"

section \<open>The handler\<close>

record consumer_deps =
  cd_store :: bool
  cd_pub :: "publisher option"
  cd_ebk :: "client option"
  cd_plugin :: string

record event =
  ev_name :: string
  ev_payload :: "payload option"

definition publish :: "publisher option \<Rightarrow> string \<Rightarrow> payload \<Rightarrow> ('z, unit) io" where
  "publish pub name pl = (case pub of None \<Rightarrow> State_Monad.return () | Some p \<Rightarrow> publish_event p name pl)"

definition record_of :: "string \<Rightarrow> string \<Rightarrow> string \<Rightarrow> string \<Rightarrow> gotime \<Rightarrow> forwarded_request" where
  "record_of rid ext st err t =
     \<lparr>request_id = rid, external_id = ext, status = st, last_polled = 0, error_text = err,
      created_at = 0, updated_at = t\<rparr>"

definition failed_payload :: "string \<Rightarrow> string \<Rightarrow> string \<Rightarrow> payload" where
  "failed_payload rid plugin reason =
     [(''request_id'', JStr rid), (''requestId'', JStr rid),
      (''provider_plugin_id'', JStr plugin), (''reason'', JStr reason)]"

definition acknowledged_payload :: "string \<Rightarrow> string \<Rightarrow> string \<Rightarrow> payload" where
  "acknowledged_payload rid ext plugin =
     [(''request_id'', JStr rid), (''requestId'', JStr rid),
      (''external_id'', JStr ext), (''provider_plugin_id'', JStr plugin)]"

definition no_metadata :: string where
  "no_metadata = ''title or isbn required to request a download''"

text \<open>The branch without title and ISBN: the failure to record it is only logged.\<close>

definition reject_request :: "env \<Rightarrow> consumer_deps \<Rightarrow> string \<Rightarrow> ('z, goerr + unit) io" where
  "reject_request e d rid = do {
     t \<leftarrow> now e;
     _ \<leftarrow> upsert_forwarded_request e (record_of rid [] ''failed'' no_metadata t);
     _ \<leftarrow> publish (cd_pub d) ''request_failed'' (failed_payload rid (cd_plugin d) no_metadata);
     State_Monad.return (Inr ())
   }"

definition record_failure :: "env \<Rightarrow> consumer_deps \<Rightarrow> string \<Rightarrow> goerr \<Rightarrow> ('z, goerr + unit) io" where
  "record_failure e d rid err = do {
     t \<leftarrow> now e;
     u \<leftarrow> upsert_forwarded_request e (record_of rid [] ''failed'' (err_text err) t);
     (case u of
        Inl uerr \<Rightarrow> State_Monad.return
          (Inl (Wrapf (''persist failed '' @ rid @ '': '') uerr ('' (upstream: '' @ err_text err @ '')'')))
      | Inr _ \<Rightarrow> do {
          _ \<leftarrow> publish (cd_pub d) ''request_failed'' (failed_payload rid (cd_plugin d) (err_text err));
          State_Monad.return (Inr ())
        })
   }"

definition record_acknowledged :: "env \<Rightarrow> consumer_deps \<Rightarrow> string \<Rightarrow> monitoring_response \<Rightarrow> ('z, goerr + unit) io" where
  "record_acknowledged e d rid m = do {
     t \<leftarrow> now e;
     u \<leftarrow> upsert_forwarded_request e (record_of rid (ms_id m) ''acknowledged'' [] t);
     (case u of
        Inl uerr \<Rightarrow> State_Monad.return (Inl (Wrapf (''persist acknowledged '' @ rid @ '': '') uerr []))
      | Inr _ \<Rightarrow> do {
          _ \<leftarrow> publish (cd_pub d) ''request_acknowledged'' (acknowledged_payload rid (ms_id m) (cd_plugin d));
          State_Monad.return (Inr ())
        })
   }"

definition forward_request ::
  "env \<Rightarrow> consumer_deps \<Rightarrow> client \<Rightarrow> ctx \<Rightarrow> string \<Rightarrow> monitoring_request \<Rightarrow> ('z, goerr + unit) io" where
  "forward_request e d c cx rid mr = do {
     t \<leftarrow> now e;
     r \<leftarrow> upsert_forwarded_request e (record_of rid [] ''submitted'' [] t);
     (case r of
        Inl err \<Rightarrow> State_Monad.return (Inl (Wrapf (''persist submitted '' @ rid @ '': '') err []))
      | Inr _ \<Rightarrow>
          if mr_title mr = [] \<and> mr_isbn mr = [] then reject_request e d rid
          else do {
            acx \<leftarrow> with_timeout e cx (10 * second);
            resp \<leftarrow> add_monitoring e c acx mr;
            (case resp of
               Inl err \<Rightarrow> record_failure e d rid err
             | Inr m \<Rightarrow> record_acknowledged e d rid m)
          })
   }"

definition monitoring_of :: "payload \<Rightarrow> monitoring_request" where
  "monitoring_of p =
     \<lparr>mr_title = get_string p ''title'', mr_authors = string_slice p ''authors'',
      mr_isbn = get_string p ''isbn'', mr_format = get_string p ''format_pref''\<rparr>"

text \<open>\<open>depsFn\<close> is nil (\<open>None\<close>), returns nil (\<open>Some None\<close>), or returns dependencies.\<close>

definition handle_event ::
  "env \<Rightarrow> consumer_deps option option \<Rightarrow> ctx \<Rightarrow> event \<Rightarrow> ('z, goerr + unit) io" where
  "handle_event e deps_fn cx ev =
     (if ev_name ev \<noteq> ''plugin.silo.ebooks.request_submitted'' then State_Monad.return (Inr ())
      else case ev_payload ev of
        None \<Rightarrow> State_Monad.return (Inr ())
      | Some p \<Rightarrow>
          (case deps_fn of
             None \<Rightarrow> State_Monad.return (Inl (Err ''plugin not configured yet''))
           | Some None \<Rightarrow> State_Monad.return (Inl (Err ''plugin not configured yet''))
           | Some (Some d) \<Rightarrow>
               (case (if cd_store d then cd_ebk d else None) of
                  None \<Rightarrow> State_Monad.return (Inl (Err ''plugin dependencies not configured''))
                | Some c \<Rightarrow>
                    if \<not> snd (target_plugin_id p) \<or> fst (target_plugin_id p) \<noteq> cd_plugin d
                    then State_Monad.return (Inr ())
                    else if request_id_of p = [] then State_Monad.return (Inr ())
                    else forward_request e d c cx (request_id_of p) (monitoring_of p))))"

text \<open>The events the handler acts on, for a configured plugin.\<close>

definition addressed :: "consumer_deps \<Rightarrow> event \<Rightarrow> payload \<Rightarrow> bool" where
  "addressed d ev p \<longleftrightarrow>
     ev_name ev = ''plugin.silo.ebooks.request_submitted'' \<and> ev_payload ev = Some p \<and>
     target_plugin_id p = (cd_plugin d, True) \<and> request_id_of p \<noteq> []"

lemma handle_event_addressed:
  "addressed d ev p \<Longrightarrow> cd_store d \<Longrightarrow> cd_ebk d = Some c \<Longrightarrow>
   handle_event e (Some (Some d)) cx ev = forward_request e d c cx (request_id_of p) (monitoring_of p)"
  by (simp add: addressed_def handle_event_def)

lemma handle_event_cases:
  obtains (ack) "run_state (handle_event e df cx ev) w = (Inr (), w)"
  | (unconfigured) err where "run_state (handle_event e df cx ev) w = (Inl err, w)"
      "\<nexists>d c. df = Some (Some d) \<and> cd_store d \<and> cd_ebk d = Some c"
  | (forward) d c p where "df = Some (Some d)" "cd_store d" "cd_ebk d = Some c" "addressed d ev p"
      "run_state (handle_event e df cx ev) w = run_state (forward_request e d c cx (request_id_of p) (monitoring_of p)) w"
proof (cases "ev_name ev = ''plugin.silo.ebooks.request_submitted'' \<and> (\<exists>p. ev_payload ev = Some p)")
  case False
  then show thesis by (intro ack) (auto simp: handle_event_def split: option.splits)
next
  case True
  then obtain p where p: "ev_name ev = ''plugin.silo.ebooks.request_submitted''" "ev_payload ev = Some p" by blast
  show thesis
  proof (cases "\<exists>d c. df = Some (Some d) \<and> cd_store d \<and> cd_ebk d = Some c")
    case False
    with p have "\<exists>err. run_state (handle_event e df cx ev) w = (Inl err, w)"
      by (auto simp: handle_event_def split: option.splits if_splits)
    with False show thesis using unconfigured by blast
  next
    case True
    then obtain d c where d: "df = Some (Some d)" "cd_store d" "cd_ebk d = Some c" by blast
    show thesis
    proof (cases "addressed d ev p")
      case True
      with d show thesis by (intro forward [OF d True]) (simp add: handle_event_addressed)
    next
      case False
      with p d show thesis
        by (cases "target_plugin_id p") (intro ack, auto simp: handle_event_def addressed_def)
    qed
  qed
qed

section \<open>Effects\<close>

lemma record_of_id [simp]: "request_id (record_of rid ext st err t) = rid"
  by (simp add: record_of_def)

lemma on_table_publish [effect_intros]: "effect_of (on_table P) (publish pub name pl)"
  unfolding publish_def by (intro table_effect.effect_rules effect_intros)

lemma memory_kept_publish [effect_intros]: "effect_of memory_kept (publish pub name pl)"
  unfolding publish_def publish_event_def by (intro memory_effect.effect_rules effect_intros)

lemma memory_kept_handle_event: "effect_of memory_kept (handle_event e df cx ev)"
  unfolding handle_event_def forward_request_def reject_request_def record_failure_def record_acknowledged_def
  by (intro memory_effect.effect_rules effect_intros backend_only_store [THEN memory_kept_backend])

text \<open>Whatever happens, the handler's own statements are upserts of its request.\<close>

lemma on_table_forward [effect_intros]:
  assumes "others_do P e" and "\<And>r upd. request_id r = rid \<Longrightarrow> rid \<noteq> [] \<Longrightarrow> P (upsert_stmt r upd)"
  shows "effect_of (on_table P) (forward_request e d c cx rid mr)"
  unfolding forward_request_def reject_request_def record_failure_def record_acknowledged_def
  by (intro table_effect.effect_rules effect_intros; simp add: assms)

lemma on_table_handle_event [effect_intros]:
  assumes "others_do P e" and "\<And>r upd. request_id r \<noteq> [] \<Longrightarrow> P (upsert_stmt r upd)"
  shows "effect_of (on_table P) (handle_event e df cx ev)"
  unfolding handle_event_def
  by (intro table_effect.effect_rules effect_intros; (simp add: assms)?)

text \<open>More precisely, they are upserts of its three records.\<close>

lemma on_table_handle_event_records:
  assumes "others_do P e"
    and "\<And>rid ext st err t upd. rid \<noteq> [] \<Longrightarrow> st \<in> {''submitted'', ''acknowledged'', ''failed''} \<Longrightarrow>
      P (upsert_stmt (record_of rid ext st err t) upd)"
  shows "effect_of (on_table P) (handle_event e df cx ev)"
  unfolding handle_event_def forward_request_def reject_request_def record_failure_def record_acknowledged_def
  by (intro table_effect.effect_rules effect_intros; simp add: assms)

section \<open>What a run of the handler leaves behind\<close>

lemma publish_run:
  "run_state (publish pub name pl) w = ((), w') \<Longrightarrow>
   w_table w' = w_table w \<and> w_http w' = w_http w \<and> w_db w' = w_db w \<and>
   w_events w' = w_events w @ (case pub of Some p \<Rightarrow> if pub_host p then [(name, pl)] else [] | None \<Rightarrow> [])"
  by (auto simp: publish_def publish_event_run split: option.splits if_splits)

text \<open>
  The last three steps of the handler, read the clock, write the row, publish: either the write
  failed and nothing was published, or the row exists and the event was.
\<close>

definition published :: "consumer_deps \<Rightarrow> string \<Rightarrow> payload \<Rightarrow> (string \<times> payload) list" where
  "published d name pl = (case cd_pub d of Some p \<Rightarrow> if pub_host p then [(name, pl)] else [] | None \<Rightarrow> [])"

lemma length_published: "length (published d name pl) \<le> 1"
  by (simp add: published_def split: option.splits)

lemma record_failure_any:
  assumes "run_state (record_failure e d rid err) w = (res, w')" and "rid \<noteq> []"
  shows "w_http w' = w_http w \<and> rows_kept (w_table w) (w_table w') \<and>
    (if db_failed e (length (w_db w)) then w_events w' = w_events w \<and> (\<exists>x. res = Inl x)
     else w_events w' = w_events w @ published d ''request_failed'' (failed_payload rid (cd_plugin d) (err_text err)) \<and> res = Inr ())"
proof -
  let ?w0 = "w\<lparr>w_clock := Suc (w_clock w)\<rparr>"
  obtain u w1 where up: "run_state (upsert_forwarded_request e (record_of rid [] ''failed'' (err_text err) (e_clock e (w_clock w)))) ?w0 = (u, w1)"
    by fastforce
  from upsert_any [OF up] assms(2)
  have any: "w_http w1 = w_http w" "w_events w1 = w_events w" "rows_kept (w_table w) (w_table w1)"
    "(\<exists>err. u = Inl err) \<longleftrightarrow> db_failed e (length (w_db w))" by simp_all
  with up assms(1) show ?thesis
    by (cases u) (auto simp: record_failure_def now_run published_def dest!: publish_run split: prod.splits)
qed

lemma record_acknowledged_any:
  assumes "run_state (record_acknowledged e d rid m) w = (res, w')" and "rid \<noteq> []"
  shows "w_http w' = w_http w \<and> rows_kept (w_table w) (w_table w') \<and>
    (if db_failed e (length (w_db w)) then w_events w' = w_events w \<and> (\<exists>x. res = Inl x)
     else w_events w' = w_events w @ published d ''request_acknowledged'' (acknowledged_payload rid (ms_id m) (cd_plugin d)) \<and> res = Inr ())"
proof -
  let ?w0 = "w\<lparr>w_clock := Suc (w_clock w)\<rparr>"
  obtain u w1 where up: "run_state (upsert_forwarded_request e (record_of rid (ms_id m) ''acknowledged'' [] (e_clock e (w_clock w)))) ?w0 = (u, w1)"
    by fastforce
  from upsert_any [OF up] assms(2)
  have any: "w_http w1 = w_http w" "w_events w1 = w_events w" "rows_kept (w_table w) (w_table w1)"
    "(\<exists>err. u = Inl err) \<longleftrightarrow> db_failed e (length (w_db w))" by simp_all
  with up assms(1) show ?thesis
    by (cases u) (auto simp: record_acknowledged_def now_run published_def dest!: publish_run split: prod.splits)
qed

lemma reject_request_any:
  assumes "run_state (reject_request e d rid) w = (res, w')" and "rid \<noteq> []"
  shows "w_http w' = w_http w \<and> rows_kept (w_table w) (w_table w') \<and> res = Inr () \<and>
    w_events w' = w_events w @ published d ''request_failed'' (failed_payload rid (cd_plugin d) no_metadata)"
proof -
  let ?w0 = "w\<lparr>w_clock := Suc (w_clock w)\<rparr>"
  obtain u w1 where up: "run_state (upsert_forwarded_request e (record_of rid [] ''failed'' no_metadata (e_clock e (w_clock w)))) ?w0 = (u, w1)"
    by fastforce
  from upsert_any [OF up] assms(2) up assms(1) show ?thesis
    by (auto simp: reject_request_def now_run published_def dest!: publish_run split: prod.splits)
qed

text \<open>
  The whole of \<open>forward_request\<close> in any environment. Its first write is database call
  \<open>length (w_db w)\<close>; when that fails nothing else happens. Otherwise the row exists from then
  on, the upstream is asked at most once, and exactly one event is published unless the second
  write fails.
\<close>

lemma forward_request_any:
  assumes run: "run_state (forward_request e d c cx rid mr) w = (res, w')" and rid: "rid \<noteq> []"
  shows "if db_failed e (length (w_db w))
    then w_http w' = w_http w \<and> w_events w' = w_events w \<and> (\<exists>x. res = Inl x)
    else lookup (w_table w') rid \<noteq> None \<and>
      (\<exists>hs. w_http w' = w_http w @ hs \<and> length hs \<le> 1 \<and> (mr_title mr = [] \<and> mr_isbn mr = [] \<longrightarrow> hs = [])) \<and>
      ((\<exists>x. res = Inl x) \<and> w_events w' = w_events w \<and> db_failed e (Suc (length (w_db w))) \<or>
       res = Inr () \<and> (\<exists>name pl. w_events w' = w_events w @ published d name pl))"
proof -
  let ?w0 = "w\<lparr>w_clock := Suc (w_clock w)\<rparr>"
  obtain u w1 where up: "run_state (upsert_forwarded_request e (record_of rid [] ''submitted'' [] (e_clock e (w_clock w)))) ?w0 = (u, w1)"
    by fastforce
  from upsert_any [OF up] rid
  have any: "w_http w1 = w_http w" "w_events w1 = w_events w" "length (w_db w1) = Suc (length (w_db w))"
    "(\<exists>err. u = Inl err) \<longleftrightarrow> db_failed e (length (w_db w))" "u = Inr () \<Longrightarrow> lookup (w_table w1) rid \<noteq> None"
    by simp_all
  have kept: "lookup (w_table w') rid \<noteq> None" if "rows_kept (w_table w1) (w_table w')" "u = Inr ()"
    using any(5) that by (auto simp: rows_kept_def)
  show ?thesis
  proof (cases u)
    case (Inl err)
    with any up run show ?thesis by (auto simp: forward_request_def now_run)
  next
    case (Inr x)
    then have ok: "u = Inr ()" "\<not> db_failed e (length (w_db w))" using any(4) by auto
    show ?thesis
    proof (cases "mr_title mr = [] \<and> mr_isbn mr = []")
      case True
      with run up ok have "run_state (reject_request e d rid) w1 = (res, w')"
        by (simp add: forward_request_def now_run)
      from reject_request_any [OF this rid] ok any kept show ?thesis by auto
    next
      case False
      obtain acx w2 where ctx: "run_state (with_timeout e cx (10 * second)) w1 = (acx, w2)" by fastforce
      then have w2: "w_http w2 = w_http w" "w_events w2 = w_events w" "w_db w2 = w_db w1" "w_table w2 = w_table w1"
        using any by (auto simp: with_timeout_def now_run)
      obtain resp w3 where add: "run_state (add_monitoring e c acx mr) w2 = (resp, w3)" by fastforce
      from upstream_only_add_monitoring [OF add] w2
      have w3: "\<exists>hs. w_http w3 = w_http w @ hs \<and> length hs \<le> 1" "w_events w3 = w_events w"
        "length (w_db w3) = Suc (length (w_db w))" "w_table w3 = w_table w1"
        using any by (auto simp: upstream_only_def)
      have rest: "run_state (case resp of Inl err \<Rightarrow> record_failure e d rid err | Inr m \<Rightarrow> record_acknowledged e d rid m) w3 = (res, w')"
        using run up ok ctx add False by (simp add: forward_request_def now_run)
      have "w_http w' = w_http w3 \<and> rows_kept (w_table w1) (w_table w') \<and>
          (if db_failed e (Suc (length (w_db w))) then w_events w' = w_events w \<and> (\<exists>x. res = Inl x)
           else res = Inr () \<and> (\<exists>name pl. w_events w' = w_events w @ published d name pl))"
      proof (cases resp)
        case (Inl err)
        with rest record_failure_any [of e d rid err w3 res w'] rid w3 show ?thesis by (auto split: if_splits)
      next
        case (Inr m)
        with rest record_acknowledged_any [of e d rid m w3 res w'] rid w3 show ?thesis by (auto split: if_splits)
      qed
      with ok w3 kept False show ?thesis by (auto split: if_splits)
    qed
  qed
qed

section \<open>A run where the database answers\<close>

lemma record_of_simps [simp]:
  "external_id (record_of rid ext st err t) = ext" "status (record_of rid ext st err t) = st"
  "error_text (record_of rid ext st err t) = err" "updated_at (record_of rid ext st err t) = t"
  by (simp_all add: record_of_def)

text \<open>The row of the request after a first write \<open>submitted\<close> and a second write.\<close>

definition outcome_row :: "string \<Rightarrow> string \<Rightarrow> string \<Rightarrow> row option \<Rightarrow> row \<Rightarrow> bool" where
  "outcome_row ext st err x y \<longleftrightarrow>
     c_status y = guard_status x st \<and> c_ext y = coalesce (opt_string ext) (old_ext x) \<and>
     c_err y = coalesce (opt_string err) (old_err x)"

text \<open>
  The three ends of the handler on a database that answers, as one statement: the second write
  is \<open>record_of rid ext st err\<close>, and what comes between the writes leaves the table alone.
\<close>

lemma write_twice_quiet:
  fixes w v :: "'z world_scheme"
  assumes q: "quiet e" and rid: "rid \<noteq> []"
    and w1: "run_state (upsert_forwarded_request e (record_of rid [] ''submitted'' [] t)) w = (a, w1)"
    and same: "w_table v = w_table w1"
    and w2: "run_state (upsert_forwarded_request e (record_of rid ext st err t')) v = (b, w2)"
  shows "(\<exists>y. lookup (w_table w2) rid = Some y \<and> outcome_row ext st err (lookup (w_table w) rid) y) \<and>
    (\<forall>k. k \<noteq> rid \<longrightarrow> lookup (w_table w2) k = lookup (w_table w) k)"
  using store.upsert_twice [OF q _ _ w1 _ w2] store.upsert_twice_other [OF q _ _ w1 _ w2] rid same
  by (auto simp: outcome_row_def terminal_def)

text \<open>
  \<open>settled d rid w w' ext st err name pl\<close>: from \<open>w\<close> to \<open>w'\<close> the row of \<open>rid\<close> got this outcome, no
  other row changed, and this event was published.
\<close>

definition settled ::
  "consumer_deps \<Rightarrow> string \<Rightarrow> 'z world_scheme \<Rightarrow> 'z world_scheme \<Rightarrow> string \<Rightarrow> string \<Rightarrow> string \<Rightarrow> string \<Rightarrow> payload \<Rightarrow> bool" where
  "settled d rid w w' ext st err name pl \<longleftrightarrow>
     (\<exists>y. lookup (w_table w') rid = Some y \<and> outcome_row ext st err (lookup (w_table w) rid) y) \<and>
     (\<forall>k. k \<noteq> rid \<longrightarrow> lookup (w_table w') k = lookup (w_table w) k) \<and>
     w_events w' = w_events w @ published d name pl"

text \<open>Write a second record and publish: the end of each branch.\<close>

lemma settled_quiet:
  fixes w v :: "'z world_scheme"
  assumes q: "quiet e" and rid: "rid \<noteq> []"
    and w1: "run_state (upsert_forwarded_request e (record_of rid [] ''submitted'' [] t)) w = (a, w1)"
    and same: "w_table v = w_table w1" and ev: "w_events v = w_events w"
    and w2: "run_state (upsert_forwarded_request e (record_of rid ext st err t')) v = (b, w2)"
    and pub: "run_state (publish (cd_pub d) name pl) w2 = (u, w')"
  shows "settled d rid w w' ext st err name pl" and "w_http w' = w_http v" and "b = Inr ()"
proof -
  note [simp] = publish_run [of "cd_pub d" name pl w2 w', OF pub [unfolded unit_eq [of u]]]
  have any: "w_events w2 = w_events v" "w_http w2 = w_http v" "(\<exists>err. b = Inl err) \<longleftrightarrow> db_failed e (length (w_db v))"
    using upsert_any [OF w2] rid by simp_all
  show "settled d rid w w' ext st err name pl"
    using write_twice_quiet [OF q rid w1 same w2] any ev by (simp add: settled_def published_def)
  show "w_http w' = w_http v" using any by simp
  show "b = Inr ()" using any(3) q by (cases b) auto
qed

lemma record_failure_settles:
  fixes w v :: "'z world_scheme"
  assumes q: "quiet e" and rid: "rid \<noteq> []"
    and w1: "run_state (upsert_forwarded_request e (record_of rid [] ''submitted'' [] t)) w = (a, w1)"
    and same: "w_table v = w_table w1" "w_events v = w_events w"
    and run: "run_state (record_failure e d rid err) v = (res, w')"
  shows "res = Inr () \<and> w_http w' = w_http v \<and>
    settled d rid w w' [] ''failed'' (err_text err) ''request_failed'' (failed_payload rid (cd_plugin d) (err_text err))"
proof -
  let ?u = "v\<lparr>w_clock := Suc (w_clock v)\<rparr>"
  obtain b w2 where w2: "run_state (upsert_forwarded_request e (record_of rid [] ''failed'' (err_text err) (e_clock e (w_clock v)))) ?u = (b, w2)"
    by fastforce
  have "b = Inr ()" using upsert_any(5) [OF w2] rid q by (cases b) auto
  with run w2
  have "run_state (publish (cd_pub d) ''request_failed'' (failed_payload rid (cd_plugin d) (err_text err))) w2 = ((), w')" and "res = Inr ()"
    by (auto simp: record_failure_def now_run split: prod.splits)
  with settled_quiet [OF q rid w1 _ _ w2 this(1)] same show ?thesis by simp
qed

lemma record_acknowledged_settles:
  fixes w v :: "'z world_scheme"
  assumes q: "quiet e" and rid: "rid \<noteq> []"
    and w1: "run_state (upsert_forwarded_request e (record_of rid [] ''submitted'' [] t)) w = (a, w1)"
    and same: "w_table v = w_table w1" "w_events v = w_events w"
    and run: "run_state (record_acknowledged e d rid m) v = (res, w')"
  shows "res = Inr () \<and> w_http w' = w_http v \<and>
    settled d rid w w' (ms_id m) ''acknowledged'' [] ''request_acknowledged'' (acknowledged_payload rid (ms_id m) (cd_plugin d))"
proof -
  let ?u = "v\<lparr>w_clock := Suc (w_clock v)\<rparr>"
  obtain b w2 where w2: "run_state (upsert_forwarded_request e (record_of rid (ms_id m) ''acknowledged'' [] (e_clock e (w_clock v)))) ?u = (b, w2)"
    by fastforce
  have "b = Inr ()" using upsert_any(5) [OF w2] rid q by (cases b) auto
  with run w2
  have "run_state (publish (cd_pub d) ''request_acknowledged'' (acknowledged_payload rid (ms_id m) (cd_plugin d))) w2 = ((), w')" and "res = Inr ()"
    by (auto simp: record_acknowledged_def now_run split: prod.splits)
  with settled_quiet [OF q rid w1 _ _ w2 this(1)] same show ?thesis by simp
qed

lemma reject_request_settles:
  fixes w v :: "'z world_scheme"
  assumes q: "quiet e" and rid: "rid \<noteq> []"
    and w1: "run_state (upsert_forwarded_request e (record_of rid [] ''submitted'' [] t)) w = (a, w1)"
    and same: "w_table v = w_table w1" "w_events v = w_events w"
    and run: "run_state (reject_request e d rid) v = (res, w')"
  shows "res = Inr () \<and> w_http w' = w_http v \<and>
    settled d rid w w' [] ''failed'' no_metadata ''request_failed'' (failed_payload rid (cd_plugin d) no_metadata)"
proof -
  let ?u = "v\<lparr>w_clock := Suc (w_clock v)\<rparr>"
  obtain b w2 where w2: "run_state (upsert_forwarded_request e (record_of rid [] ''failed'' no_metadata (e_clock e (w_clock v)))) ?u = (b, w2)"
    by fastforce
  from run w2
  have "run_state (publish (cd_pub d) ''request_failed'' (failed_payload rid (cd_plugin d) no_metadata)) w2 = ((), w')" and "res = Inr ()"
    by (auto simp: reject_request_def now_run split: prod.splits)
  with settled_quiet [OF q rid w1 _ _ w2 this(1)] same show ?thesis by simp
qed

lemma forward_quiet:
  fixes w :: "'z world_scheme"
  assumes q: "quiet e" and rid: "rid \<noteq> []" and run: "run_state (forward_request e d c cx rid mr) w = (res, w')"
  shows "res = Inr () \<and>
    (if mr_title mr = [] \<and> mr_isbn mr = []
     then w_http w' = w_http w \<and>
       settled d rid w w' [] ''failed'' no_metadata ''request_failed'' (failed_payload rid (cd_plugin d) no_metadata)
     else \<exists>acx (v :: 'z world_scheme) resp v'. run_state (add_monitoring e c acx mr) v = (resp, v') \<and>
       w_http v = w_http w \<and> w_http w' = w_http v' \<and>
       (\<exists>n u. cx_deadline acx = Some u \<and> u \<le> e_clock e n + 10 * second) \<and>
       (case resp of
          Inl err \<Rightarrow> settled d rid w w' [] ''failed'' (err_text err) ''request_failed''
            (failed_payload rid (cd_plugin d) (err_text err))
        | Inr m \<Rightarrow> settled d rid w w' (ms_id m) ''acknowledged'' [] ''request_acknowledged''
            (acknowledged_payload rid (ms_id m) (cd_plugin d))))"
proof -
  let ?w0 = "w\<lparr>w_clock := Suc (w_clock w)\<rparr>"
  obtain u w1 where up: "run_state (upsert_forwarded_request e (record_of rid [] ''submitted'' [] (e_clock e (w_clock w)))) ?w0 = (u, w1)"
    by fastforce
  from upsert_any [OF up] rid q
  have w1: "w_http w1 = w_http w" "w_events w1 = w_events w" "u = Inr ()"
    by (cases u; simp)+
  show ?thesis
  proof (cases "mr_title mr = [] \<and> mr_isbn mr = []")
    case True
    with run up w1 have "run_state (reject_request e d rid) w1 = (res, w')"
      by (simp add: forward_request_def now_run)
    from reject_request_settles [OF q rid up _ _ this] True w1 show ?thesis by (simp add: settled_def)
  next
    case False
    obtain acx v where ctx: "run_state (with_timeout e cx (10 * second)) w1 = (acx, v)" by fastforce
    from with_timeout_any [OF ctx] w1
    have v: "w_http v = w_http w" "w_events v = w_events w" "w_table v = w_table w1"
      and deadline: "\<exists>n u. cx_deadline acx = Some u \<and> u \<le> e_clock e n + 10 * second" by auto
    obtain resp v' where add: "run_state (add_monitoring e c acx mr) v = (resp, v')" by fastforce
    from upstream_only_add_monitoring [OF add] v
    have v': "w_events v' = w_events w" "w_table v' = w_table w1" by (auto simp: upstream_only_def)
    have rest: "run_state (case resp of Inl err \<Rightarrow> record_failure e d rid err | Inr m \<Rightarrow> record_acknowledged e d rid m) v' = (res, w')"
      using run up w1 ctx add False by (simp add: forward_request_def now_run)
    have "res = Inr () \<and> w_http w' = w_http v' \<and>
       (case resp of
          Inl err \<Rightarrow> settled d rid ?w0 w' [] ''failed'' (err_text err) ''request_failed''
            (failed_payload rid (cd_plugin d) (err_text err))
        | Inr m \<Rightarrow> settled d rid ?w0 w' (ms_id m) ''acknowledged'' [] ''request_acknowledged''
            (acknowledged_payload rid (ms_id m) (cd_plugin d)))"
      using record_failure_settles [OF q rid up, of v' d] record_acknowledged_settles [OF q rid up, of v' d] rest v'
      by (cases resp) auto
    then have "res = Inr ()" "w_http w' = w_http v'" and
      "case resp of
          Inl err \<Rightarrow> settled d rid w w' [] ''failed'' (err_text err) ''request_failed''
            (failed_payload rid (cd_plugin d) (err_text err))
        | Inr m \<Rightarrow> settled d rid w w' (ms_id m) ''acknowledged'' [] ''request_acknowledged''
            (acknowledged_payload rid (ms_id m) (cd_plugin d))"
      by (simp_all add: settled_def split: sum.splits)
    with v(1) add deadline show ?thesis unfolding if_not_P [OF False] by blast
  qed
qed

text \<open>Whatever branch was taken, one of two outcomes was recorded and published.\<close>

lemma forward_settles:
  fixes w :: "'z world_scheme"
  assumes "quiet e" and "rid \<noteq> []" and "run_state (forward_request e d c cx rid mr) w = (res, w')"
  obtains ext st err name pl where "res = Inr ()" "settled d rid w w' ext st err name pl"
    "st \<in> {''acknowledged'', ''failed''}" "name \<in> {''request_acknowledged'', ''request_failed''}"
proof (cases "mr_title mr = [] \<and> mr_isbn mr = []")
  case True
  from forward_quiet [OF assms, unfolded if_P [OF True]] show thesis by (auto intro: that)
next
  case False
  from forward_quiet [OF assms, unfolded if_not_P [OF False]] show thesis
  proof (elim conjE exE)
    fix resp assume "res = Inr ()" and
      "case resp of
         Inl err \<Rightarrow> settled d rid w w' [] ''failed'' (err_text err) ''request_failed''
           (failed_payload rid (cd_plugin d) (err_text err))
       | Inr m \<Rightarrow> settled d rid w w' (ms_id m) ''acknowledged'' [] ''request_acknowledged''
           (acknowledged_payload rid (ms_id m) (cd_plugin d))"
    then show thesis by (cases resp) (auto intro: that)
  qed
qed

section \<open>Properties\<close>

definition demo_deps :: consumer_deps where
  "demo_deps = \<lparr>cd_store = True, cd_pub = Some \<lparr>pub_host = True\<rparr>, cd_ebk = Some demo_client, cd_plugin = ''silo.ebook-requests''\<rparr>"

definition demo_payload :: payload where
  "demo_payload = [(''target_plugin_id'', JStr ''silo.ebook-requests''), (''request_id'', JStr ''r1''), (''title'', JStr ''Dune'')]"

definition demo_event :: event where
  "demo_event = \<lparr>ev_name = ''plugin.silo.ebooks.request_submitted'', ev_payload = Some demo_payload\<rparr>"

lemma demo_deps_simps [simp]:
  "cd_store demo_deps" "cd_ebk demo_deps = Some demo_client" "cd_plugin demo_deps = ''silo.ebook-requests''"
  "cd_pub demo_deps = Some \<lparr>pub_host = True\<rparr>"
  by (simp_all add: demo_deps_def)

lemma demo_event_facts:
  "target_plugin_id demo_payload = (''silo.ebook-requests'', True)" "request_id_of demo_payload = ''r1''"
  "mr_title (monitoring_of demo_payload) = ''Dune''"
  by (simp_all add: target_plugin_id_def trimmed_string_value_def trim_space_graphic graphic_def request_id_of_def
      get_string_def monitoring_of_def demo_payload_def)

lemma demo_event_addressed [simp]: "addressed demo_deps demo_event demo_payload"
  by (simp add: addressed_def demo_event_def demo_event_facts)

text \<open>Only events for this plugin matter. A configured handler acknowledges every event that
  is not a \<open>request_submitted\<close> with this plugin as its target and a request id, and such an
  event causes no database call, no upstream request and no event.\<close>

lemma consumer_ignores_foreign_events:
  assumes "cd_store d" and "cd_ebk d = Some c" and "\<nexists>p. addressed d ev p"
  shows "run_state (handle_event e (Some (Some d)) cx ev) w = (Inr (), w)"
  by (rule handle_event_cases [of e "Some (Some d)" cx ev w]) (use assms in auto)

text \<open>C16: no job without a row. In any environment, when the handler sent a request to the upstream
  it sent one, and the row of the event's request exists afterwards.\<close>

theorem no_orphan_job:
  assumes "run_state (handle_event e df cx ev) w = (res, w')"
  shows "w_http w' = w_http w \<or>
    (\<exists>q d p. w_http w' = w_http w @ [q] \<and> df = Some (Some d) \<and> addressed d ev p \<and>
       lookup (w_table w') (request_id_of p) \<noteq> None)"
proof (rule handle_event_cases [of e df cx ev w])
  fix d c p assume d: "df = Some (Some d)" "addressed d ev p"
    and fwd: "run_state (handle_event e df cx ev) w = run_state (forward_request e d c cx (request_id_of p) (monitoring_of p)) w"
  then have rid: "request_id_of p \<noteq> []" by (simp add: addressed_def)
  from fwd assms have "run_state (forward_request e d c cx (request_id_of p) (monitoring_of p)) w = (res, w')" by simp
  from forward_request_any [OF this rid] d show ?thesis
    by (auto simp: le_Suc_eq length_Suc_conv split: if_splits)
qed (use assms in auto)

theorem no_orphan_job_witness:
  "\<exists>w'. snd (run_state (handle_event (demo_env refused) (Some (Some demo_deps)) background demo_event) (demo_world [])) = w' \<and>
     (w_http w' = [] \<or> lookup (w_table w') ''r1'' \<noteq> None)"
proof -
  obtain res w' where run: "run_state (handle_event (demo_env refused) (Some (Some demo_deps)) background demo_event) (demo_world []) = (res, w')"
    by fastforce
  from no_orphan_job [OF run] show ?thesis
    using run by (auto simp: addressed_def demo_event_def demo_event_facts)
qed

text \<open>C23: when the handler asks for redelivery. A run that ends in an error published nothing, and
  either the plugin was not configured yet, and the run did nothing at all, or one of its first
  two database calls failed. A run that ends without one published at most one event.\<close>

theorem nack_means_unfinished:
  assumes "run_state (handle_event e df cx ev) w = (res, w')"
  shows "case res of
      Inl err \<Rightarrow> w_events w' = w_events w \<and>
        (w' = w \<and> (\<nexists>d c. df = Some (Some d) \<and> cd_store d \<and> cd_ebk d = Some c) \<or>
         db_failed e (length (w_db w)) \<or> db_failed e (Suc (length (w_db w))))
    | Inr _ \<Rightarrow> w' = w \<or> (\<exists>d p name pl. df = Some (Some d) \<and> addressed d ev p \<and>
        \<not> db_failed e (length (w_db w)) \<and> w_events w' = w_events w @ published d name pl)"
proof (rule handle_event_cases [of e df cx ev w])
  fix d c p assume d: "df = Some (Some d)" "addressed d ev p"
    and fwd: "run_state (handle_event e df cx ev) w = run_state (forward_request e d c cx (request_id_of p) (monitoring_of p)) w"
  then have rid: "request_id_of p \<noteq> []" by (simp add: addressed_def)
  from fwd assms have "run_state (forward_request e d c cx (request_id_of p) (monitoring_of p)) w = (res, w')" by simp
  from forward_request_any [OF this rid] d show ?thesis
    by (auto split: if_splits sum.splits)
qed (use assms in \<open>auto split: sum.splits\<close>)

theorem nack_means_unfinished_witness:
  "\<exists>err w'. run_state (handle_event (demo_env refused) None background demo_event) (demo_world []) = (Inl err, w') \<and>
     w_events w' = []"
proof -
  have run: "run_state (handle_event (demo_env refused) None background demo_event) (demo_world []) =
      (Inl (Err ''plugin not configured yet''), demo_world [])"
    by (simp add: handle_event_def demo_event_def)
  from nack_means_unfinished [OF run] run show ?thesis by simp
qed

text \<open>An event cannot revive or end a finished request. While the handler runs, with failures
  and statements of others at any point, the table stays well formed and a request that was
  imported or failed keeps that status, unless an admin acts on it.\<close>

lemma consumer_respects_terminal:
  fixes w :: "'z world_scheme"
  assumes "others_do (\<lambda>s. spares rid s \<and> wf_stmt s) e" and "wf_table (w_table w)"
    and "terminal st" and "status_held rid st (w_table w)"
  shows "status_held rid st (w_table (snd (run_state (handle_event e df cx ev) w))) \<and>
    wf_table (w_table (snd (run_state (handle_event e df cx ev) w)))"
proof -
  have "effect_of (on_table (\<lambda>s. spares rid s \<and> wf_stmt s)) (handle_event e df cx ev :: ('z, goerr + unit) io)"
    by (rule on_table_handle_event [OF assms(1)]) (simp add: spares_def wf_upsert_stmt)
  then have path: "table_path (\<lambda>s. spares rid s \<and> wf_stmt s) (w_table w) (w_table (snd (run_state (handle_event e df cx ev) w)))"
    by (simp add: effect_of_def on_table_def)
  show ?thesis
    using table_path_inv [OF path, of "status_held rid st"] table_path_wf [OF path] assms
    by (auto intro: spares_exec)
qed

text \<open>C15: what an addressed event leads to when the database answers. Without a title and an ISBN
  the request fails without an upstream call. Otherwise the upstream is asked once, under a
  deadline of at most ten seconds; an error fails the request and its text is both stored and
  published, an answer acknowledges the request under the upstream's id. The row obeys the
  terminal guard, no other row changes, and the event is acknowledged.\<close>

theorem consumer_outcome:
  fixes w :: "'z world_scheme"
  assumes "quiet e" and "cd_store d" and "cd_ebk d = Some c" and "addressed d ev p"
    and "run_state (handle_event e (Some (Some d)) cx ev) w = (res, w')"
  shows "res = Inr () \<and>
    (if mr_title (monitoring_of p) = [] \<and> mr_isbn (monitoring_of p) = []
     then w_http w' = w_http w \<and>
       settled d (request_id_of p) w w' [] ''failed'' no_metadata ''request_failed''
         (failed_payload (request_id_of p) (cd_plugin d) no_metadata)
     else \<exists>acx (v :: 'z world_scheme) resp v'. run_state (add_monitoring e c acx (monitoring_of p)) v = (resp, v') \<and>
       w_http v = w_http w \<and> w_http w' = w_http v' \<and>
       (\<exists>n u. cx_deadline acx = Some u \<and> u \<le> e_clock e n + 10 * second) \<and>
       (case resp of
          Inl err \<Rightarrow> settled d (request_id_of p) w w' [] ''failed'' (err_text err) ''request_failed''
            (failed_payload (request_id_of p) (cd_plugin d) (err_text err))
        | Inr m \<Rightarrow> settled d (request_id_of p) w w' (ms_id m) ''acknowledged'' [] ''request_acknowledged''
            (acknowledged_payload (request_id_of p) (ms_id m) (cd_plugin d))))"
proof -
  from assms(4) have rid: "request_id_of p \<noteq> []" by (simp add: addressed_def)
  from assms have "run_state (forward_request e d c cx (request_id_of p) (monitoring_of p)) w = (res, w')"
    by (simp add: handle_event_addressed)
  from forward_quiet [OF assms(1) rid this] show ?thesis .
qed

theorem consumer_outcome_witness:
  "fst (run_state (handle_event (demo_env refused) (Some (Some demo_deps)) background demo_event) (demo_world [])) = Inr ()"
proof -
  obtain res w' where run: "run_state (handle_event (demo_env refused) (Some (Some demo_deps)) background demo_event) (demo_world []) = (res, w')"
    by fastforce
  with consumer_outcome [of "demo_env refused" demo_deps demo_client demo_event demo_payload background "demo_world []" res w']
  show ?thesis by simp
qed

text \<open>C33: what a redelivered event does to a known request. A finished request keeps its status, but
  the outcome is published again. An open request loses its progress: whatever status the
  reconciler had recorded, it is acknowledged or failed afterwards.\<close>

theorem redelivery_effect:
  assumes "quiet e" and "cd_store d" and "cd_ebk d = Some c" and "addressed d ev p"
    and "lookup (w_table w) (request_id_of p) = Some x"
    and run: "run_state (handle_event e (Some (Some d)) cx ev) w = (res, w')"
  shows "\<exists>y name pl. lookup (w_table w') (request_id_of p) = Some y \<and>
    (if terminal (c_status x) then c_status y = c_status x else c_status y \<in> {''acknowledged'', ''failed''}) \<and>
    name \<in> {''request_acknowledged'', ''request_failed''} \<and> w_events w' = w_events w @ published d name pl"
proof -
  from assms(4) have rid: "request_id_of p \<noteq> []" by (simp add: addressed_def)
  from run assms have "run_state (forward_request e d c cx (request_id_of p) (monitoring_of p)) w = (res, w')"
    by (simp add: handle_event_addressed)
  from forward_settles [OF assms(1) rid this] obtain ext st err name pl where
    "settled d (request_id_of p) w w' ext st err name pl"
    "st \<in> {''acknowledged'', ''failed''}" "name \<in> {''request_acknowledged'', ''request_failed''}" .
  with assms(5) show ?thesis
    by (auto simp: settled_def outcome_row_def guard_status_def split: if_splits)
qed

theorem redelivery_effect_witness:
  "\<exists>y. lookup (w_table (snd (run_state (handle_event (demo_env refused) (Some (Some demo_deps)) background demo_event)
       (demo_world [demo_row\<lparr>c_status := ''downloading''\<rparr>])))) ''r1'' = Some y \<and>
     c_status y \<in> {''acknowledged'', ''failed''}"
proof -
  let ?w = "demo_world [demo_row\<lparr>c_status := ''downloading''\<rparr>]"
  obtain res w' where run: "run_state (handle_event (demo_env refused) (Some (Some demo_deps)) background demo_event) ?w = (res, w')"
    by fastforce
  have "lookup (w_table ?w) (request_id_of demo_payload) = Some (demo_row\<lparr>c_status := ''downloading''\<rparr>)"
    by (simp add: demo_event_facts lookup_Cons)
  from redelivery_effect [OF _ _ _ _ this run, of demo_client] run show ?thesis
    by (auto simp: demo_event_facts terminal_def)
qed

definition status_only :: string where
  "status_only = json_encode (JObj [(''status'', JStr ''queued'')])"

lemma status_only_decodes:
  "decode_monitoring e (limit_read max_response_bytes status_only) ''monitoring/add'' =
     Inr \<lparr>ms_id = [], ms_status = ''queued'', ms_book = []\<rparr>"
proof -
  have parse: "json_parse status_only = Some (JObj [(''status'', JStr ''queued'')])"
    and read: "limit_read max_response_bytes status_only = status_only" by code_simp+
  have "monitoring_fields (JObj [(''status'', JStr ''queued'')]) = Some ([], [], ''queued'', [])"
    by code_simp
  with parse read show ?thesis by (simp add: decode_monitoring_def)
qed

end
