(* ===== verification/Reconciler.thy ===== *)
theory Reconciler
  imports Event_Publisher Ebookdb_Client
begin

text \<open>
  \<open>internal/reconciler/reconciler.go\<close>: the scheduled task that polls the upstream for every open
  request. The reconciler's own memory (the lock of a running tick, the last status, the texts
  of the last errors and the back-off deadline) extends the world. \<open>tick\<close> is \<open>Tick\<close>, with its
  loop as \<open>tick_rows\<close> and the body of the loop as \<open>poll_row\<close>.
\<close>

section \<open>State\<close>

record tick_status =
  ts_last_run :: gotime
  ts_duration :: duration
  ts_rows :: int
  ts_error :: string
  ts_skipped :: bool

record rworld = world +
  rc_locked :: bool
  rc_status :: tick_status
  rc_last_error :: "string \<rightharpoonup> string"
  rc_backoff :: gotime

type_synonym ('z, 'a) rio = "('z rworld_scheme, 'a) state"

record reconciler_deps =
  rd_pub :: publisher
  rd_ebk :: client
  rd_plugin :: string

definition tick_timeout :: duration where "tick_timeout = 45 * second"
definition per_row_timeout :: duration where "per_row_timeout = 10 * second"

text \<open>\<open>New\<close>: the memory of a fresh reconciler.\<close>

definition no_status :: tick_status where
  "no_status = \<lparr>ts_last_run = 0, ts_duration = 0, ts_rows = 0, ts_error = [], ts_skipped = False\<rparr>"

definition new_reconciler :: "world \<Rightarrow> rworld" where
  "new_reconciler w = world.extend w \<lparr>rc_locked = False, rc_status = no_status, rc_last_error = Map.empty, rc_backoff = 0\<rparr>"

definition last_status :: "('z, tick_status) rio" where
  "last_status = State (\<lambda>w. (rc_status w, w))"

definition set_status :: "tick_status \<Rightarrow> ('z, unit) rio" where
  "set_status s = State (\<lambda>w. ((), w\<lparr>rc_status := s\<rparr>))"

definition record_error_changed :: "string \<Rightarrow> string \<Rightarrow> ('z, bool) rio" where
  "record_error_changed rid txt = State (\<lambda>w.
     if rc_last_error w rid = Some txt then (False, w)
     else (True, w\<lparr>rc_last_error := (rc_last_error w)(rid \<mapsto> txt)\<rparr>))"

definition clear_error :: "string \<Rightarrow> ('z, unit) rio" where
  "clear_error rid = State (\<lambda>w. ((), w\<lparr>rc_last_error := (rc_last_error w)(rid := None)\<rparr>))"

section \<open>Back-off\<close>

definition backoff_remaining :: "env \<Rightarrow> ('z, duration) rio" where
  "backoff_remaining e = do {
     u \<leftarrow> State (\<lambda>w. (rc_backoff w, w));
     if u = 0 then State_Monad.return 0
     else do {
       t \<leftarrow> now e;
       (let d = saturate (u - t)
        in if d \<le> 0 then do { _ \<leftarrow> State (\<lambda>w. ((), w\<lparr>rc_backoff := 0\<rparr>)); State_Monad.return 0 }
           else State_Monad.return d)
     }
   }"

definition backoff_time :: "duration \<Rightarrow> duration" where
  "backoff_time d0 =
     (let d = (if d0 \<le> 0 then 60 * second else d0)
      in if d > 10 * minute then 10 * minute else d)"

definition set_backoff :: "env \<Rightarrow> duration \<Rightarrow> ('z, unit) rio" where
  "set_backoff e d = do {
     t \<leftarrow> now e;
     State (\<lambda>w. ((), w\<lparr>rc_backoff := t + backoff_time d\<rparr>))
   }"

section \<open>One row\<close>

definition translate_status :: "string \<Rightarrow> string" where
  "translate_status s =
     (if s \<in> {''monitored'', ''searching'', ''searching_now''} then ''searching''
      else if s \<in> {''found'', ''found_pending''} then ''found''
      else if s \<in> {''grabbed'', ''downloading''} then ''downloading''
      else if s \<in> {''completed'', ''imported''} then ''imported''
      else if s \<in> {''failed'', ''not_found'', ''error''} then ''failed''
      else [])"

text \<open>\<open>if err != nil && firstErr == nil { firstErr = \<dots> }\<close>.\<close>

definition keep_first :: "goerr option \<Rightarrow> string \<Rightarrow> goerr + unit \<Rightarrow> goerr option" where
  "keep_first fe pre res =
     (case res of
        Inr _ \<Rightarrow> fe
      | Inl err \<Rightarrow> (case fe of None \<Rightarrow> Some (Wrapf pre err []) | Some _ \<Rightarrow> fe))"

text \<open>The upsert of both error branches, with its two readings of the clock.\<close>

definition error_record :: "forwarded_request \<Rightarrow> string \<Rightarrow> gotime \<Rightarrow> gotime \<Rightarrow> forwarded_request" where
  "error_record row txt t1 t2 =
     \<lparr>request_id = request_id row, external_id = external_id row, status = status row,
      last_polled = t1, error_text = txt, created_at = 0, updated_at = t2\<rparr>"

definition save_error :: "env \<Rightarrow> forwarded_request \<Rightarrow> string \<Rightarrow> ('z, goerr + unit) io" where
  "save_error e row txt = do {
     t1 \<leftarrow> now e;
     t2 \<leftarrow> now e;
     upsert_forwarded_request e (error_record row txt t1 t2)
   }"

definition ids_payload :: "reconciler_deps \<Rightarrow> forwarded_request \<Rightarrow> payload" where
  "ids_payload d row =
     [(''request_id'', JStr (request_id row)), (''requestId'', JStr (request_id row)),
      (''external_id'', JStr (external_id row)), (''provider_plugin_id'', JStr (rd_plugin d))]"

definition transition_event :: "reconciler_deps \<Rightarrow> forwarded_request \<Rightarrow> string \<Rightarrow> string \<Rightarrow> string \<times> payload" where
  "transition_event d row st book =
     (if st = ''imported'' then (''request_fulfilled'', ids_payload d row @ [(''fulfilled_book_id'', JStr book)])
      else if st = ''failed'' then (''request_failed'', ids_payload d row @ [(''reason'', JStr ''upstream marked failed'')])
      else (''request_status_changed'', ids_payload d row @ [(''status'', JStr st)]))"

text \<open>The first error so far, and whether the loop breaks.\<close>

definition poll_failed ::
  "env \<Rightarrow> goerr option \<Rightarrow> forwarded_request \<Rightarrow> goerr \<Rightarrow> ('z, goerr option \<times> bool) rio" where
  "poll_failed e fe row err =
     (case is_rate_limited err of
        Some (ra, _) \<Rightarrow> do {
          _ \<leftarrow> set_backoff e ra;
          changed \<leftarrow> record_error_changed (request_id row) (err_text err);
          _ \<leftarrow> (if changed then do { _ \<leftarrow> save_error e row (err_text err); State_Monad.return () }
               else State_Monad.return ());
          State_Monad.return ((case fe of None \<Rightarrow> Some err | Some _ \<Rightarrow> fe), True)
        }
      | None \<Rightarrow> do {
          changed \<leftarrow> record_error_changed (request_id row) (err_text err);
          (if \<not> changed then State_Monad.return (fe, False)
           else do {
             res \<leftarrow> save_error e row (err_text err);
             State_Monad.return (keep_first fe ''upsert (after upstream err): '' res, False)
           })
        })"

definition poll_answered ::
  "env \<Rightarrow> reconciler_deps \<Rightarrow> goerr option \<Rightarrow> forwarded_request \<Rightarrow> monitoring_response \<Rightarrow> ('z, goerr option \<times> bool) rio" where
  "poll_answered e d fe row snap = do {
     _ \<leftarrow> clear_error (request_id row);
     let st = translate_status (ms_status snap) in
     if st = [] \<or> st = status row then do {
       t \<leftarrow> now e;
       res \<leftarrow> mark_polled e (request_id row) (external_id row) (status row) t;
       State_Monad.return (keep_first fe ''mark polled (no transition): '' res, False)
     } else do {
       t \<leftarrow> now e;
       res \<leftarrow> mark_polled e (request_id row) (external_id row) st t;
       _ \<leftarrow> (if st = ''imported'' \<or> st = ''failed'' then clear_error (request_id row) else State_Monad.return ());
       _ \<leftarrow> publish_event (rd_pub d) (fst (transition_event d row st (ms_book snap)))
              (snd (transition_event d row st (ms_book snap)));
       State_Monad.return (keep_first fe ''mark polled (status change): '' res, False)
     }
   }"

definition poll_row ::
  "env \<Rightarrow> reconciler_deps \<Rightarrow> ctx \<Rightarrow> goerr option \<Rightarrow> forwarded_request \<Rightarrow> ('z, goerr option \<times> bool) rio" where
  "poll_row e d cx fe row = do {
     rcx \<leftarrow> with_timeout e cx per_row_timeout;
     snap \<leftarrow> get_monitoring e (rd_ebk d) rcx (external_id row);
     (case snap of Inl err \<Rightarrow> poll_failed e fe row err | Inr m \<Rightarrow> poll_answered e d fe row m)
   }"

section \<open>The tick\<close>

primrec tick_rows ::
  "env \<Rightarrow> reconciler_deps \<Rightarrow> ctx \<Rightarrow> goerr option \<Rightarrow> forwarded_request list \<Rightarrow> ('z, goerr option) rio" where
  "tick_rows e d cx fe [] = State_Monad.return fe"
| "tick_rows e d cx fe (row # rows) = do {
     stop \<leftarrow> ctx_done e cx;
     if stop then State_Monad.return fe
     else if external_id row = [] then tick_rows e d cx fe rows
     else do {
       r \<leftarrow> poll_row e d cx fe row;
       if snd r then State_Monad.return (fst r) else tick_rows e d cx (fst r) rows
     }
   }"

text \<open>\<open>time.Since\<close>.\<close>

definition since :: "env \<Rightarrow> gotime \<Rightarrow> ('z, duration) io" where
  "since e start = do { t \<leftarrow> now e; State_Monad.return (saturate (t - start)) }"

definition tick_locked :: "env \<Rightarrow> reconciler_deps \<Rightarrow> ctx \<Rightarrow> ('z, goerr option) rio" where
  "tick_locked e d cx0 = do {
     remain \<leftarrow> backoff_remaining e;
     if remain > 0 then do {
       t \<leftarrow> now e;
       _ \<leftarrow> set_status \<lparr>ts_last_run = t, ts_duration = 0, ts_rows = 0,
              ts_error = ''backoff: upstream rate-limited, '' @ duration_string (round_to remain second) @ '' remaining'',
              ts_skipped = True\<rparr>;
       State_Monad.return None
     } else do {
       start \<leftarrow> now e;
       cx \<leftarrow> with_timeout e cx0 tick_timeout;
       r \<leftarrow> list_non_terminal e 200;
       (case r of
          Inl err \<Rightarrow> do {
            t \<leftarrow> now e;
            dur \<leftarrow> since e start;
            _ \<leftarrow> set_status \<lparr>ts_last_run = t, ts_duration = dur, ts_rows = 0, ts_error = err_text err, ts_skipped = False\<rparr>;
            State_Monad.return (Some err)
          }
        | Inr rows \<Rightarrow> do {
            fe \<leftarrow> tick_rows e d cx None rows;
            t \<leftarrow> now e;
            dur \<leftarrow> since e start;
            _ \<leftarrow> set_status \<lparr>ts_last_run = t, ts_duration = dur, ts_rows = int (length rows),
                   ts_error = (case fe of None \<Rightarrow> [] | Some err \<Rightarrow> err_text err), ts_skipped = False\<rparr>;
            State_Monad.return fe
          })
     }
   }"

definition try_lock :: "('z, bool) rio" where
  "try_lock = State (\<lambda>w. if rc_locked w then (False, w) else (True, w\<lparr>rc_locked := True\<rparr>))"

definition unlock :: "('z, unit) rio" where
  "unlock = State (\<lambda>w. ((), w\<lparr>rc_locked := False\<rparr>))"

definition tick :: "env \<Rightarrow> reconciler_deps \<Rightarrow> ctx \<Rightarrow> ('z, goerr option) rio" where
  "tick e d cx = do {
     ok \<leftarrow> try_lock;
     if \<not> ok then do {
       t \<leftarrow> now e;
       _ \<leftarrow> set_status \<lparr>ts_last_run = t, ts_duration = 0, ts_rows = 0, ts_error = [], ts_skipped = True\<rparr>;
       State_Monad.return None
     } else do {
       res \<leftarrow> tick_locked e d cx;
       _ \<leftarrow> unlock;
       State_Monad.return res
     }
   }"

section \<open>What the parts of a tick do\<close>

text \<open>\<open>calm\<close>: no request is sent, and the lock and the back-off stay.\<close>

definition calm :: "'z rworld_scheme \<Rightarrow> 'z rworld_scheme \<Rightarrow> bool" where
  "calm w w' \<longleftrightarrow> w_http w' = w_http w \<and> rc_locked w' = rc_locked w \<and> rc_backoff w' = rc_backoff w"

interpretation calm_effect: effect calm
  by unfold_locales (auto simp: calm_def)

lemma same_memory:
  "world.more w' = world.more w \<Longrightarrow>
   rc_locked w' = rc_locked w \<and> rc_backoff w' = rc_backoff w \<and> rc_last_error w' = rc_last_error w \<and> rc_status w' = rc_status w"
  by (cases w; cases w') simp

lemma backend_calm: "effect_of backend_only m \<Longrightarrow> effect_of calm m"
  by (erule effect_of_mono) (auto simp: backend_only_def calm_def dest: same_memory)

lemma calm_memory [effect_intros]:
  "effect_of calm (set_status s)" "effect_of calm (record_error_changed rid txt)" "effect_of calm (clear_error rid)"
  by (rule effect_ofI, simp add: set_status_def record_error_changed_def clear_error_def calm_def)+

lemma calm_publish [effect_intros]: "effect_of calm (publish_event p name pl)"
  by (rule effect_ofI) (simp add: publish_event_run calm_def)

lemma backend_only_save_error [effect_intros]: "effect_of backend_only (save_error e row txt)"
  unfolding save_error_def by (intro backend_effect.effect_rules effect_intros)

lemmas calm_backend [effect_intros] =
  backend_calm [OF backend_only_now] backend_calm [OF backend_only_store(3)] backend_calm [OF backend_only_save_error]
  backend_calm [OF backend_only_with_timeout] backend_calm [OF backend_only_ctx_done]

lemma calm_poll_answered: "effect_of calm (poll_answered e d fe row snap)"
  unfolding poll_answered_def Let_def by (intro calm_effect.effect_rules effect_intros)

lemma calmD: "effect_of calm m \<Longrightarrow> run_state m w = (a, w') \<Longrightarrow>
    w_http w' = w_http w \<and> rc_locked w' = rc_locked w \<and> rc_backoff w' = rc_backoff w"
  by (drule (1) effect_ofD) (simp add: calm_def)

lemma backendD: "effect_of backend_only m \<Longrightarrow> run_state m w = (a, w') \<Longrightarrow>
    w_http w' = w_http w \<and> w_events w' = w_events w \<and> world.more w' = world.more w"
  by (drule (1) effect_ofD) (simp add: backend_only_def)

text \<open>A deadline of at most ten minutes from some reading of the clock.\<close>

definition parked :: "env \<Rightarrow> 'z rworld_scheme \<Rightarrow> bool" where
  "parked e w \<longleftrightarrow> (\<exists>n d. 0 < d \<and> d \<le> 10 * minute \<and> rc_backoff w = e_clock e n + d)"

lemma backoff_time_bounds: "0 < backoff_time d" "backoff_time d \<le> 10 * minute"
  by (auto simp: backoff_time_def minute_def second_def)

text \<open>The transitions a tick announces: the row, the new status and the book.\<close>

definition announces :: "reconciler_deps \<Rightarrow> forwarded_request \<times> string \<times> string \<Rightarrow> string \<times> payload" where
  "announces d t = (case t of (row, st, book) \<Rightarrow> transition_event d row st book)"

definition transition :: "forwarded_request \<times> string \<times> string \<Rightarrow> bool" where
  "transition t \<longleftrightarrow> (case t of (row, st, book) \<Rightarrow> st \<noteq> [] \<and> st \<noteq> status row \<and> (\<exists>u. st = translate_status u))"

definition row_url :: "reconciler_deps \<Rightarrow> forwarded_request \<Rightarrow> string" where
  "row_url d row = cl_base (rd_ebk d) @ ''/api/v1/monitoring/'' @ path_escape (external_id row)"

lemma poll_answered_any:
  assumes run: "run_state (poll_answered e d fe row snap) w = (r, w')"
  shows "\<not> snd r" and "fe \<noteq> None \<Longrightarrow> fst r \<noteq> None"
    and "\<exists>ts. w_events w' = w_events w @ map (announces d) ts \<and> subseq (map fst ts) [row] \<and> list_all transition ts"
proof -
  let ?st = "translate_status (ms_status snap)"
  let ?w0 = "w\<lparr>rc_last_error := (rc_last_error w)(request_id row := None), w_clock := Suc (w_clock w)\<rparr>"
  obtain res w1 where mark: "run_state (mark_polled e (request_id row) (external_id row)
      (if ?st = [] \<or> ?st = status row then status row else ?st) (e_clock e (w_clock w))) ?w0 = (res, w1)"
    by fastforce
  from backendD [OF backend_only_store(3) mark] have ev: "w_events w1 = w_events w" by simp
  have keep: "fe \<noteq> None \<Longrightarrow> keep_first fe pre res \<noteq> None" for pre
    by (auto simp: keep_first_def split: sum.splits option.splits)
  have "\<not> snd r \<and> (fe \<noteq> None \<longrightarrow> fst r \<noteq> None) \<and> (w_events w' = w_events w \<or>
     \<not> (?st = [] \<or> ?st = status row) \<and> w_events w' = w_events w @ [transition_event d row ?st (ms_book snap)])"
    using run mark ev keep
    by (auto simp: poll_answered_def Let_def clear_error_def now_run publish_event_run split: if_splits prod.splits)
  moreover have "transition (row, ?st, ms_book snap)" if "\<not> (?st = [] \<or> ?st = status row)"
    using that by (auto simp: transition_def)
  ultimately show "\<not> snd r" and "fe \<noteq> None \<Longrightarrow> fst r \<noteq> None"
    and "\<exists>ts. w_events w' = w_events w @ map (announces d) ts \<and> subseq (map fst ts) [row] \<and> list_all transition ts"
    by (auto intro: exI [of _ "[]"] exI [of _ "[(row, ?st, ms_book snap)]"] simp: announces_def)
qed

lemma poll_failed_any:
  fixes w :: "'z rworld_scheme"
  assumes run: "run_state (poll_failed e fe row err) w = (r, w')"
  shows "w_http w' = w_http w" "w_events w' = w_events w" "rc_locked w' = rc_locked w" "fe \<noteq> None \<Longrightarrow> fst r \<noteq> None"
    "snd r \<longleftrightarrow> is_rate_limited err \<noteq> None"
    "snd r \<Longrightarrow> parked e w' \<and> fst r \<noteq> None" "\<not> snd r \<Longrightarrow> rc_backoff w' = rc_backoff w"
proof -
  have keep: "fe \<noteq> None \<Longrightarrow> keep_first fe pre res \<noteq> None" for pre res
    by (auto simp: keep_first_def split: sum.splits option.splits)
  have save: "w_http v' = w_http v \<and> w_events v' = w_events v \<and> rc_locked v' = rc_locked v \<and> rc_backoff v' = rc_backoff v"
    if "run_state (save_error e row msg) v = (x, v')" for v v' :: "'z rworld_scheme" and msg x
    using backendD [OF backend_only_save_error that] same_memory by blast
  have "w_http w' = w_http w \<and> w_events w' = w_events w \<and> rc_locked w' = rc_locked w \<and> (fe \<noteq> None \<longrightarrow> fst r \<noteq> None) \<and>
    (case is_rate_limited err of
       None \<Rightarrow> \<not> snd r \<and> rc_backoff w' = rc_backoff w
     | Some (ra, b) \<Rightarrow> snd r \<and> fst r \<noteq> None \<and> rc_backoff w' = e_clock e (w_clock w) + backoff_time ra)"
    using run save keep
    by (auto simp: poll_failed_def record_error_changed_def set_backoff_def now_run
        split: option.splits if_splits prod.splits; fastforce)
  then show "w_http w' = w_http w" "w_events w' = w_events w" "rc_locked w' = rc_locked w" "fe \<noteq> None \<Longrightarrow> fst r \<noteq> None"
    "snd r \<longleftrightarrow> is_rate_limited err \<noteq> None"
    "snd r \<Longrightarrow> parked e w' \<and> fst r \<noteq> None" "\<not> snd r \<Longrightarrow> rc_backoff w' = rc_backoff w"
    using backoff_time_bounds by (auto simp: parked_def split: option.splits)
qed

lemma poll_row_any:
  fixes w :: "'z rworld_scheme"
  assumes run: "run_state (poll_row e d cx fe row) w = (r, w')"
  shows "\<exists>qs ts. w_http w' = w_http w @ qs \<and> subseq (map rq_url qs) [row_url d row] \<and>
      (snd r \<longleftrightarrow> (\<exists>q. qs = [q] \<and> answered_429 e (length (w_http w)) q)) \<and>
      w_events w' = w_events w @ map (announces d) ts \<and> subseq (map fst ts) [row] \<and> list_all transition ts"
    and "rc_locked w' = rc_locked w" and "fe \<noteq> None \<Longrightarrow> fst r \<noteq> None"
    and "snd r \<Longrightarrow> parked e w' \<and> fst r \<noteq> None" and "\<not> snd r \<Longrightarrow> rc_backoff w' = rc_backoff w"
proof -
  obtain rcx w1 where ctx: "run_state (with_timeout e cx per_row_timeout) w = (rcx, w1)" by fastforce
  obtain snap w2 where get: "run_state (get_monitoring e (rd_ebk d) rcx (external_id row)) w1 = (snap, w2)" by fastforce
  have rest: "run_state (case snap of Inl err \<Rightarrow> poll_failed e fe row err | Inr m \<Rightarrow> poll_answered e d fe row m) w2 = (r, w')"
    using run ctx get by (simp add: poll_row_def)
  have w1: "w_http w1 = w_http w" "w_events w1 = w_events w" "rc_locked w1 = rc_locked w" "rc_backoff w1 = rc_backoff w"
    using with_timeout_any(1) [OF ctx] by simp_all
  have w2: "w_events w2 = w_events w" "rc_locked w2 = rc_locked w" "rc_backoff w2 = rc_backoff w"
    using upstream_only_get_monitoring [OF get] w1 same_memory [of w2 w1] by (auto simp: upstream_only_def)
  have sent: "\<exists>qs. w_http w2 = w_http w @ qs \<and> subseq (map rq_url qs) [row_url d row] \<and>
      ((\<exists>err. snap = Inl err \<and> is_rate_limited err \<noteq> None) \<longleftrightarrow> (\<exists>q. qs = [q] \<and> answered_429 e (length (w_http w)) q))"
    using get
  proof (rule get_monitoring_any)
    fix err assume "w_http w2 = w_http w1" "snap = Inl err" "is_rate_limited err = None"
    then show ?thesis using w1 by (intro exI [of _ "[]"]) simp
  next
    fix q assume "w_http w2 = w_http w1 @ [q]" "rq_url q = cl_base (rd_ebk d) @ ''/api/v1/monitoring/'' @ path_escape (external_id row)"
      "(\<exists>err. snap = Inl err \<and> is_rate_limited err \<noteq> None) \<longleftrightarrow> answered_429 e (length (w_http w1)) q"
    then show ?thesis using w1 by (intro exI [of _ "[q]"]) (simp add: row_url_def)
  qed
  have "w_http w' = w_http w2 \<and> rc_locked w' = rc_locked w \<and> (fe \<noteq> None \<longrightarrow> fst r \<noteq> None) \<and>
      (snd r \<longleftrightarrow> (\<exists>err. snap = Inl err \<and> is_rate_limited err \<noteq> None)) \<and>
      (snd r \<longrightarrow> parked e w' \<and> fst r \<noteq> None) \<and> (\<not> snd r \<longrightarrow> rc_backoff w' = rc_backoff w) \<and>
      (\<exists>ts. w_events w' = w_events w @ map (announces d) ts \<and> subseq (map fst ts) [row] \<and> list_all transition ts)"
  proof (cases snap)
    case (Inl err)
    with rest have "run_state (poll_failed e fe row err) w2 = (r, w')" by simp
    from poll_failed_any [OF this] Inl w2 show ?thesis
      by (auto intro: exI [of _ "[]"])
  next
    case (Inr m)
    with rest have ans: "run_state (poll_answered e d fe row m) w2 = (r, w')" by simp
    from poll_answered_any [OF this] calmD [OF calm_poll_answered ans] Inr w2 show ?thesis by auto
  qed
  with sent show "\<exists>qs ts. w_http w' = w_http w @ qs \<and> subseq (map rq_url qs) [row_url d row] \<and>
      (snd r \<longleftrightarrow> (\<exists>q. qs = [q] \<and> answered_429 e (length (w_http w)) q)) \<and>
      w_events w' = w_events w @ map (announces d) ts \<and> subseq (map fst ts) [row] \<and> list_all transition ts"
    and "rc_locked w' = rc_locked w" and "fe \<noteq> None \<Longrightarrow> fst r \<noteq> None"
    and "snd r \<Longrightarrow> parked e w' \<and> fst r \<noteq> None" and "\<not> snd r \<Longrightarrow> rc_backoff w' = rc_backoff w"
    by auto
qed

text \<open>
  The loop: the requests it sent and the transitions it announced, in the order of the rows and
  at most one of each per row. A rate-limited answer is the last thing it asks for.
\<close>

definition pollable :: "forwarded_request list \<Rightarrow> forwarded_request list" where
  "pollable rows = filter (\<lambda>r. external_id r \<noteq> []) rows"

definition loop_outcome ::
  "env \<Rightarrow> reconciler_deps \<Rightarrow> forwarded_request list \<Rightarrow> goerr option \<Rightarrow> 'z rworld_scheme \<Rightarrow> 'z rworld_scheme \<Rightarrow> bool" where
  "loop_outcome e d rows res w w' \<longleftrightarrow> (\<exists>qs ts.
     w_http w' = w_http w @ qs \<and> subseq (map rq_url qs) (map (row_url d) (pollable rows)) \<and>
     w_events w' = w_events w @ map (announces d) ts \<and> subseq (map fst ts) (pollable rows) \<and> list_all transition ts \<and>
     (\<forall>k < length qs. answered_429 e (length (w_http w) + k) (qs ! k) \<longrightarrow>
        Suc k = length qs \<and> parked e w' \<and> res \<noteq> None))"

text \<open>One row, then the rest of the loop.\<close>

definition row_outcome ::
  "env \<Rightarrow> reconciler_deps \<Rightarrow> forwarded_request \<Rightarrow> bool \<Rightarrow> 'z rworld_scheme \<Rightarrow> 'z rworld_scheme \<Rightarrow> bool" where
  "row_outcome e d row brk w w' \<longleftrightarrow> (\<exists>qs ts. w_http w' = w_http w @ qs \<and> subseq (map rq_url qs) [row_url d row] \<and>
     (brk \<longleftrightarrow> (\<exists>q. qs = [q] \<and> answered_429 e (length (w_http w)) q)) \<and>
     w_events w' = w_events w @ map (announces d) ts \<and> subseq (map fst ts) [row] \<and> list_all transition ts)"

lemma loop_outcome_stop:
  assumes one: "row_outcome e d row True w w'" and "external_id row \<noteq> []" and "parked e w'" and "res \<noteq> None"
  shows "loop_outcome e d (row # rows) res w w'"
proof -
  from one obtain qs ts where qs: "w_http w' = w_http w @ qs" "subseq (map rq_url qs) [row_url d row]" "\<exists>q. qs = [q]"
    "w_events w' = w_events w @ map (announces d) ts" "subseq (map fst ts) [row]" "list_all transition ts"
    by (auto simp: row_outcome_def)
  have "subseq (map rq_url qs) (map (row_url d) (pollable (row # rows)))" "subseq (map fst ts) (pollable (row # rows))"
    using list_emb_append_mono [OF qs(2) list_emb_Nil] list_emb_append_mono [OF qs(5) list_emb_Nil] assms(2)
    by (simp_all add: pollable_def)
  with qs assms(3,4) show ?thesis
    unfolding loop_outcome_def by (intro exI [of _ qs] exI [of _ ts]) auto
qed

lemma loop_outcome_next:
  assumes one: "row_outcome e d row False w v" and ext: "external_id row \<noteq> []" and more: "loop_outcome e d rows res v w'"
  shows "loop_outcome e d (row # rows) res w w'"
proof -
  from one obtain qs ts where qs: "w_http v = w_http w @ qs" "subseq (map rq_url qs) [row_url d row]"
    "\<nexists>q. qs = [q] \<and> answered_429 e (length (w_http w)) q"
    "w_events v = w_events w @ map (announces d) ts" "subseq (map fst ts) [row]" "list_all transition ts"
    by (auto simp: row_outcome_def)
  from more obtain qs' ts' where qs': "w_http w' = w_http v @ qs'"
    "subseq (map rq_url qs') (map (row_url d) (pollable rows))"
    "w_events w' = w_events v @ map (announces d) ts'" "subseq (map fst ts') (pollable rows)" "list_all transition ts'"
    "\<And>k. k < length qs' \<Longrightarrow> answered_429 e (length (w_http v) + k) (qs' ! k) \<Longrightarrow>
       Suc k = length qs' \<and> parked e w' \<and> res \<noteq> None"
    by (auto simp: loop_outcome_def)
  have sub: "subseq (map rq_url (qs @ qs')) (map (row_url d) (pollable (row # rows)))"
    "subseq (map fst (ts @ ts')) (pollable (row # rows))"
    using list_emb_append_mono [OF qs(2) qs'(2)] list_emb_append_mono [OF qs(5) qs'(4)] ext
    by (simp_all add: pollable_def)
  have last: "Suc k = length (qs @ qs') \<and> parked e w' \<and> res \<noteq> None"
    if k: "k < length (qs @ qs')" "answered_429 e (length (w_http w) + k) ((qs @ qs') ! k)" for k
  proof (cases "k < length qs")
    case True
    moreover have "length qs \<le> 1" using list_emb_length [OF qs(2)] by simp
    ultimately have "k = 0" "\<exists>q. qs = [q]" by (auto simp: le_Suc_eq length_Suc_conv)
    with k qs(3) show ?thesis by auto
  next
    case False
    with k qs'(6) [of "k - length qs"] qs(1)
    have "Suc (k - length qs) = length qs' \<and> parked e w' \<and> res \<noteq> None" by (simp add: nth_append)
    with False show ?thesis by auto
  qed
  show ?thesis
    unfolding loop_outcome_def using qs qs' sub last
    by (intro exI [of _ "qs @ qs'"] exI [of _ "ts @ ts'"]) auto
qed

lemma tick_rows_any:
  fixes w :: "'z rworld_scheme"
  shows "run_state (tick_rows e d cx fe rows) w = (res, w') \<Longrightarrow>
    loop_outcome e d rows res w w' \<and> rc_locked w' = rc_locked w \<and> (fe \<noteq> None \<longrightarrow> res \<noteq> None)"
proof (induction rows arbitrary: fe w)
  case Nil
  then show ?case by (auto simp: loop_outcome_def pollable_def intro!: exI [of _ "[]"])
next
  case (Cons row rows)
  obtain stop w1 where stop: "run_state (ctx_done e cx) w = (stop, w1)" by fastforce
  have w1: "w_http w1 = w_http w" "w_events w1 = w_events w" "rc_locked w1 = rc_locked w"
    using backendD [OF backend_only_ctx_done stop] same_memory by blast+
  consider (stop) stop | (skip) "\<not> stop" "external_id row = []" | (poll) "\<not> stop" "external_id row \<noteq> []" by blast
  then show ?case
  proof cases
    case stop
    with Cons.prems \<open>run_state (ctx_done e cx) w = (stop, w1)\<close> w1 show ?thesis
      by (auto simp: loop_outcome_def intro!: exI [of _ "[]"])
  next
    case skip
    with Cons.prems stop have "run_state (tick_rows e d cx fe rows) w1 = (res, w')" by simp
    from Cons.IH [OF this] w1 skip show ?thesis by (simp add: loop_outcome_def pollable_def)
  next
    case poll
    obtain r w2 where run: "run_state (poll_row e d cx fe row) w1 = (r, w2)" by fastforce
    note any = poll_row_any [OF run]
    have one: "row_outcome e d row (snd r) w w2" using any(1) w1 by (simp add: row_outcome_def)
    show ?thesis
    proof (cases "snd r")
      case True
      with Cons.prems stop poll run have "res = fst r" "w' = w2" by simp_all
      with True one any w1 poll loop_outcome_stop [of e d row w w2 res rows] show ?thesis by simp
    next
      case False
      with Cons.prems stop poll run have "run_state (tick_rows e d cx (fst r) rows) w2 = (res, w')" by simp
      from Cons.IH [OF this] False one any w1 poll loop_outcome_next [of e d row w w2 rows res w']
      show ?thesis by simp
    qed
  qed
qed

section \<open>The ways a tick ends\<close>

lemma saturate_pos: "0 < saturate d \<longleftrightarrow> 0 < d"
  by (auto simp: saturate_def)

text \<open>A tick that finds another one running, or the back-off deadline ahead, does nothing: only
  the status snapshot and the clock move.\<close>

definition idle :: "'z rworld_scheme \<Rightarrow> 'z rworld_scheme \<Rightarrow> bool" where
  "idle w w' \<longleftrightarrow> w_table w' = w_table w \<and> w_db w' = w_db w \<and> w_http w' = w_http w \<and> w_events w' = w_events w \<and>
     rc_locked w' = rc_locked w \<and> rc_backoff w' = rc_backoff w \<and> rc_last_error w' = rc_last_error w"

lemma tick_skips:
  assumes "run_state (tick e d cx) w = (res, w')"
    and "rc_locked w \<or> rc_backoff w \<noteq> 0 \<and> e_clock e (w_clock w) < rc_backoff w"
  shows "res = None \<and> idle w w' \<and> ts_skipped (rc_status w')"
proof (cases "rc_locked w")
  case True
  with assms(1) show ?thesis
    by (auto simp: tick_def try_lock_def now_run set_status_def idle_def)
next
  case False
  then have "0 < saturate (rc_backoff w - e_clock e (w_clock w))" "rc_backoff w \<noteq> 0"
    using assms(2) by (simp_all add: saturate_pos)
  with assms(1) False show ?thesis
    by (auto simp: tick_def try_lock_def unlock_def tick_locked_def backoff_remaining_def Let_def now_run
        set_status_def idle_def)
qed

lemma list_non_terminal_any:
  assumes "run_state (list_non_terminal e n) w = (res, w')"
  obtains (failed) err where "res = Inl err" "db_failed e (length (w_db w))"
      "w_table w' = run_stmts (e_others e (length (w_db w))) (w_table w)"
  | (listed) rows m where "res = Inr (map (scan_row (e_null_time e)) rows)"
      "rows = take m (select_non_terminal (e_null_time e) (e_collate e) (nat (if n \<le> 0 then 100 else n)) (w_table w'))"
      "w_table w' = run_stmts (e_others e (length (w_db w))) (w_table w)"
proof (cases "e_db e (length (w_db w))")
  case DbOk
  with assms listed [of _ "length (select_non_terminal (e_null_time e) (e_collate e) (nat (if n \<le> 0 then 100 else n)) (w_table w'))"]
  show thesis by (auto simp: list_non_terminal_def db_query_def Let_def)
next
  case (DbCut m msg)
  with assms listed [of _ m] show thesis by (auto simp: list_non_terminal_def db_query_def Let_def take_map)
qed (use assms failed in \<open>auto simp: list_non_terminal_def db_query_def Let_def db_failed_def\<close>)

lemma backoff_remaining_any:
  assumes "run_state (backoff_remaining e) w = (r, v)" and "\<not> 0 < r"
  shows "\<exists>n. v = w\<lparr>rc_backoff := 0, w_clock := n\<rparr>"
  using assms
  by (cases w; cases "rc_backoff w = 0") (auto simp: backoff_remaining_def Let_def now_run split: if_splits)

lemma tick_cases:
  fixes w :: "'z rworld_scheme"
  assumes run: "run_state (tick e d cx) w = (res, w')"
  obtains (skipped) "res = None" "idle w w'" "ts_skipped (rc_status w')" "rc_locked w \<or> rc_backoff w \<noteq> 0"
  | (unlisted) err where "res = Some err" "\<not> rc_locked w" "\<not> rc_locked w'" "w_http w' = w_http w" "w_events w' = w_events w"
      "ts_error (rc_status w') = err_text err" "db_failed e (length (w_db w))"
      "w_table w' = run_stmts (e_others e (length (w_db w))) (w_table w)"
  | (ran) v v1 v2 :: "'z rworld_scheme" and rows tcx where "\<not> rc_locked w" "\<not> rc_locked w'"
      "w_table v = w_table w" "w_db v = w_db w" "w_http v = w_http w" "w_events v = w_events w"
      "rc_last_error v = rc_last_error w" "rc_backoff v = 0"
      "run_state (list_non_terminal e 200) v = (Inr rows, v1)"
      "run_state (tick_rows e d tcx None rows) v1 = (res, v2)"
      "\<exists>n u. cx_deadline tcx = Some u \<and> u \<le> e_clock e n + tick_timeout"
      "cx_deadline cx = None \<Longrightarrow> \<exists>n. cx_deadline tcx = Some (e_clock e n + tick_timeout)"
      "w_table w' = w_table v2" "w_http w' = w_http v2" "w_events w' = w_events v2" "w_db w' = w_db v2"
      "rc_backoff w' = rc_backoff v2" "rc_last_error w' = rc_last_error v2"
      "ts_rows (rc_status w') = int (length rows)"
      "ts_error (rc_status w') = (case res of None \<Rightarrow> [] | Some err \<Rightarrow> err_text err)" "\<not> ts_skipped (rc_status w')"
proof (cases "rc_locked w")
  case True
  with tick_skips [OF run] skipped True show thesis by blast
next
  case False
  let ?w0 = "w\<lparr>rc_locked := True\<rparr>"
  obtain remain w1 where rem: "run_state (backoff_remaining e) ?w0 = (remain, w1)" by fastforce
  show thesis
  proof (cases "0 < remain")
    case True
    then have "rc_backoff w \<noteq> 0 \<and> e_clock e (w_clock w) < rc_backoff w"
      using rem saturate_pos [of "rc_backoff w - e_clock e (w_clock w)"]
      by (auto simp: backoff_remaining_def Let_def now_run not_le split: if_splits)
    with tick_skips [OF run] skipped show thesis by blast
  next
    case none: False
    from backoff_remaining_any [OF rem none] obtain n where w1: "w1 = w\<lparr>rc_locked := True, rc_backoff := 0, w_clock := n\<rparr>"
      by auto
    let ?w2 = "w1\<lparr>w_clock := Suc (w_clock w1)\<rparr>"
    obtain tcx v where ctx: "run_state (with_timeout e cx tick_timeout) ?w2 = (tcx, v)" by fastforce
    note ctx' = with_timeout_any [OF ctx]
    have v: "w_table v = w_table w" "w_db v = w_db w" "w_http v = w_http w" "w_events v = w_events w"
        "rc_last_error v = rc_last_error w" "rc_backoff v = 0"
      unfolding ctx'(1) w1 by simp_all
    obtain lst v1 where lst: "run_state (list_non_terminal e 200) v = (lst, v1)" by fastforce
    have same: "w_http v1 = w_http w" "w_events v1 = w_events w"
      using backendD [OF backend_only_store(4) lst] v by simp_all
    show thesis
    proof (cases lst)
      case (Inl err)
      from lst have "db_failed e (length (w_db v)) \<and> w_table v1 = run_stmts (e_others e (length (w_db v))) (w_table v)"
        by (rule list_non_terminal_any) (use Inl in auto)
      with run False rem none ctx lst same Inl v show thesis
        by (intro unlisted [of err])
          (auto simp: tick_def try_lock_def unlock_def tick_locked_def now_run since_def set_status_def split: prod.splits)
    next
      case (Inr rows)
      obtain fe v2 where loop: "run_state (tick_rows e d tcx None rows) v1 = (fe, v2)" by fastforce
      from run False rem none ctx lst Inr loop
      have fin: "res = fe" "\<not> rc_locked w'" "w_table w' = w_table v2" "w_http w' = w_http v2" "w_events w' = w_events v2"
          "w_db w' = w_db v2" "rc_backoff w' = rc_backoff v2" "rc_last_error w' = rc_last_error v2"
          "ts_rows (rc_status w') = int (length rows)"
          "ts_error (rc_status w') = (case fe of None \<Rightarrow> [] | Some err \<Rightarrow> err_text err)" "\<not> ts_skipped (rc_status w')"
        by (auto simp: tick_def try_lock_def unlock_def tick_locked_def now_run since_def set_status_def split: prod.splits)
      show thesis
        by (rule ran [of v rows v1 tcx v2]) (use False v lst loop Inr ctx'(2,4) fin in auto)
    qed
  qed
qed

section \<open>The statements of a tick\<close>

lemma on_table_memory [effect_intros]:
  "effect_of (on_table P) (set_status s)" "effect_of (on_table P) (record_error_changed rid msg)"
  "effect_of (on_table P) (clear_error rid)" "effect_of (on_table P) (set_backoff e dur)"
  "effect_of (on_table P) (backoff_remaining e)" "effect_of (on_table P) try_lock" "effect_of (on_table P) unlock"
  "effect_of (on_table P) (since e t)"
  by (rule effect_ofI, auto simp: set_status_def record_error_changed_def clear_error_def set_backoff_def
      backoff_remaining_def try_lock_def unlock_def since_def now_run Let_def on_table_def)+

text \<open>\<open>saves P row\<close>: the statements about one row are allowed.\<close>

definition saves :: "(stmt \<Rightarrow> bool) \<Rightarrow> forwarded_request \<Rightarrow> bool" where
  "saves P row \<longleftrightarrow> request_id row = [] \<or> external_id row = [] \<or>
     ((\<forall>msg t1 t2 upd. P (upsert_stmt (error_record row msg t1 t2) upd)) \<and>
      (\<forall>st t. st = status row \<or> st \<noteq> [] \<and> (\<exists>u. st = translate_status u) \<longrightarrow>
         P (MarkPolled (request_id row) (opt_string (external_id row)) st t)))"

lemma error_record_simps [simp]:
  "request_id (error_record row msg t1 t2) = request_id row" "external_id (error_record row msg t1 t2) = external_id row"
  "status (error_record row msg t1 t2) = status row" "updated_at (error_record row msg t1 t2) = t2"
  by (simp_all add: error_record_def)

lemma on_table_poll_row:
  assumes "others_do P e" and "saves P row" and "external_id row \<noteq> []"
  shows "effect_of (on_table P) (poll_row e d cx fe row)"
proof -
  have save: "effect_of (on_table P) (save_error e row msg)" for msg
    unfolding save_error_def
    by (intro table_effect.effect_rules effect_intros) (use assms in \<open>auto simp: saves_def\<close>)
  have mark: "effect_of (on_table P) (mark_polled e (request_id row) (external_id row) st t)"
    if "st = status row \<or> st \<noteq> [] \<and> (\<exists>u. st = translate_status u)" for st t
    by (intro effect_intros) (use assms that in \<open>unfold saves_def, blast+\<close>)
  show ?thesis
    unfolding poll_row_def poll_failed_def poll_answered_def Let_def
    by (intro table_effect.effect_rules effect_intros save mark; auto)
qed

lemma on_table_tick_rows:
  assumes "others_do P e"
  shows "list_all (saves P) rows \<Longrightarrow> effect_of (on_table P) (tick_rows e d cx fe rows)"
proof (induction rows arbitrary: fe)
  case Nil
  then show ?case by (simp add: table_effect.effect_return)
next
  case (Cons row rows)
  then show ?case
    unfolding tick_rows.simps
    by (intro table_effect.effect_rules effect_intros on_table_poll_row) (auto intro: assms)
qed

lemma on_table_tick:
  assumes "others_do P e" and "\<And>row. saves P row"
  shows "effect_of (on_table P) (tick e d cx)"
  unfolding tick_def tick_locked_def
  by (intro table_effect.effect_rules effect_intros on_table_tick_rows assms)
    (simp add: list_all_iff assms)

end
