(* ===== verification/Reconciler_Spec.thy ===== *)
theory Reconciler_Spec
  imports Reconciler
begin

text \<open>
  The properties of the reconciler: skipped ticks, rate limiting, the work of a tick, the fate of
  one polled row, the terminal guard, and what an outage or rows without an external id do.
\<close>

section \<open>Properties\<close>

definition demo_rdeps :: reconciler_deps where
  "demo_rdeps = \<lparr>rd_pub = \<lparr>pub_host = True\<rparr>, rd_ebk = demo_client, rd_plugin = ''silo.ebook-requests''\<rparr>"

definition demo_rworld :: "table \<Rightarrow> rworld" where
  "demo_rworld t = new_reconciler (demo_world t)"

lemma demo_rworld_simps [simp]:
  "w_table (demo_rworld t) = t" "w_db (demo_rworld t) = []" "w_clock (demo_rworld t) = 0"
  "w_http (demo_rworld t) = []" "w_events (demo_rworld t) = []" "rc_locked (demo_rworld t) = False"
  "rc_backoff (demo_rworld t) = 0" "rc_last_error (demo_rworld t) = Map.empty"
  by (simp_all add: demo_rworld_def new_reconciler_def demo_world_def world.defs)

text \<open>C26: a tick never overlaps another and never runs into a back-off. While a tick holds the
  lock, or before the back-off deadline, a further tick returns at once: no database call, no
  request and no event; it only records that it was skipped.\<close>

theorem tick_overlap_or_backoff_idle:
  assumes "run_state (tick e d cx) w = (res, w')"
    and "rc_locked w \<or> rc_backoff w \<noteq> 0 \<and> e_clock e (w_clock w) < rc_backoff w"
  shows "res = None \<and> ts_skipped (rc_status w') \<and> w_table w' = w_table w \<and> w_db w' = w_db w \<and>
    w_http w' = w_http w \<and> w_events w' = w_events w \<and> rc_locked w' = rc_locked w \<and> rc_backoff w' = rc_backoff w"
  using tick_skips [OF assms] by (simp add: idle_def)

theorem tick_overlap_or_backoff_idle_witness:
  "\<exists>w'. run_state (tick (demo_env refused) demo_rdeps background) ((demo_rworld [demo_row])\<lparr>rc_backoff := 2000\<rparr>) = (None, w') \<and>
     w_http w' = []"
proof -
  obtain res w' where run: "run_state (tick (demo_env refused) demo_rdeps background) ((demo_rworld [demo_row])\<lparr>rc_backoff := 2000\<rparr>) = (res, w')"
    by fastforce
  from tick_overlap_or_backoff_idle [OF run] run show ?thesis by simp
qed

text \<open>C13: a 429 stops the tick and parks the reconciler. The request the upstream answered with 429 is
  the last one of its tick, the tick reports an error, and the reconciler is parked until a
  positive time of at most ten minutes after a reading of the clock, whatever the upstream asked
  for. Every tick that starts before that deadline sends nothing and asks the database nothing.\<close>

theorem rate_limit_parks_reconciler:
  assumes "run_state (tick e d cx) w = (res, w')" and "\<And>n. 0 < e_clock e n"
    and "length (w_http w) \<le> k" and "k < length (w_http w')" and "answered_429 e k (w_http w' ! k)"
  shows "Suc k = length (w_http w') \<and> res \<noteq> None \<and>
    (\<exists>n dur. 0 < dur \<and> dur \<le> 10 * minute \<and> rc_backoff w' = e_clock e n + dur) \<and>
    (\<forall>d2 cx2 res2 w2. run_state (tick e d2 cx2) w' = (res2, w2) \<and> e_clock e (w_clock w') < rc_backoff w' \<longrightarrow>
       w_http w2 = w_http w' \<and> w_db w2 = w_db w')"
proof -
  have "Suc k = length (w_http w') \<and> res \<noteq> None \<and> parked e w'"
    using assms(1)
  proof (rule tick_cases)
    fix v rows v1 tcx v2
    assume v: "w_http v = w_http w" "w_http w' = w_http v2" "rc_backoff w' = rc_backoff v2"
      and lst: "run_state (list_non_terminal e 200) v = (Inr rows, v1)"
      and loop: "run_state (tick_rows e d tcx None rows) v1 = (res, v2)"
    have v1: "w_http v1 = w_http w" using backendD [OF backend_only_store(4) lst] v by simp
    from tick_rows_any [OF loop] obtain qs where qs: "w_http v2 = w_http v1 @ qs"
      and limited: "\<forall>j < length qs. answered_429 e (length (w_http v1) + j) (qs ! j) \<longrightarrow>
        Suc j = length qs \<and> parked e v2 \<and> res \<noteq> None"
      by (auto simp: loop_outcome_def)
    obtain j where j: "k = length (w_http w) + j" using assms(3) le_Suc_ex by blast
    with assms(4,5) v qs v1 have "j < length qs" "answered_429 e (length (w_http v1) + j) (qs ! j)"
      by (simp_all add: nth_append)
    with limited have "Suc j = length qs \<and> parked e v2 \<and> res \<noteq> None" by blast
    with j v qs v1 show ?thesis by (simp add: parked_def)
  qed (use assms(3,4) in \<open>auto simp: idle_def\<close>)
  moreover from this obtain n dur where "0 < dur" "rc_backoff w' = e_clock e n + dur"
    by (auto simp: parked_def)
  with assms(2) [of n] have "rc_backoff w' \<noteq> 0" by simp
  ultimately show ?thesis
    using tick_skips [of e _ _ w'] by (auto simp: parked_def idle_def)
qed

definition too_many :: "nat \<Rightarrow> http_request \<Rightarrow> http_result" where
  "too_many k r = ReqDone \<lparr>rs_status = 429, rs_headers = [], rs_body = ''slow down'', rs_read_error = None\<rparr>"

lemmas tick_run =
  tick_def try_lock_def tick_locked_def backoff_remaining_def now_run with_timeout_def run_simps list_non_terminal_def
  select_non_terminal_def open_rows_def terminal_def scan_row_def ctx_done_def background_def second_def
  tick_timeout_def poll_row_def Let_def per_row_timeout_def get_monitoring_def client_get_def http_do_def
  read_response_def poll_failed_def record_error_changed_def set_backoff_def save_error_def since_def
  set_status_def unlock_def

lemma demo_tick_sends:
  "length (w_http (snd (run_state (tick (demo_env too_many) demo_rdeps background) (demo_rworld [demo_row])))) = 1"
  by (simp add: tick_run too_many_def parse_retry_after_def get_header_def trim_space_def limit_read_def max_response_bytes_def
      split: prod.splits)

theorem rate_limit_parks_reconciler_witness:
  "\<exists>w'. snd (run_state (tick (demo_env too_many) demo_rdeps background) (demo_rworld [demo_row])) = w' \<and>
     (\<exists>n dur. dur \<le> 10 * minute \<and> rc_backoff w' = e_clock (demo_env too_many) n + dur)"
proof -
  let ?e = "demo_env too_many"
  obtain res w' where run: "run_state (tick ?e demo_rdeps background) (demo_rworld [demo_row]) = (res, w')" by fastforce
  have "0 < length (w_http w')" using demo_tick_sends run by simp
  moreover have "answered_429 ?e 0 (w_http w' ! 0)" by (simp add: answered_429_def too_many_def)
  ultimately have "\<exists>n dur. 0 < dur \<and> dur \<le> 10 * minute \<and> rc_backoff w' = e_clock ?e n + dur"
    by (intro rate_limit_parks_reconciler [OF run, of 0, THEN conjunct2, THEN conjunct2, THEN conjunct1]) simp_all
  with run show ?thesis by auto
qed

text \<open>C22: the work of a tick, in any environment. A tick works on at most 200 open rows, in the order
  of the work list. It polls only rows with an external id, each at most once and at its own
  address, and it announces a transition only for such a row, each at most once, when the
  upstream's status translates to a status other than the row's. A tick that does not get that
  far sends and announces nothing.\<close>

theorem tick_polls_work_list:
  assumes "run_state (tick e d cx) w = (res, w')"
  shows "(w_http w' = w_http w \<and> w_events w' = w_events w) \<or>
    (\<exists>t m qs ts.
       (let rows = map (scan_row (e_null_time e)) (take m (select_non_terminal (e_null_time e) (e_collate e) 200 t));
            work = filter (\<lambda>r. external_id r \<noteq> []) rows
        in t = run_stmts (e_others e (length (w_db w))) (w_table w) \<and>
          w_http w' = w_http w @ qs \<and> subseq (map rq_url qs) (map (row_url d) work) \<and> length qs \<le> 200 \<and>
          w_events w' = w_events w @ map (announces d) ts \<and> subseq (map fst ts) work \<and> list_all transition ts \<and>
          ts_rows (rc_status w') = int (length rows) \<and> length rows \<le> 200))"
  using assms
proof (rule tick_cases)
  fix v rows v1 tcx v2
  assume v: "w_table v = w_table w" "w_db v = w_db w" "w_http v = w_http w" "w_events v = w_events w"
    "w_http w' = w_http v2" "w_events w' = w_events v2" "ts_rows (rc_status w') = int (length rows)"
    and lst: "run_state (list_non_terminal e 200) v = (Inr rows, v1)"
    and loop: "run_state (tick_rows e d tcx None rows) v1 = (res, v2)"
  have same: "w_http v1 = w_http w" "w_events v1 = w_events w" using backendD [OF backend_only_store(4) lst] v by simp_all
  from lst obtain m where rows: "rows = map (scan_row (e_null_time e)) (take m (select_non_terminal (e_null_time e) (e_collate e) 200 (w_table v1)))"
    "w_table v1 = run_stmts (e_others e (length (w_db w))) (w_table w)"
    by (rule list_non_terminal_any) (use v in auto)
  from tick_rows_any [OF loop] same v obtain qs ts where out: "w_http w' = w_http w @ qs"
    "subseq (map rq_url qs) (map (row_url d) (pollable rows))" "w_events w' = w_events w @ map (announces d) ts"
    "subseq (map fst ts) (pollable rows)" "list_all transition ts"
    by (auto simp: loop_outcome_def)
  have len: "length rows \<le> 200" using rows by (simp add: length_select_non_terminal)
  have "length qs \<le> length (pollable rows)" using list_emb_length [OF out(2)] by simp
  also have "\<dots> \<le> length rows" by (simp add: pollable_def)
  also note len
  finally have "length qs \<le> 200" .
  with out len rows v show ?thesis
    by (intro disjI2 exI [of _ "w_table v1"] exI [of _ m] exI [of _ qs] exI [of _ ts]) (simp add: Let_def pollable_def)
qed (auto simp: idle_def)

theorem tick_polls_work_list_witness:
  "\<exists>w'. snd (run_state (tick (demo_env refused) demo_rdeps background) (demo_rworld [demo_row])) = w' \<and>
     (w_events w' = [] \<or> (\<exists>ts. w_events w' = map (announces demo_rdeps) ts \<and> list_all transition ts))"
proof -
  obtain res w' where run: "run_state (tick (demo_env refused) demo_rdeps background) (demo_rworld [demo_row]) = (res, w')"
    by fastforce
  from tick_polls_work_list [OF run] run show ?thesis by (auto simp: Let_def)
qed

text \<open>A tick cannot revive or end a finished request. While a tick runs, with failures and
  statements of others at any point, the table stays well formed and a request that was
  imported or failed keeps that status, unless an admin acts on it.\<close>

lemma tick_respects_terminal:
  fixes w :: "'z rworld_scheme"
  assumes "others_do (\<lambda>s. spares rid s \<and> wf_stmt s) e" and "wf_table (w_table w)"
    and "terminal st" and "status_held rid st (w_table w)"
  shows "status_held rid st (w_table (snd (run_state (tick e d cx) w))) \<and>
    wf_table (w_table (snd (run_state (tick e d cx) w)))"
proof -
  have "effect_of (on_table (\<lambda>s. spares rid s \<and> wf_stmt s)) (tick e d cx :: ('z, goerr option) rio)"
    by (rule on_table_tick [OF assms(1)]) (auto simp: saves_def spares_def wf_upsert_stmt)
  then have path: "table_path (\<lambda>s. spares rid s \<and> wf_stmt s) (w_table w) (w_table (snd (run_state (tick e d cx) w)))"
    by (simp add: effect_of_def on_table_def)
  show ?thesis
    using table_path_inv [OF path, of "status_held rid st"] table_path_wf [OF path] assms
    by (auto intro: spares_exec)
qed

text \<open>The translation of upstream statuses. Every documented status, and the two aliases the code
  accepts, becomes one of five portal statuses; anything else becomes the empty string, which
  holds the row's status. No poll ever yields a status from before the acknowledgement, and the
  terminal statuses come from these five words only.\<close>

lemma translate_status_spec:
  "(translate_status s \<noteq> [] \<longleftrightarrow>
     s \<in> set [''monitored'', ''searching'', ''searching_now'', ''found'', ''found_pending'', ''grabbed'',
              ''downloading'', ''completed'', ''imported'', ''failed'', ''not_found'', ''error'']) \<and>
   (translate_status s \<noteq> [] \<longrightarrow>
     translate_status s \<in> {''searching'', ''found'', ''downloading'', ''imported'', ''failed''}) \<and>
   translate_status s \<notin> {''submitted'', ''acknowledged''} \<and>
   (terminal (translate_status s) \<longleftrightarrow> s \<in> {''completed'', ''imported'', ''failed'', ''not_found'', ''error''}) \<and>
   (translate_status s \<noteq> [] \<longrightarrow> translate_status (translate_status s) = translate_status s)"
  by (simp add: translate_status_def terminal_def)

text \<open>What an answer and an error leave behind for the row \<open>x\<close> of the table.\<close>

definition answer_recorded ::
  "reconciler_deps \<Rightarrow> forwarded_request \<Rightarrow> row \<Rightarrow> monitoring_response \<Rightarrow> 'z rworld_scheme \<Rightarrow> 'z rworld_scheme \<Rightarrow> bool" where
  "answer_recorded d row x m w w' \<longleftrightarrow> (let st = translate_status (ms_status m) in
     rc_last_error w' = (rc_last_error w)(request_id row := None) \<and>
     (\<exists>y. lookup (w_table w') (request_id row) = Some y \<and>
        poll_recorded (external_id row) (if st = [] then status row else st) x y) \<and>
     (\<forall>k. k \<noteq> request_id row \<longrightarrow> lookup (w_table w') k = lookup (w_table w) k) \<and>
     w_events w' = w_events w @
       (if st = [] \<or> st = status row \<or> \<not> pub_host (rd_pub d) then [] else [transition_event d row st (ms_book m)]))"

definition error_recorded ::
  "forwarded_request \<Rightarrow> row option \<Rightarrow> string \<Rightarrow> 'z rworld_scheme \<Rightarrow> 'z rworld_scheme \<Rightarrow> bool" where
  "error_recorded row x msg w w' \<longleftrightarrow>
     rc_last_error w' = (rc_last_error w)(request_id row \<mapsto> msg) \<and> w_events w' = w_events w \<and>
     (if rc_last_error w (request_id row) = Some msg then w_table w' = w_table w \<and> w_db w' = w_db w
      else \<exists>y t1 t2. lookup (w_table w') (request_id row) = Some y \<and>
        upserted (error_record row msg t1 t2) x y) \<and>
     (\<forall>k. k \<noteq> request_id row \<longrightarrow> lookup (w_table w') k = lookup (w_table w) k)"

lemma recorded_cong:
  assumes "w_table v = w_table w" and "w_db v = w_db w" and "w_events v = w_events w" and "rc_last_error v = rc_last_error w"
  shows "answer_recorded d row x m v w' \<longleftrightarrow> answer_recorded d row x m w w'"
    and "error_recorded row z msg v w' \<longleftrightarrow> error_recorded row z msg w w'"
  using assms by (simp_all add: answer_recorded_def error_recorded_def)

lemma poll_answered_quiet:
  fixes w :: "'z rworld_scheme"
  assumes q: "quiet e" and rid: "request_id row \<noteq> []" and x: "lookup (w_table w) (request_id row) = Some x"
    and run: "run_state (poll_answered e d fe row m) w = (r, w')"
  shows "r = (fe, False) \<and> answer_recorded d row x m w w'"
proof -
  let ?st = "translate_status (ms_status m)"
  let ?new = "if ?st = [] \<or> ?st = status row then status row else ?st"
  let ?w0 = "w\<lparr>rc_last_error := (rc_last_error w)(request_id row := None), w_clock := Suc (w_clock w)\<rparr>"
  obtain res w1 where mark: "run_state (mark_polled e (request_id row) (external_id row) ?new (e_clock e (w_clock w))) ?w0 = (res, w1)"
    by fastforce
  have w1: "w_events w1 = w_events w" "rc_last_error w1 = (rc_last_error w)(request_id row := None)"
    using backendD [OF backend_only_store(3) mark] same_memory [of w1 ?w0] by simp_all
  have res: "res = Inr ()"
    using store.poll_accepts [OF q rid, of "external_id row" ?new "e_clock e (w_clock w)" ?w0] mark by simp
  have row: "\<exists>y. lookup (w_table w1) (request_id row) = Some y \<and> poll_recorded (external_id row) ?new x y"
    using store.poll_row [OF q rid, of ?w0 x "external_id row" ?new "e_clock e (w_clock w)"] mark x by simp
  have other: "\<forall>k. k \<noteq> request_id row \<longrightarrow> lookup (w_table w1) k = lookup (w_table w) k"
    using store.poll_other [OF q, of _ "request_id row" "external_id row" ?new "e_clock e (w_clock w)" ?w0] mark by simp
  have new: "(if ?st = [] then status row else ?st) = ?new" by simp
  show ?thesis
    unfolding answer_recorded_def Let_def new using run mark w1 res row other
    by (auto simp: poll_answered_def Let_def clear_error_def now_run publish_event_run keep_first_def
        split: if_splits prod.splits)
qed

lemma save_error_quiet:
  fixes w :: "'z rworld_scheme"
  assumes q: "quiet e" and rid: "request_id row \<noteq> []" and run: "run_state (save_error e row msg) w = (res, w')"
  shows "res = Inr () \<and> w_events w' = w_events w \<and> rc_last_error w' = rc_last_error w \<and>
    (\<exists>y t1 t2. lookup (w_table w') (request_id row) = Some y \<and>
       upserted (error_record row msg t1 t2) (lookup (w_table w) (request_id row)) y) \<and>
    (\<forall>k. k \<noteq> request_id row \<longrightarrow> lookup (w_table w') k = lookup (w_table w) k)"
proof -
  let ?r = "error_record row msg (e_clock e (w_clock w)) (e_clock e (Suc (w_clock w)))"
  let ?w0 = "w\<lparr>w_clock := Suc (Suc (w_clock w))\<rparr>"
  have up: "run_state (upsert_forwarded_request e ?r) ?w0 = (res, w')"
    using run by (simp add: save_error_def now_run)
  show ?thesis
    using store.upsert_accepts [OF q, of ?r ?w0] store.upsert_row [OF q, of ?r ?w0] store.upsert_other [OF q, of _ ?r ?w0] rid up
      backendD [OF backend_only_save_error run] same_memory [of w' w]
    by auto
qed

lemma poll_failed_quiet:
  fixes w :: "'z rworld_scheme"
  assumes q: "quiet e" and rid: "request_id row \<noteq> []"
    and run: "run_state (poll_failed e fe row err) w = (r, w')"
  shows "snd r = (is_rate_limited err \<noteq> None) \<and> (is_rate_limited err = None \<longrightarrow> fst r = fe) \<and>
    error_recorded row (lookup (w_table w) (request_id row)) (err_text err) w w'"
proof -
  define v where "v = (case is_rate_limited err of None \<Rightarrow> w
     | Some (ra, _) \<Rightarrow> w\<lparr>w_clock := Suc (w_clock w), rc_backoff := e_clock e (w_clock w) + backoff_time ra\<rparr>)"
  have v: "w_table v = w_table w" "w_db v = w_db w" "w_events v = w_events w" "rc_last_error v = rc_last_error w"
    by (simp_all add: v_def split: option.splits prod.splits)
  let ?u = "v\<lparr>rc_last_error := (rc_last_error v)(request_id row \<mapsto> err_text err)\<rparr>"
  obtain res w1 where save: "run_state (save_error e row (err_text err)) ?u = (res, w1)" by fastforce
  note saved = save_error_quiet [OF q rid save]
  have out: "snd r = (is_rate_limited err \<noteq> None) \<and> (is_rate_limited err = None \<longrightarrow> fst r = fe) \<and>
      w' = (if rc_last_error w (request_id row) = Some (err_text err) then v else w1)"
    using run save saved
    by (cases "is_rate_limited err")
      (auto simp: poll_failed_def record_error_changed_def set_backoff_def now_run keep_first_def v_def split: if_splits prod.splits)
  show ?thesis using out saved v by (auto simp: error_recorded_def fun_upd_idem_iff)
qed

lemma poll_row_recorded:
  fixes w :: "'z rworld_scheme"
  assumes q: "quiet e" and rid: "request_id row \<noteq> []" and x: "lookup (w_table w) (request_id row) = Some x"
    and run: "run_state (poll_row e d cx fe row) w = (r, w')"
  shows "\<exists>rcx (v :: 'z rworld_scheme) snap v'.
    run_state (get_monitoring e (rd_ebk d) rcx (external_id row)) v = (snap, v') \<and> w_http v = w_http w \<and> w_http w' = w_http v' \<and>
    (\<exists>u. cx_deadline rcx = Some u \<and> u \<le> e_clock e (w_clock w) + 10 * second) \<and>
    (case snap of
       Inr m \<Rightarrow> r = (fe, False) \<and> answer_recorded d row x m w w'
     | Inl err \<Rightarrow> snd r = (is_rate_limited err \<noteq> None) \<and> error_recorded row (Some x) (err_text err) w w')"
proof -
  obtain rcx v where ctx: "run_state (with_timeout e cx per_row_timeout) w = (rcx, v)" by fastforce
  obtain snap v' where get: "run_state (get_monitoring e (rd_ebk d) rcx (external_id row)) v = (snap, v')" by fastforce
  have v: "w_table v = w_table w" "w_db v = w_db w" "w_http v = w_http w" "w_events v = w_events w"
      "rc_last_error v = rc_last_error w"
    and deadline: "\<exists>u. cx_deadline rcx = Some u \<and> u \<le> e_clock e (w_clock w) + 10 * second"
    using with_timeout_any [OF ctx] by (simp_all add: per_row_timeout_def)
  have v': "w_table v' = w_table w" "w_db v' = w_db w" "w_events v' = w_events w" "rc_last_error v' = rc_last_error w"
    using upstream_only_get_monitoring [OF get] v same_memory [of v' v] by (auto simp: upstream_only_def)
  have rest: "run_state (case snap of Inl err \<Rightarrow> poll_failed e fe row err | Inr m \<Rightarrow> poll_answered e d fe row m) v' = (r, w')"
    using run ctx get by (simp add: poll_row_def)
  have "case snap of
       Inr m \<Rightarrow> r = (fe, False) \<and> answer_recorded d row x m v' w'
     | Inl err \<Rightarrow> snd r = (is_rate_limited err \<noteq> None) \<and> error_recorded row (Some x) (err_text err) v' w'"
    using rest x v'(1) poll_failed_quiet [OF q rid, of fe _ v' r w'] poll_answered_quiet [OF q rid, of v' x d fe _ r w']
    by (cases snap) simp_all
  then have "case snap of
       Inr m \<Rightarrow> r = (fe, False) \<and> answer_recorded d row x m w w'
     | Inl err \<Rightarrow> snd r = (is_rate_limited err \<noteq> None) \<and> error_recorded row (Some x) (err_text err) w w'"
    using recorded_cong [OF v'] by (simp split: sum.splits)
  moreover have "w_http w' = w_http v'"
    using rest poll_failed_any(1) [of e fe row _ v' r w'] calmD [OF calm_poll_answered, of e d fe row _ v' r w']
    by (cases snap) simp_all
  ultimately show ?thesis using get v(3) deadline by blast
qed

text \<open>C14: the fate of one polled row, when the database answers. The upstream is asked once, within
  ten seconds. A usable answer clears the remembered error and the stored one, stamps the row
  and stores the translated status under the terminal guard (an unknown status keeps the row's);
  exactly a change of status is announced. An error is announced to nobody: it is remembered,
  and stored with the row's old status unless the same text was remembered before, in which
  case the database is not even asked. The loop stops exactly on a rate limit. No other row
  changes.\<close>

theorem poll_row_fate:
  fixes w :: "'z rworld_scheme"
  assumes q: "quiet e" and rid: "request_id row \<noteq> []" and x: "lookup (w_table w) (request_id row) = Some x"
    and run: "run_state (poll_row e d cx fe row) w = (r, w')"
  shows "\<exists>rcx (v :: 'z rworld_scheme) snap v'.
    run_state (get_monitoring e (rd_ebk d) rcx (external_id row)) v = (snap, v') \<and> w_http v = w_http w \<and> w_http w' = w_http v' \<and>
    (\<exists>u. cx_deadline rcx = Some u \<and> u \<le> e_clock e (w_clock w) + 10 * second) \<and>
    (case snap of
       Inr m \<Rightarrow> r = (fe, False) \<and> answer_recorded d row x m w w'
     | Inl err \<Rightarrow> snd r = (is_rate_limited err \<noteq> None) \<and> error_recorded row (Some x) (err_text err) w w')"
  using assms by (rule poll_row_recorded)

theorem poll_row_fate_witness:
  "\<exists>r w'. run_state (poll_row (demo_env refused) demo_rdeps background None (scan_row 0 demo_row)) (demo_rworld [demo_row]) = (r, w') \<and>
     w_events w' = []"
proof -
  obtain r w' where run: "run_state (poll_row (demo_env refused) demo_rdeps background None (scan_row 0 demo_row)) (demo_rworld [demo_row]) = (r, w')"
    by fastforce
  have id: "request_id (scan_row 0 demo_row) = ''r1''" by (simp add: scan_row_def)
  then have rid: "request_id (scan_row 0 demo_row) \<noteq> []" by simp
  have look: "lookup (w_table (demo_rworld [demo_row])) (request_id (scan_row 0 demo_row)) = Some demo_row"
    by (simp add: id lookup_Cons)
  have refuse: "\<exists>err. snap = Inl err" if "run_state (get_monitoring (demo_env refused) c rcx i) v = (snap, v')"
    for c rcx i snap and v v' :: rworld
    using that by (auto simp: get_monitoring_def client_get_def http_do_def refused_def read_response_def)
  from poll_row_fate [OF quiet_demo rid look run] show ?thesis
  proof (elim exE conjE)
    fix rcx and v v' :: rworld and snap
    assume "run_state (get_monitoring (demo_env refused) (rd_ebk demo_rdeps) rcx (external_id (scan_row 0 demo_row))) v = (snap, v')"
    then obtain err where snap: "snap = Inl err" using refuse by blast
    assume "case snap of
       Inr m \<Rightarrow> r = (None, False) \<and> answer_recorded demo_rdeps (scan_row 0 demo_row) demo_row m (demo_rworld [demo_row]) w'
     | Inl err \<Rightarrow> snd r = (is_rate_limited err \<noteq> None) \<and>
         error_recorded (scan_row 0 demo_row) (Some demo_row) (err_text err) (demo_rworld [demo_row]) w'"
    with snap run show ?thesis by (simp add: error_recorded_def)
  qed
qed

lemma scan_row_ext: "external_id (scan_row z r) = [] \<longleftrightarrow> \<not> has_ext r"
  by (simp add: scan_row_def has_ext_def or_else_def split: option.splits)

lemma scan_row_simps [simp]: "request_id (scan_row z r) = c_id r" "status (scan_row z r) = c_status r"
  by (simp_all add: scan_row_def)

text \<open>A free tick on a database that answers is its loop on the work list.\<close>

definition free :: "'z rworld_scheme \<Rightarrow> bool" where
  "free w \<longleftrightarrow> \<not> rc_locked w \<and> rc_backoff w = 0"

lemma tick_free:
  fixes w :: "'z rworld_scheme"
  assumes q: "quiet e" and free: "free w" and run: "run_state (tick e d cx) w = (res, w')"
  obtains v :: "'z rworld_scheme" and tcx v2 where
    "run_state (tick_rows e d tcx None
       (map (scan_row (e_null_time e)) (select_non_terminal (e_null_time e) (e_collate e) 200 (w_table w)))) v = (res, v2)"
    "w_table v = w_table w" "w_db v = w_db w @ [CallQuery]" "w_http v = w_http w" "w_events v = w_events w"
    "rc_last_error v = rc_last_error w" "rc_backoff v = 0"
    "cx_deadline cx = None \<Longrightarrow> \<exists>n. cx_deadline tcx = Some (e_clock e n + tick_timeout)"
    "w_table w' = w_table v2" "w_http w' = w_http v2" "w_events w' = w_events v2" "w_db w' = w_db v2"
    "rc_backoff w' = rc_backoff v2" "rc_last_error w' = rc_last_error v2" "\<not> rc_locked w'"
    "ts_error (rc_status w') = (case res of None \<Rightarrow> [] | Some err \<Rightarrow> err_text err)" "\<not> ts_skipped (rc_status w')"
  using run
proof (rule tick_cases)
  fix v0 v1 v2 :: "'z rworld_scheme" and rows tcx
  assume v0: "w_table v0 = w_table w" "w_db v0 = w_db w" "w_http v0 = w_http w" "w_events v0 = w_events w"
      "rc_last_error v0 = rc_last_error w" "rc_backoff v0 = 0"
    and dl: "cx_deadline cx = None \<Longrightarrow> \<exists>n. cx_deadline tcx = Some (e_clock e n + tick_timeout)"
    and lst: "run_state (list_non_terminal e 200) v0 = (Inr rows, v1)"
    and loop: "run_state (tick_rows e d tcx None rows) v1 = (res, v2)"
    and fin: "w_table w' = w_table v2" "w_http w' = w_http v2" "w_events w' = w_events v2" "w_db w' = w_db v2"
      "rc_backoff w' = rc_backoff v2" "rc_last_error w' = rc_last_error v2" "\<not> rc_locked w'"
      "ts_error (rc_status w') = (case res of None \<Rightarrow> [] | Some err \<Rightarrow> err_text err)" "\<not> ts_skipped (rc_status w')"
  have v1: "v1 = v0\<lparr>w_db := w_db v0 @ [CallQuery]\<rparr>"
    and rows: "rows = map (scan_row (e_null_time e)) (select_non_terminal (e_null_time e) (e_collate e) 200 (w_table w))"
    using lst q v0(1) by (simp_all add: list_non_terminal_def run_simps)
  show thesis
    by (rule that [of tcx v1 v2]) (use loop fin v0 dl in \<open>simp_all add: v1 rows\<close>)
qed (use q free in \<open>auto simp: free_def\<close>)

text \<open>What a loop leaves alone that changes nothing but clocks and the request log.\<close>

definition unmoved :: "'z rworld_scheme \<Rightarrow> 'z rworld_scheme \<Rightarrow> bool" where
  "unmoved w w' \<longleftrightarrow> w_table w' = w_table w \<and> w_db w' = w_db w \<and> w_events w' = w_events w \<and>
     rc_last_error w' = rc_last_error w \<and> rc_backoff w' = rc_backoff w"

lemma unmoved_trans: "unmoved u v \<Longrightarrow> unmoved v w \<Longrightarrow> unmoved u w"
  by (simp add: unmoved_def)

lemma ctx_done_unmoved:
  "run_state (ctx_done e cx) w = (stop, v) \<Longrightarrow> unmoved w v \<and> w_http v = w_http w"
  by (auto simp: ctx_done_def now_run unmoved_def)

lemma tick_rows_unsubmitted:
  fixes w :: "'z rworld_scheme"
  assumes "list_all (\<lambda>r. external_id r = []) rows" and "run_state (tick_rows e d cx fe rows) w = (res, w')"
  shows "res = fe \<and> unmoved w w' \<and> w_http w' = w_http w"
  using assms
proof (induction rows arbitrary: w)
  case (Cons r rows)
  obtain stop v where stop: "run_state (ctx_done e cx) w = (stop, v)" by fastforce
  note v = ctx_done_unmoved [OF stop]
  show ?case
  proof (cases stop)
    case True
    with stop Cons.prems v show ?thesis by auto
  next
    case False
    with stop Cons.prems have "run_state (tick_rows e d cx fe rows) v = (res, w')" by simp
    from Cons.IH [OF _ this] Cons.prems v show ?thesis by (auto intro: unmoved_trans)
  qed
qed (simp add: unmoved_def)

text \<open>While the upstream cannot be reached, a row whose error text is already remembered is not
  written again.\<close>

definition down_text :: "string \<Rightarrow> string" where
  "down_text m = err_text (Wrapf ''do: '' (Err m) [])"

lemma poll_row_known_error:
  fixes w :: "'z rworld_scheme"
  assumes down: "\<And>k q. e_http e k q = ReqFailed (m (rq_url q))"
    and known: "rc_last_error w (request_id row) = Some (down_text (m (row_url d row)))"
    and run: "run_state (poll_row e d cx fe row) w = (r, w')"
  shows "r = (fe, False) \<and> unmoved w w'"
proof -
  obtain rcx v where ctx: "run_state (with_timeout e cx per_row_timeout) w = (rcx, v)" by fastforce
  have v: "v = w\<lparr>w_clock := Suc (w_clock w)\<rparr>" using with_timeout_any(1) [OF ctx] .
  obtain snap u where get: "run_state (get_monitoring e (rd_ebk d) rcx (external_id row)) v = (snap, u)" by fastforce
  then have snap: "snap = Inl (Wrapf ''do: '' (Err (m (row_url d row))) [])"
    by (simp add: get_monitoring_def client_get_def http_do_def down read_response_def row_url_def)
  have u: "unmoved w u"
    using upstream_only_get_monitoring [OF get] same_memory [of u v] v by (auto simp: upstream_only_def unmoved_def)
  then have "rc_last_error u (request_id row) = Some (err_text (Wrapf ''do: '' (Err (m (row_url d row))) []))"
    using known by (simp add: unmoved_def down_text_def)
  with run ctx get snap have "r = (fe, False)" "w' = u"
    by (simp_all add: poll_row_def poll_failed_def record_error_changed_def)
  with u show ?thesis by simp
qed

lemma tick_rows_known_errors:
  fixes w :: "'z rworld_scheme"
  assumes down: "\<And>k q. e_http e k q = ReqFailed (m (rq_url q))"
  shows "list_all (\<lambda>r. external_id r \<noteq> [] \<longrightarrow> rc_last_error w (request_id r) = Some (down_text (m (row_url d r)))) rows \<Longrightarrow>
    run_state (tick_rows e d cx fe rows) w = (res, w') \<Longrightarrow> res = fe \<and> unmoved w w'"
proof (induction rows arbitrary: w)
  case (Cons r rows)
  obtain stop v where stop: "run_state (ctx_done e cx) w = (stop, v)" by fastforce
  note v = ctx_done_unmoved [OF stop]
  then have mem: "rc_last_error v = rc_last_error w" by (simp add: unmoved_def)
  show ?case
  proof (cases "stop \<or> external_id r = []")
    case True
    with stop Cons.prems v mem Cons.IH [of v] show ?thesis by (auto intro: unmoved_trans split: if_splits)
  next
    case False
    obtain x u where poll: "run_state (poll_row e d cx fe r) v = (x, u)" by fastforce
    from poll_row_known_error [OF down _ poll] Cons.prems(1) False mem
    have x: "x = (fe, False)" and u: "unmoved v u" by auto
    with stop False Cons.prems(2) poll have "run_state (tick_rows e d cx fe rows) u = (res, w')" by simp
    from Cons.IH [OF _ this] Cons.prems(1) u v mem show ?thesis
      by (auto simp: unmoved_def)
  qed
qed (simp add: unmoved_def)

text \<open>C27: an outage is silent and does not move the queue. When every request fails before an answer
  arrives, with an error text \<open>m url\<close> that may name the URL as \<open>url.Error\<close> does, and the reconciler
  remembers for every row it would poll the error of that row's own URL (as it does after one tick
  of the outage), a tick asks the database for the work list and for nothing else, publishes
  nothing and reports success. The rows keep their poll times, so the next work list starts with the
  same 200 rows.\<close>

theorem outage_moves_nothing:
  assumes "quiet e" and "free w" and "\<And>k q. e_http e k q = ReqFailed (m (rq_url q))"
    and "\<And>r x. r \<in> set (select_non_terminal (e_null_time e) (e_collate e) 200 (w_table w)) \<Longrightarrow> c_ext r = Some x \<Longrightarrow> x \<noteq> [] \<Longrightarrow>
       rc_last_error w (c_id r) = Some (''do: '' @ m (cl_base (rd_ebk d) @ ''/api/v1/monitoring/'' @ path_escape x))"
    and run: "run_state (tick e d cx) w = (res, w')"
  shows "res = None \<and> ts_error (rc_status w') = [] \<and> w_table w' = w_table w \<and> w_db w' = w_db w @ [CallQuery] \<and>
    w_events w' = w_events w \<and> free w' \<and>
    fst (run_state (list_non_terminal e 200) w') = fst (run_state (list_non_terminal e 200) w)"
  using assms(1,2) run
proof (rule tick_free)
  fix v v2 tcx
  let ?rows = "map (scan_row (e_null_time e)) (select_non_terminal (e_null_time e) (e_collate e) 200 (w_table w))"
  assume loop: "run_state (tick_rows e d tcx None ?rows) v = (res, v2)"
    and v: "w_table v = w_table w" "w_db v = w_db w @ [CallQuery]" "w_events v = w_events w"
      "rc_last_error v = rc_last_error w" "rc_backoff v = 0"
    and fin: "w_table w' = w_table v2" "w_events w' = w_events v2" "w_db w' = w_db v2" "rc_backoff w' = rc_backoff v2"
      "\<not> rc_locked w'" "ts_error (rc_status w') = (case res of None \<Rightarrow> [] | Some err \<Rightarrow> err_text err)"
  have "rc_last_error v (c_id r) = Some (down_text (m (row_url d (scan_row (e_null_time e) r))))"
    if "r \<in> set (select_non_terminal (e_null_time e) (e_collate e) 200 (w_table w))" "has_ext r" for r
  proof -
    from that(2) obtain x where x: "c_ext r = Some x" "x \<noteq> []" by (auto simp: has_ext_def split: option.splits)
    then have "external_id (scan_row (e_null_time e) r) = x" by (simp add: scan_row_def)
    with assms(4) [OF that(1) x] v show ?thesis by (simp add: down_text_def row_url_def)
  qed
  then have "list_all (\<lambda>r. external_id r \<noteq> [] \<longrightarrow> rc_last_error v (request_id r) = Some (down_text (m (row_url d r)))) ?rows"
    by (simp add: list_all_iff scan_row_ext)
  from tick_rows_known_errors [OF assms(3) this loop] have "res = None" "unmoved v v2" by auto
  with v fin assms(1) show ?thesis by (simp add: unmoved_def free_def list_non_terminal_quiet)
qed

definition unreachable :: "nat \<Rightarrow> http_request \<Rightarrow> http_result" where
  "unreachable k q = ReqFailed (''Get '' @ rq_url q @ '': connection refused'')"

theorem outage_moves_nothing_witness:
  "\<exists>w'. run_state (tick (demo_env unreachable) demo_rdeps background)
       ((demo_rworld [demo_row, demo_row\<lparr>c_id := ''r2'', c_ext := Some ''job2''\<rparr>])\<lparr>rc_last_error :=
         [''r1'' \<mapsto> ''do: Get '' @ cl_base demo_client @ ''/api/v1/monitoring/job1: connection refused'',
          ''r2'' \<mapsto> ''do: Get '' @ cl_base demo_client @ ''/api/v1/monitoring/job2: connection refused'']\<rparr>) = (None, w') \<and>
     w_table w' = [demo_row, demo_row\<lparr>c_id := ''r2'', c_ext := Some ''job2''\<rparr>]"
proof -
  let ?m = "\<lambda>url. ''Get '' @ url @ '': connection refused''"
  let ?w = "(demo_rworld [demo_row, demo_row\<lparr>c_id := ''r2'', c_ext := Some ''job2''\<rparr>])\<lparr>rc_last_error :=
         [''r1'' \<mapsto> ''do: Get '' @ cl_base demo_client @ ''/api/v1/monitoring/job1: connection refused'',
          ''r2'' \<mapsto> ''do: Get '' @ cl_base demo_client @ ''/api/v1/monitoring/job2: connection refused'']\<rparr>"
  obtain res w' where run: "run_state (tick (demo_env unreachable) demo_rdeps background) ?w = (res, w')" by fastforce
  have "e_http (demo_env unreachable) k q = ReqFailed (?m (rq_url q))" for k q by (simp add: unreachable_def)
  moreover have "path_escape ''job1'' = ''job1''" "path_escape ''job2'' = ''job2''" by code_simp+
  then have "rc_last_error ?w (c_id r) = Some (''do: '' @ ?m (cl_base (rd_ebk demo_rdeps) @ ''/api/v1/monitoring/'' @ path_escape x))"
    if "r \<in> set (select_non_terminal (e_null_time (demo_env unreachable)) (e_collate (demo_env unreachable)) 200 (w_table ?w))"
      "c_ext r = Some x" for r x
    using set_select_non_terminal [OF that(1)] that(2) by (auto simp: demo_rdeps_def)
  ultimately show ?thesis
    using outage_moves_nothing [OF quiet_demo _ _ _ run, of ?m] run by (simp add: free_def)
qed

text \<open>Any number of ticks, one after the other.\<close>

primrec ticks :: "env \<Rightarrow> reconciler_deps \<Rightarrow> ctx \<Rightarrow> nat \<Rightarrow> ('z, unit) rio" where
  "ticks e d cx 0 = State_Monad.return ()"
| "ticks e d cx (Suc n) = do { _ \<leftarrow> tick e d cx; ticks e d cx n }"

lemma ticks_unsubmitted:
  assumes "quiet e" and "free w"
    and "\<And>r. r \<in> set (select_non_terminal (e_null_time e) (e_collate e) 200 (w_table w)) \<Longrightarrow> \<not> has_ext r"
  shows "w_table (snd (run_state (ticks e d cx n) w)) = w_table w \<and> w_http (snd (run_state (ticks e d cx n) w)) = w_http w \<and>
    free (snd (run_state (ticks e d cx n) w))"
  using assms(2,3)
proof (induction n arbitrary: w)
  case (Suc n)
  obtain res w' where run: "run_state (tick e d cx) w = (res, w')" by fastforce
  have "w_table w' = w_table w \<and> w_http w' = w_http w \<and> free w'"
    using assms(1) Suc.prems(1) run
  proof (rule tick_free)
    fix v v2 tcx
    let ?rows = "map (scan_row (e_null_time e)) (select_non_terminal (e_null_time e) (e_collate e) 200 (w_table w))"
    assume loop: "run_state (tick_rows e d tcx None ?rows) v = (res, v2)"
      and v: "w_table v = w_table w" "w_http v = w_http w" "rc_backoff v = 0"
      and fin: "w_table w' = w_table v2" "w_http w' = w_http v2" "rc_backoff w' = rc_backoff v2" "\<not> rc_locked w'"
    have "list_all (\<lambda>r. external_id r = []) ?rows"
      using Suc.prems(2) by (simp add: list_all_iff scan_row_ext)
    from tick_rows_unsubmitted [OF this loop] v fin show ?thesis by (simp add: unmoved_def free_def)
  qed
  with Suc.IH [of w'] Suc.prems(2) run show ?case by simp
qed simp

text \<open>C28: rows without an external id can block the queue for good. When the 200 oldest open rows
  have none, no number of ticks sends a request or changes a row, so that every open request
  behind them is never polled again.\<close>

theorem unsubmitted_rows_starve:
  assumes "quiet e" and "free w"
    and "\<And>r. r \<in> set (select_non_terminal (e_null_time e) (e_collate e) 200 (w_table w)) \<Longrightarrow> \<not> has_ext r"
  shows "w_table (snd (run_state (ticks e d cx n) w)) = w_table w \<and> w_http (snd (run_state (ticks e d cx n) w)) = w_http w"
  using ticks_unsubmitted [OF assms] by simp

theorem unsubmitted_rows_starve_witness:
  "w_http (snd (run_state (ticks (demo_env refused) demo_rdeps background 3) (demo_rworld [demo_row\<lparr>c_ext := None\<rparr>]))) = []"
proof -
  have "\<not> has_ext r"
    if "r \<in> set (select_non_terminal (e_null_time (demo_env refused)) (e_collate (demo_env refused)) 200
      (w_table (demo_rworld [demo_row\<lparr>c_ext := None\<rparr>])))" for r
    using set_select_non_terminal [OF that] by (simp add: has_ext_def)
  then have "w_http (snd (run_state (ticks (demo_env refused) demo_rdeps background 3) (demo_rworld [demo_row\<lparr>c_ext := None\<rparr>]))) =
      w_http (demo_rworld [demo_row\<lparr>c_ext := None\<rparr>])"
    by (intro unsubmitted_rows_starve [THEN conjunct2]) (simp_all add: free_def)
  then show ?thesis by simp
qed

end
