(* ===== verification/Task_Scheduler.thy ===== *)
theory Task_Scheduler
  imports Reconciler
begin

text \<open>
  \<open>internal/scheduler/server.go\<close>: the adapter from the host's scheduled tasks to \<open>Tick\<close>. The error
  texts quote the key with \<open>%q\<close>; the model keeps the key itself.
\<close>

datatype task_error = UnknownTask string | NotConfigured | TickFailed goerr

text \<open>What follows the last colon, or the whole key.\<close>

definition task_id :: "string \<Rightarrow> string" where
  "task_id key = rev (takeWhile (\<lambda>c. c \<noteq> CHR '':'') (rev key))"

definition run_task ::
  "env \<Rightarrow> reconciler_deps option \<Rightarrow> ctx \<Rightarrow> string \<Rightarrow> ('z, task_error + unit) rio" where
  "run_task e rc cx key =
     (if task_id key \<noteq> ''reconciler'' then State_Monad.return (Inl (UnknownTask key))
      else case rc of
        None \<Rightarrow> State_Monad.return (Inl NotConfigured)
      | Some d \<Rightarrow> do {
          err \<leftarrow> tick e d cx;
          State_Monad.return (case err of Some x \<Rightarrow> Inl (TickFailed x) | None \<Rightarrow> Inr ())
        })"

lemma task_id_append: "CHR '':'' \<notin> set s \<Longrightarrow> task_id (p @ CHR '':'' # s) = s"
proof -
  assume "CHR '':'' \<notin> set s"
  then have "takeWhile (\<lambda>c. c \<noteq> CHR '':'') (rev s @ CHR '':'' # rev p) = rev s @ takeWhile (\<lambda>c. c \<noteq> CHR '':'') (CHR '':'' # rev p)"
    by (intro takeWhile_append2) auto
  then show ?thesis by (simp add: task_id_def)
qed

lemma task_id_plain: "CHR '':'' \<notin> set s \<Longrightarrow> task_id s = s"
proof -
  assume "CHR '':'' \<notin> set s"
  then have "takeWhile (\<lambda>c. c \<noteq> CHR '':'') (rev s) = rev s"
    by (intro takeWhile_eq_all_conv [THEN iffD2]) auto
  then show ?thesis by (simp only: task_id_def rev_rev_ident)
qed

lemma task_id_split:
  "task_id key = key \<and> CHR '':'' \<notin> set key \<or> (\<exists>p. key = p @ CHR '':'' # task_id key)"
proof (cases "CHR '':'' \<in> set key")
  case True
  then obtain p s where "key = p @ CHR '':'' # s" "CHR '':'' \<notin> set s" by (metis split_list_last)
  with task_id_append [of s p] show ?thesis by auto
qed (simp add: task_id_plain)

section \<open>Dispatch\<close>

text \<open>The scheduler runs the reconciler exactly for its own task. A key names it exactly when it
  is the bare id or ends in a colon and the id, whatever the installation; then the run is the
  tick, and its error is the tick's. Any other key, and any key before the configuration, is an
  error that touches nothing.\<close>

lemma scheduler_dispatch:
  "(task_id key = ''reconciler'' \<longleftrightarrow> key = ''reconciler'' \<or> (\<exists>p. key = p @ '':reconciler'')) \<and>
   (task_id key \<noteq> ''reconciler'' \<longrightarrow> run_state (run_task e rc cx key) w = (Inl (UnknownTask key), w)) \<and>
   (task_id key = ''reconciler'' \<longrightarrow>
     run_state (run_task e None cx key) w = (Inl NotConfigured, w) \<and>
     run_state (run_task e (Some d) cx key) w =
       (case run_state (tick e d cx) w of (err, w') \<Rightarrow> ((case err of Some x \<Rightarrow> Inl (TickFailed x) | None \<Rightarrow> Inr ()), w')))"
proof (intro conjI)
  have plain: "task_id ''reconciler'' = ''reconciler''" by (rule task_id_plain) simp
  have colon: "task_id (p @ '':reconciler'') = ''reconciler''" for p by (rule task_id_append) simp
  show "task_id key = ''reconciler'' \<longleftrightarrow> key = ''reconciler'' \<or> (\<exists>p. key = p @ '':reconciler'')"
  proof
    assume id: "task_id key = ''reconciler''"
    from task_id_split [of key] show "key = ''reconciler'' \<or> (\<exists>p. key = p @ '':reconciler'')"
      unfolding id by fastforce
  qed (use plain colon in auto)
qed (simp_all add: run_task_def split: prod.splits)

end
