(* ===== verification/Lifecycle.thy ===== *)
theory Lifecycle
  imports Event_Consumer Reconciler_Spec Task_Scheduler
begin

text \<open>
  The life of a request. Its abstract form has three phases; every statement of the consumer, the
  reconciler and the admin actions is one step of it, so that the steps compose with failures and
  interleaved statements at any point. Then one request from its event to its import, and a
  request that is lost.
\<close>

section \<open>The states a request can be in\<close>

definition early :: "string set" where
  "early = {''submitted'', ''acknowledged'', ''failed''}"

definition progress :: "string set" where
  "progress = {''searching'', ''found'', ''downloading''}"

text \<open>A known status, and past the acknowledgement an upstream job to poll.\<close>

definition sane_row :: "row \<Rightarrow> bool" where
  "sane_row r \<longleftrightarrow> wf_row r \<and> c_status r \<in> early \<union> progress \<union> {''imported''} \<and> (c_status r \<notin> early \<longrightarrow> has_ext r)"

definition sane_table :: "table \<Rightarrow> bool" where
  "sane_table t \<longleftrightarrow> distinct (map c_id t) \<and> list_all sane_row t"

text \<open>The statements the plugin runs.\<close>

fun sane_stmt :: "stmt \<Rightarrow> bool" where
  "sane_stmt (Upsert rid ext st _ err _) \<longleftrightarrow>
     rid \<noteq> [] \<and> ext \<noteq> Some [] \<and> err \<noteq> Some [] \<and> st \<in> early \<union> progress \<and> (st \<in> progress \<longrightarrow> ext \<noteq> None)"
| "sane_stmt (MarkPolled rid ext st _) \<longleftrightarrow>
     rid \<noteq> [] \<and> ext \<noteq> None \<and> ext \<noteq> Some [] \<and> st \<in> early \<union> progress \<union> {''imported''}"
| "sane_stmt (Retry rid) \<longleftrightarrow> rid \<noteq> []"
| "sane_stmt (MarkFailed rid reason) \<longleftrightarrow> rid \<noteq> [] \<and> reason \<noteq> []"

lemma early_progress [simp]: "st \<in> progress \<Longrightarrow> st \<notin> early" "''imported'' \<notin> early" "''imported'' \<notin> progress"
    "''submitted'' \<notin> progress" "''acknowledged'' \<notin> progress" "''failed'' \<notin> progress" "''acknowledged'' \<in> early" "''failed'' \<in> early" "''submitted'' \<in> early"
  by (auto simp: early_def progress_def)

lemma has_ext_coalesce: "ext \<noteq> Some [] \<Longrightarrow> r' = r\<lparr>c_ext := coalesce ext (c_ext r)\<rparr> \<Longrightarrow> ext \<noteq> None \<or> has_ext r \<Longrightarrow> has_ext r'"
  by (cases ext) (auto simp: has_ext_def)

lemma sane_row_updates:
  "sane_row r \<Longrightarrow> sane_stmt (Upsert rid ext st p err upd) \<Longrightarrow> sane_row (merge_row ext st p err upd r)"
  "sane_stmt (Upsert rid ext st p err upd) \<Longrightarrow> sane_row (new_row n rid ext st p err upd)"
  "sane_row r \<Longrightarrow> sane_stmt (MarkPolled rid ext st t) \<Longrightarrow> sane_row (polled_row ext st t r)"
  "sane_row r \<Longrightarrow> sane_row (retried_row n r)"
  "sane_row r \<Longrightarrow> reason \<noteq> [] \<Longrightarrow> sane_row (failed_row n reason r)"
  by (cases ext; auto simp: sane_row_def has_ext_def merge_row_def new_row_def polled_row_def retried_row_def failed_row_def
      wf_row_def coalesce_eq_Some split: option.splits)+

lemma sane_update_where:
  assumes "sane_table t" and "\<And>r. c_id (f r) = c_id r" and "\<And>r. sane_row r \<Longrightarrow> sane_row (f r)"
  shows "sane_table (update_where p f t)"
  using assms map_id_update_where [of f p t]
  by (auto simp: sane_table_def list_all_iff) (auto simp: update_where_def)

lemma sane_exec:
  assumes "sane_table t" and "sane_stmt s"
  shows "sane_table (fst (exec_stmt n s t))"
proof (cases s)
  case (Upsert rid ext st polled err upd)
  show ?thesis
  proof (cases "lookup t rid")
    case None
    with assms Upsert sane_row_updates(2) show ?thesis
      by (auto simp: sane_table_def lookup_None_iff simp del: sane_stmt.simps)
  next
    case (Some r)
    with assms Upsert show ?thesis by (auto intro!: sane_update_where sane_row_updates(1) simp del: sane_stmt.simps)
  qed
next
  case (MarkPolled rid ext st w)
  with assms show ?thesis by (auto intro!: sane_update_where sane_row_updates(3) simp del: sane_stmt.simps)
qed (use assms in \<open>auto intro!: sane_update_where sane_row_updates\<close>)

lemma sane_table_row: "sane_table t \<Longrightarrow> lookup t rid = Some r \<Longrightarrow> sane_row r"
  by (auto simp: sane_table_def list_all_iff dest: lookup_in)

section \<open>The abstract life of a request\<close>

datatype phase = Absent | Open | Done string

definition phase_of :: "table \<Rightarrow> string \<Rightarrow> phase" where
  "phase_of t rid =
     (case lookup t rid of
        None \<Rightarrow> Absent
      | Some r \<Rightarrow> if terminal (c_status r) then Done (c_status r) else Open)"

text \<open>The flag says whether an admin may act.\<close>

inductive phase_step :: "bool \<Rightarrow> phase \<Rightarrow> phase \<Rightarrow> bool" for admin where
  stay: "phase_step admin p p"
| submit: "phase_step admin Absent Open"
| fail_new: "phase_step admin Absent (Done ''failed'')"
| finish: "terminal st \<Longrightarrow> phase_step admin Open (Done st)"
| revive: "admin \<Longrightarrow> phase_step admin (Done st) Open"
| give_up: "admin \<Longrightarrow> p \<noteq> Absent \<Longrightarrow> phase_step admin p (Done ''failed'')"

inductive_cases done_stepE: "phase_step admin (Done st) p"

lemma terminal_simps [simp]: "terminal ''imported''" "terminal ''failed''" "\<not> terminal ''acknowledged''" "\<not> terminal ''submitted''"
  by (simp_all add: terminal_def)

lemma open_status: "st \<in> early \<union> progress \<Longrightarrow> terminal st \<longleftrightarrow> st = ''failed''"
  by (auto simp: early_def progress_def terminal_def)

text \<open>Every statement is a step of every request's life.\<close>

lemma stmt_refines:
  assumes "sane_stmt s"
  shows "phase_step (\<not> guarded s) (phase_of t rid) (phase_of (fst (exec_stmt n s t)) rid)"
proof (cases "stmt_id s = rid")
  case False
  then have "phase_of (fst (exec_stmt n s t)) rid = phase_of t rid" by (simp add: phase_of_def lookup_exec)
  then show ?thesis by (simp add: phase_step.stay)
next
  case True
  have id: "lookup (fst (exec_stmt n s t)) rid = stmt_row n s (lookup t rid)"
    using True by (simp add: lookup_exec exec_map_def)
  show ?thesis
  proof (cases s)
    case (Upsert k ext st p err upd)
    with assms id show ?thesis
      by (cases "lookup t rid")
        (auto simp: phase_of_def new_row_def merge_row_def open_status intro: phase_step.intros)
  next
    case (MarkPolled k ext st p)
    with assms id show ?thesis
      by (cases "lookup t rid") (auto simp: phase_of_def polled_row_def intro: phase_step.intros)
  next
    case (Retry k)
    with assms id show ?thesis
      by (cases "lookup t rid") (auto simp: phase_of_def retried_row_def intro: phase_step.intros)
  next
    case (MarkFailed k reason)
    with assms id show ?thesis
      by (cases "lookup t rid") (auto simp: phase_of_def failed_row_def intro: phase_step.intros)
  qed
qed

definition allowed :: "bool \<Rightarrow> stmt \<Rightarrow> bool" where
  "allowed admin s \<longleftrightarrow> sane_stmt s \<and> (admin \<or> guarded s)"

lemma phase_step_mono: "phase_step a p q \<Longrightarrow> a \<longrightarrow> b \<Longrightarrow> phase_step b p q"
  by (erule phase_step.cases) (auto intro: phase_step.intros)

lemma path_refines:
  assumes "table_path (allowed admin) t t'"
  shows "(phase_step admin)\<^sup>*\<^sup>* (phase_of t rid) (phase_of t' rid)"
  using assms
proof (rule table_path_rel)
  fix n s t assume "allowed admin s"
  then have "phase_step admin (phase_of t rid) (phase_of (fst (exec_stmt n s t)) rid)"
    by (auto simp: allowed_def intro: phase_step_mono [OF stmt_refines])
  then show "(phase_step admin)\<^sup>*\<^sup>* (phase_of t rid) (phase_of (fst (exec_stmt n s t)) rid)" by simp
qed auto

lemma path_sane: "table_path (allowed admin) t t' \<Longrightarrow> sane_table t \<Longrightarrow> sane_table t'"
  by (erule table_path_inv) (auto simp: allowed_def sane_exec)

section \<open>The parts run only such statements\<close>

lemma allowed_upsert_record:
  "rid \<noteq> [] \<Longrightarrow> st \<in> {''submitted'', ''acknowledged'', ''failed''} \<Longrightarrow> allowed a (upsert_stmt (record_of rid ext st err t) upd)"
  by (auto simp: allowed_def upsert_stmt_def record_of_def)

lemma handle_event_path:
  fixes w :: "'z world_scheme"
  assumes "others_do (allowed a) e"
  shows "table_path (allowed a) (w_table w) (w_table (snd (run_state (handle_event e df cx ev) w)))"
proof -
  have "effect_of (on_table (allowed a)) (handle_event e df cx ev :: ('z, goerr + unit) io)"
    by (rule on_table_handle_event_records [OF assms]) (rule allowed_upsert_record)
  then show ?thesis by (simp add: effect_of_def on_table_def)
qed

lemma translated: "translate_status u \<noteq> [] \<Longrightarrow> translate_status u \<in> early \<union> progress \<union> {''imported''}"
  by (auto simp: translate_status_def early_def progress_def split: if_splits)

lemma sane_row_saves:
  assumes "sane_row r" and "\<not> terminal (c_status r)"
  shows "saves (allowed a) (scan_row z r)"
proof -
  have "allowed a (upsert_stmt (error_record (scan_row z r) msg t1 t2) upd)" if "external_id (scan_row z r) \<noteq> []" for msg t1 t2 upd
    using assms that
    by (auto simp: allowed_def upsert_stmt_def error_record_def sane_row_def wf_row_def terminal_def)
  moreover have "allowed a (MarkPolled (request_id (scan_row z r)) (opt_string (external_id (scan_row z r))) st t)"
    if "external_id (scan_row z r) \<noteq> []" "st = status (scan_row z r) \<or> st \<noteq> [] \<and> (\<exists>u. st = translate_status u)" for st t
    using assms that translated by (auto simp: allowed_def sane_row_def wf_row_def)
  ultimately show ?thesis unfolding saves_def by blast
qed

lemma tick_path:
  fixes w :: "'z rworld_scheme"
  assumes others: "others_do (allowed a) e" and sane: "sane_table (w_table w)"
  shows "table_path (allowed a) (w_table w) (w_table (snd (run_state (tick e d cx) w)))"
proof -
  obtain res w' where run: "run_state (tick e d cx) w = (res, w')" by fastforce
  have "table_path (allowed a) (w_table w) (w_table w')"
    using run
  proof (rule tick_cases)
    fix v v1 v2 :: "'z rworld_scheme" and rows tcx
    assume v: "w_table v = w_table w" "w_db v = w_db w" "w_table w' = w_table v2"
      and lst: "run_state (list_non_terminal e 200) v = (Inr rows, v1)"
      and loop: "run_state (tick_rows e d tcx None rows) v1 = (res, v2)"
    from lst obtain m where rows: "rows = map (scan_row (e_null_time e)) (take m (select_non_terminal (e_null_time e) (e_collate e) 200 (w_table v1)))"
      and v1: "w_table v1 = run_stmts (e_others e (length (w_db w))) (w_table w)"
      by (rule list_non_terminal_any) (use v in auto)
    have to_v1: "table_path (allowed a) (w_table w) (w_table v1)"
      unfolding v1 by (rule table_path_others [OF others])
    then have "sane_table (w_table v1)" using sane by (rule path_sane)
    then have "list_all (saves (allowed a)) rows"
      unfolding rows by (auto simp: list_all_iff sane_table_def dest!: in_set_takeD set_select_non_terminal intro!: sane_row_saves)
    from effect_ofD [OF on_table_tick_rows [OF others this] loop] have "table_path (allowed a) (w_table v1) (w_table v2)"
      by (simp add: on_table_def)
    with to_v1 v show ?thesis by (simp add: table_path_trans)
  next
    fix err assume "w_table w' = run_stmts (e_others e (length (w_db w))) (w_table w)"
    then show ?thesis using table_path_others [OF others] by simp
  qed (simp add: idle_def)
  with run show ?thesis by simp
qed

lemma run_task_path:
  fixes w :: "'z rworld_scheme"
  assumes "others_do (allowed a) e" and "sane_table (w_table w)"
  shows "table_path (allowed a) (w_table w) (w_table (snd (run_state (run_task e rc cx key) w)))"
  using tick_path [OF assms]
  by (auto simp: run_task_def split: option.splits prod.splits) (metis snd_conv)

lemma phase_final:
  assumes "(phase_step False)\<^sup>*\<^sup>* p q"
  shows "(p = Done st \<longrightarrow> q = Done st) \<and> (p \<noteq> Absent \<longrightarrow> q \<noteq> Absent)"
  using assms
proof (induction rule: rtranclp_induct)
  case (step q r)
  from step.hyps(2) step.IH show ?case by cases auto
qed simp

section \<open>One request from end to end\<close>

lemma single_row:
  assumes "distinct (map c_id t)" and "lookup t rid = Some y" and "\<And>k. k \<noteq> rid \<Longrightarrow> lookup t k = None"
  shows "t = [y]"
proof -
  have all: "r = y" if "r \<in> set t" for r
    using lookup_distinct [OF assms(1) that] assms(2) assms(3) [of "c_id r"] by (cases "c_id r = rid") auto
  show ?thesis
  proof (cases t)
    case (Cons a u)
    with all have "a = y" by simp
    moreover have "u = []"
    proof (cases u)
      case (Cons b v)
      with \<open>t = a # u\<close> all have "b = y" by simp
      with Cons \<open>t = a # u\<close> \<open>a = y\<close> assms(1) show ?thesis by simp
    qed
    ultimately show ?thesis using Cons by simp
  qed (use assms(2) in simp)
qed

text \<open>The handler on an empty table, with an upstream that accepts the job.\<close>

lemma first_event:
  fixes w :: "'z rworld_scheme"
  assumes q: "quiet e" and d: "cd_store d" "cd_ebk d = Some c" "addressed d ev p" and title: "mr_title (monitoring_of p) \<noteq> []"
    and w: "w_table w = []" "free w"
    and up: "\<And>r. e_http e (length (w_http w)) r = ReqDone rs" "rs_read_error rs = None" "rs_status rs < 400"
      "decode_monitoring e (limit_read max_response_bytes (rs_body rs)) ''monitoring/add'' = Inr m"
    and run: "run_state (handle_event e (Some (Some d)) cx ev) w = (res, w')"
  obtains y where "res = Inr ()" "w_table w' = [y]" "c_id y = request_id_of p" "c_status y = ''acknowledged''"
    "c_ext y = opt_string (ms_id m)" "length (w_http w') = Suc (length (w_http w))" "free w'"
    "w_events w' = w_events w @ published d ''request_acknowledged'' (acknowledged_payload (request_id_of p) (ms_id m) (cd_plugin d))"
proof -
  have rid: "request_id_of p \<noteq> []" using d(3) by (simp add: addressed_def)
  have fwd: "run_state (forward_request e d c cx (request_id_of p) (monitoring_of p)) w = (res, w')"
    using run d by (simp add: handle_event_addressed)
  have answered: "resp = Inr m \<and> length (w_http v') = Suc (length (w_http w))"
    if "run_state (add_monitoring e c acx r) v = (resp, v')" "w_http v = w_http w" for resp acx r and v v' :: "'z rworld_scheme"
    using add_monitoring_answer [of e v rs c acx r] that up by auto
  from forward_quiet [OF q rid fwd] title answered
  have out: "res = Inr ()" "settled d (request_id_of p) w w' (ms_id m) ''acknowledged'' [] ''request_acknowledged''
      (acknowledged_payload (request_id_of p) (ms_id m) (cd_plugin d))" "length (w_http w') = Suc (length (w_http w))"
    by fastforce+
  have "wf_table (w_table w')"
  proof -
    have "effect_of (on_table wf_stmt) (handle_event e (Some (Some d)) cx ev :: ('z, goerr + unit) rio)"
      by (rule on_table_handle_event) (use q in \<open>simp_all add: wf_upsert_stmt\<close>)
    from on_table_wf [OF this _, of w] run w(1) show ?thesis by (simp add: wf_table_def)
  qed
  then have d: "distinct (map c_id (w_table w'))" by (simp add: wf_table_def)
  from out(2) w(1) obtain y where y: "lookup (w_table w') (request_id_of p) = Some y" "outcome_row (ms_id m) ''acknowledged'' [] None y"
    "\<And>k. k \<noteq> request_id_of p \<Longrightarrow> lookup (w_table w') k = None"
    by (auto simp: settled_def)
  have "w_table w' = [y]" by (rule single_row [OF d y(1,3)])
  moreover have "free w'"
    using effect_ofD [OF memory_kept_handle_event run] w(2) same_memory [of w' w] by (simp add: memory_kept_def free_def)
  ultimately show thesis
    using that [of y] y out lookup_id [OF y(1)] by (simp add: outcome_row_def settled_def old_ext_def)
qed

text \<open>A tick whose work list begins with a row with a job, with an upstream that answers the first
  request: the row is polled, and the loop goes on with the other rows.\<close>

lemma tick_polls_first:
  fixes w :: "'z rworld_scheme"
  assumes q: "quiet e" and w: "free w" "lookup (w_table w) (c_id y) = Some y" "c_id y \<noteq> []" "c_ext y = Some x" "x \<noteq> []"
    and list: "select_non_terminal (e_null_time e) (e_collate e) 200 (w_table w) = y # ys"
    and steady: "\<And>m n. e_clock e n < e_clock e m + tick_timeout" "\<And>n. \<not> e_cancelled e n"
    and up: "\<And>r. e_http e (length (w_http w)) r = ReqDone rs" "rs_read_error rs = None" "rs_status rs < 400"
      "decode_monitoring e (limit_read max_response_bytes (rs_body rs)) ''monitoring snapshot'' = Inr m"
    and run: "run_state (tick e d background) w = (res, w')"
  obtains tcx and v :: "'z rworld_scheme" and v1 v2 and r where
    "w_table v = w_table w" "w_events v = w_events w" "answer_recorded d (scan_row (e_null_time e) y) y m v v1"
    "w_http v1 = w_http w @ [r]" "rq_url r = cl_base (rd_ebk d) @ ''/api/v1/monitoring/'' @ path_escape x"
    "run_state (tick_rows e d tcx None (map (scan_row (e_null_time e)) ys)) v1 = (res, v2)"
    "w_table w' = w_table v2" "w_http w' = w_http v2" "w_events w' = w_events v2"
  using q w(1) run
proof (rule tick_free)
  let ?r = "scan_row (e_null_time e) y"
  fix v v2 :: "'z rworld_scheme" and tcx
  assume loop: "run_state (tick_rows e d tcx None
       (map (scan_row (e_null_time e)) (select_non_terminal (e_null_time e) (e_collate e) 200 (w_table w)))) v = (res, v2)"
    and v: "w_table v = w_table w" "w_http v = w_http w" "w_events v = w_events w"
    and dl: "cx_deadline background = None \<Longrightarrow> \<exists>n. cx_deadline tcx = Some (e_clock e n + tick_timeout)"
    and fin: "w_table w' = w_table v2" "w_http w' = w_http v2" "w_events w' = w_events v2"
  have ext: "external_id ?r = x" using w(4) by (simp add: scan_row_def)
  obtain v0 where live: "run_state (ctx_done e tcx) v = (False, v0)" and v0: "w_table v0 = w_table v" "w_http v0 = w_http v" "w_events v0 = w_events v"
    using dl steady by (auto simp: ctx_done_def now_run background_def not_le)
  obtain r v1 where poll: "run_state (poll_row e d tcx None ?r) v0 = (r, v1)" by fastforce
  have look: "lookup (w_table v0) (request_id ?r) = Some y" "request_id ?r \<noteq> []" using v v0 w by simp_all
  from poll_row_recorded [OF q look(2,1) poll] show thesis
  proof (elim exE conjE)
    fix rcx snap and u u' :: "'z rworld_scheme"
    assume get: "run_state (get_monitoring e (rd_ebk d) rcx (external_id ?r)) u = (snap, u')" and u: "w_http u = w_http v0" "w_http v1 = w_http u'"
      and fate: "case snap of
         Inr m \<Rightarrow> r = (None, False) \<and> answer_recorded d ?r y m v0 v1
       | Inl err \<Rightarrow> snd r = (is_rate_limited err \<noteq> None) \<and> error_recorded ?r (Some y) (err_text err) v0 v1"
    have snap: "snap = Inr m" and sent: "\<exists>q. w_http u' = w_http u @ [q] \<and> rq_url q = row_url d ?r"
      unfolding row_url_def using get_monitoring_answer [of e u rs "rd_ebk d" rcx "external_id ?r"] get up u v v0 by auto
    with fate have rec: "r = (None, False)" "answer_recorded d ?r y m v0 v1" by simp_all
    from sent obtain hr where hr: "w_http v1 = w_http w @ [hr]" "rq_url hr = cl_base (rd_ebk d) @ ''/api/v1/monitoring/'' @ path_escape x"
      using u v v0 ext by (auto simp: row_url_def)
    have "run_state (tick_rows e d tcx None (map (scan_row (e_null_time e)) ys)) v1 = (res, v2)"
      using loop live poll rec(1) ext w(5) by (simp add: list)
    with rec(2) hr fin v v0 show ?thesis by (intro that [of v0 v1 hr tcx v2]) simp_all
  qed
qed

lemma announced_completion:
  assumes "answer_recorded d (scan_row z y) y m v v1" and "c_status y = ''acknowledged''" "ms_status m = ''completed''"
    and "c_ext y = Some x" "x \<noteq> []" and "pub_host (rd_pub d)"
  shows "\<exists>y'. lookup (w_table v1) (c_id y) = Some y' \<and> c_status y' = ''imported'' \<and> c_ext y' = Some x"
    and "w_events v1 = w_events v @ [(''request_fulfilled'', ids_payload d (scan_row z y) @ [(''fulfilled_book_id'', JStr (ms_book m))])]"
proof -
  have tr: "translate_status (ms_status m) = ''imported''" by (simp add: assms(3) translate_status_def)
  have ext: "external_id (scan_row z y) = x" using assms(4) by (simp add: scan_row_def)
  show "\<exists>y'. lookup (w_table v1) (c_id y) = Some y' \<and> c_status y' = ''imported'' \<and> c_ext y' = Some x"
    "w_events v1 = w_events v @ [(''request_fulfilled'', ids_payload d (scan_row z y) @ [(''fulfilled_book_id'', JStr (ms_book m))])]"
    using assms tr ext by (auto simp: answer_recorded_def Let_def poll_recorded_def transition_event_def)
qed

text \<open>When it is the only row, that is all the tick does.\<close>

lemma tick_completes:
  fixes w :: "'z rworld_scheme"
  assumes q: "quiet e" and w: "free w" "w_table w = [y]" "c_id y \<noteq> []" "c_status y = ''acknowledged''" "c_ext y = Some x" "x \<noteq> []"
    and steady: "\<And>m n. e_clock e n < e_clock e m + tick_timeout" "\<And>n. \<not> e_cancelled e n"
    and up: "\<And>r. e_http e (length (w_http w)) r = ReqDone rs" "rs_read_error rs = None" "rs_status rs < 400"
      "decode_monitoring e (limit_read max_response_bytes (rs_body rs)) ''monitoring snapshot'' = Inr m"
      "ms_status m = ''completed''"
    and pub: "pub_host (rd_pub d)"
    and run: "run_state (tick e d background) w = (res, w')"
  shows "res = None \<and> (\<exists>y'. lookup (w_table w') (c_id y) = Some y' \<and> c_status y' = ''imported'' \<and> c_ext y' = Some x) \<and>
    (\<exists>r. w_http w' = w_http w @ [r] \<and> rq_url r = cl_base (rd_ebk d) @ ''/api/v1/monitoring/'' @ path_escape x) \<and>
    w_events w' = w_events w @ [(''request_fulfilled'', ids_payload d (scan_row (e_null_time e) y) @ [(''fulfilled_book_id'', JStr (ms_book m))])]"
proof -
  have list: "select_non_terminal (e_null_time e) (e_collate e) 200 (w_table w) = y # []"
    using w(2,4) by (simp add: select_non_terminal_def open_rows_def)
  have look: "lookup (w_table w) (c_id y) = Some y" using w(2) by (simp add: lookup_Cons)
  from q w(1) look w(3,5,6) list steady up(1-4) run show ?thesis
  proof (rule tick_polls_first)
    fix tcx and v v1 v2 :: "'z rworld_scheme" and r
    assume rec: "w_events v = w_events w" "answer_recorded d (scan_row (e_null_time e) y) y m v v1"
      and sent: "w_http v1 = w_http w @ [r]" "rq_url r = cl_base (rd_ebk d) @ ''/api/v1/monitoring/'' @ path_escape x"
      and rest: "run_state (tick_rows e d tcx None (map (scan_row (e_null_time e)) [])) v1 = (res, v2)"
      and fin: "w_table w' = w_table v2" "w_http w' = w_http v2" "w_events w' = w_events v2"
    have "res = None" "v2 = v1" using rest by simp_all
    with rec(1) sent fin announced_completion [OF rec(2) w(4) up(5) w(5,6) pub] show ?thesis by auto
  qed
qed

text \<open>When there are others, they do not undo it: no statement of the rest of the loop is about that
  row, and events are only added.\<close>

lemma tick_completes_first:
  fixes w :: "'z rworld_scheme"
  assumes q: "quiet e" and w: "free w" "lookup (w_table w) (c_id y) = Some y" "c_id y \<noteq> []" "c_status y = ''acknowledged''" "c_ext y = Some x" "x \<noteq> []"
    and wf: "wf_table (w_table w)" and list: "select_non_terminal (e_null_time e) (e_collate e) 200 (w_table w) = y # ys"
    and steady: "\<And>m n. e_clock e n < e_clock e m + tick_timeout" "\<And>n. \<not> e_cancelled e n"
    and up: "\<And>r. e_http e (length (w_http w)) r = ReqDone rs" "rs_read_error rs = None" "rs_status rs < 400"
      "decode_monitoring e (limit_read max_response_bytes (rs_body rs)) ''monitoring snapshot'' = Inr m"
      "ms_status m = ''completed''"
    and pub: "pub_host (rd_pub d)"
    and run: "run_state (tick e d background) w = (res, w')"
  shows "\<exists>y' r qs evs. lookup (w_table w') (c_id y) = Some y' \<and> c_status y' = ''imported'' \<and> c_ext y' = Some x \<and>
    w_http w' = w_http w @ r # qs \<and> rq_url r = cl_base (rd_ebk d) @ ''/api/v1/monitoring/'' @ path_escape x \<and>
    w_events w' = w_events w @ (''request_fulfilled'', ids_payload d (scan_row (e_null_time e) y) @ [(''fulfilled_book_id'', JStr (ms_book m))]) # evs"
  using q w(1-3,5,6) list steady up(1-4) run
proof (rule tick_polls_first)
  let ?rest = "map (scan_row (e_null_time e)) ys"
  fix tcx and v v1 v2 :: "'z rworld_scheme" and r
  assume rec: "w_events v = w_events w" "answer_recorded d (scan_row (e_null_time e) y) y m v v1"
    and sent: "w_http v1 = w_http w @ [r]" "rq_url r = cl_base (rd_ebk d) @ ''/api/v1/monitoring/'' @ path_escape x"
    and rest: "run_state (tick_rows e d tcx None ?rest) v1 = (res, v2)"
    and fin: "w_table w' = w_table v2" "w_http w' = w_http v2" "w_events w' = w_events v2"
  have "distinct (map c_id (y # ys))"
    using distinct_select_non_terminal wf unfolding list [symmetric] by (simp add: wf_table_def)
  then have "c_id z \<noteq> c_id y" if "z \<in> set ys" for z using that by (auto simp: image_iff)
  then have "list_all (saves (\<lambda>s. stmt_id s \<noteq> c_id y)) ?rest"
    by (simp add: list_all_iff saves_def)
  then have "effect_of (on_table (\<lambda>s. stmt_id s \<noteq> c_id y)) (tick_rows e d tcx None ?rest :: ('z, goerr option) rio)"
    using q by (intro on_table_tick_rows) simp_all
  then have "table_path (\<lambda>s. stmt_id s \<noteq> c_id y) (w_table v1) (w_table v2)"
    using rest by (metis effect_of_def on_table_def snd_conv)
  then have keep: "lookup (w_table v2) (c_id y) = lookup (w_table v1) (c_id y)" by (rule table_path_frame)
  from tick_rows_any [OF rest] obtain qs evs where more: "w_http v2 = w_http v1 @ qs" "w_events v2 = w_events v1 @ evs"
    by (auto simp: loop_outcome_def)
  from announced_completion [OF rec(2) w(4) up(5) w(5,6) pub] keep more rec(1) sent fin show ?thesis by simp
qed

text \<open>A row just retried comes first when every other open row was polled before.\<close>

lemma fresh_row_first:
  assumes "distinct (map c_id t)" and y: "y \<in> set t" "\<not> terminal (c_status y)" "c_polled y = None"
    and others: "\<And>s. s \<in> set t \<Longrightarrow> s \<noteq> y \<Longrightarrow> \<not> terminal (c_status s) \<Longrightarrow> \<exists>p. c_polled s = Some p \<and> z < p"
    and n: "0 < n"
  shows "\<exists>ys. select_non_terminal z ck n t = y # ys"
proof -
  let ?xs = "sort_key (row_key z ck) (open_rows t)"
  have mem: "y \<in> set ?xs" using y by (simp add: open_rows_def)
  then obtain h hs where xs: "?xs = h # hs" by (cases ?xs) auto
  have "h = y"
  proof (rule ccontr)
    assume "h \<noteq> y"
    have "h \<in> set ?xs" by (simp add: xs)
    then have "h \<in> set t" "\<not> terminal (c_status h)" by (simp_all add: open_rows_def)
    with others \<open>h \<noteq> y\<close> obtain p where p: "c_polled h = Some p" "z < p" by blast
    have "sorted (map (row_key z ck) (h # hs))" using sorted_sort_key xs by metis
    moreover have "y \<in> set hs" using mem \<open>h \<noteq> y\<close> by (auto simp: xs)
    ultimately have "row_key z ck h \<le> row_key z ck y" by simp
    with p y(3) show False by (simp add: row_key_def less_eq_poll_key_def)
  qed
  with xs n show ?thesis by (simp add: select_non_terminal_def take_Cons')
qed

lemma first_event_http:
  assumes "run_state (handle_event e df cx ev) w = (res, w')"
  shows "w_http w' = w_http w \<or> (\<exists>q. w_http w' = w_http w @ [q])"
proof (rule handle_event_cases [of e df cx ev w])
  fix d c p assume d: "addressed d ev p"
    and fwd: "run_state (handle_event e df cx ev) w = run_state (forward_request e d c cx (request_id_of p) (monitoring_of p)) w"
  then have rid: "request_id_of p \<noteq> []" by (simp add: addressed_def)
  from fwd assms have "run_state (forward_request e d c cx (request_id_of p) (monitoring_of p)) w = (res, w')" by simp
  from forward_request_any [OF this rid] show ?thesis
    by (auto simp: le_Suc_eq length_Suc_conv split: if_splits)
qed (use assms in auto)

definition done_body :: string where
  "done_body = json_encode (JObj [(''id'', JStr ''job-1''), (''status'', JStr ''completed''), (''book_id'', JStr ''b7'')])"

definition two_answers :: "nat \<Rightarrow> http_request \<Rightarrow> http_result" where
  "two_answers k r = ReqDone \<lparr>rs_status = 200, rs_headers = [], rs_body = (if k = 0 then job_body else done_body), rs_read_error = None\<rparr>"

lemma done_body_decodes:
  "decode_monitoring e (limit_read max_response_bytes done_body) what = Inr \<lparr>ms_id = ''job-1'', ms_status = ''completed'', ms_book = ''b7''\<rparr>"
proof -
  let ?j = "JObj [(''id'', JStr ''job-1''), (''status'', JStr ''completed''), (''book_id'', JStr ''b7'')]"
  have "json_parse done_body = Some ?j" "limit_read max_response_bytes done_body = done_body"
    "monitoring_fields ?j = Some ([], ''job-1'', ''completed'', ''b7'')" by code_simp+
  then show ?thesis by (simp add: decode_monitoring_def)
qed

lemma job_body_decodes:
  "decode_monitoring e (limit_read max_response_bytes job_body) what = Inr \<lparr>ms_id = ''job-1'', ms_status = ''queued'', ms_book = []\<rparr>"
proof -
  let ?j = "JObj [(''id'', JStr ''job-1''), (''status'', JStr ''queued'')]"
  have "limit_read max_response_bytes job_body = job_body"
    "monitoring_fields ?j = Some ([], ''job-1'', ''queued'', [])" by code_simp+
  with job_body_parse show ?thesis by (simp add: decode_monitoring_def)
qed

text \<open>A tick says nothing to the database about a row without an external id.\<close>

lemma tick_leaves_unsubmitted:
  fixes w :: "'z rworld_scheme"
  assumes others: "others_do (\<lambda>s. stmt_id s \<noteq> rid \<and> wf_stmt s) e" and wf: "wf_table (w_table w)"
    and y: "lookup (w_table w) rid = Some y" "\<not> has_ext y"
    and run: "run_state (tick e d cx) w = (res, w')"
  shows "lookup (w_table w') rid = Some y \<and> wf_table (w_table w')"
proof -
  let ?P = "\<lambda>s. stmt_id s \<noteq> rid \<and> wf_stmt s"
  have "table_path ?P (w_table w) (w_table w')"
    using run
  proof (rule tick_cases)
    fix v v1 v2 :: "'z rworld_scheme" and rows tcx
    assume v: "w_table v = w_table w" "w_db v = w_db w" "w_table w' = w_table v2"
      and lst: "run_state (list_non_terminal e 200) v = (Inr rows, v1)"
      and loop: "run_state (tick_rows e d tcx None rows) v1 = (res, v2)"
    from lst obtain m where rows: "rows = map (scan_row (e_null_time e)) (take m (select_non_terminal (e_null_time e) (e_collate e) 200 (w_table v1)))"
      and v1: "w_table v1 = run_stmts (e_others e (length (w_db w))) (w_table w)"
      by (rule list_non_terminal_any) (use v in auto)
    have to_v1: "table_path ?P (w_table w) (w_table v1)"
      unfolding v1 by (rule table_path_others [OF others])
    have wf1: "wf_table (w_table v1)" by (rule table_path_wf [OF to_v1]) (use wf in auto)
    have look: "lookup (w_table v1) rid = Some y" using table_path_frame [OF to_v1, of rid] y(1) by simp
    have "saves ?P (scan_row (e_null_time e) r)" if "r \<in> set (w_table v1)" for r
    proof (cases "c_id r = rid")
      case True
      then have "r = y" using lookup_distinct [of "w_table v1" r] wf1 that look by (simp add: wf_table_def)
      then show ?thesis using y(2) by (simp add: saves_def scan_row_ext)
    next
      case False
      then show ?thesis
        by (auto simp: saves_def wf_upsert_stmt)
    qed
    then have "list_all (saves ?P) rows"
      unfolding rows by (auto simp: list_all_iff dest!: in_set_takeD set_select_non_terminal)
    from effect_ofD [OF on_table_tick_rows [OF others this] loop] have "table_path ?P (w_table v1) (w_table v2)"
      by (simp add: on_table_def)
    with to_v1 v show ?thesis by (simp add: table_path_trans)
  next
    fix err assume "w_table w' = run_stmts (e_others e (length (w_db w))) (w_table w)"
    then show ?thesis using table_path_others [OF others] by simp
  qed (simp add: idle_def)
  with y(1) wf table_path_frame [of ?P "w_table w" "w_table w'" rid] table_path_wf [of ?P "w_table w" "w_table w'"]
  show ?thesis by auto
qed

lemma ticks_leave_unsubmitted:
  fixes w :: "'z rworld_scheme"
  assumes "others_do (\<lambda>s. stmt_id s \<noteq> rid \<and> wf_stmt s) e" and "wf_table (w_table w)"
    and "lookup (w_table w) rid = Some y" "\<not> has_ext y"
  shows "lookup (w_table (snd (run_state (ticks e d cx n) w))) rid = Some y \<and> wf_table (w_table (snd (run_state (ticks e d cx n) w)))"
  using assms(2,3)
proof (induction n arbitrary: w)
  case (Suc n)
  obtain res w' where run: "run_state (tick e d cx) w = (res, w')" by fastforce
  from tick_leaves_unsubmitted [OF assms(1) Suc.prems assms(4) run] Suc.IH [of w'] run show ?case by simp
qed simp

text \<open>C32: a request can be lost for good. When a request is seen for the first time and the upstream
  accepts it but names only a status, its row is acknowledged without an external id, and stays
  exactly so: no number of ticks, whatever the upstream and the database do in them and whatever
  other goroutines do to other requests, changes the row, and the admin retry answers that there is
  nothing to retry. When it is the only request, the ticks do not even ask the upstream.\<close>

theorem id_less_answer_loses_request:
  fixes w :: rworld
  assumes "quiet e" and "cd_store d" "cd_ebk d = Some c" "addressed d ev p" and "mr_title (monitoring_of p) \<noteq> []"
    and "wf_table (w_table w)" and "lookup (w_table w) (request_id_of p) = None"
    and "\<And>r. e_http e (length (w_http w)) r = ReqDone rs" "rs_read_error rs = None" "rs_status rs < 400"
    and "decode_monitoring e (limit_read max_response_bytes (rs_body rs)) ''monitoring/add'' = Inr m" "ms_id m = []"
    and "others_do (\<lambda>s. stmt_id s \<noteq> request_id_of p \<and> wf_stmt s) e2"
  shows "\<exists>w1 y. run_state (handle_event e (Some (Some d)) cx ev) w = (Inr (), w1) \<and>
    length (w_http w1) = Suc (length (w_http w)) \<and>
    lookup (w_table w1) (request_id_of p) = Some y \<and> c_status y = ''acknowledged'' \<and> c_ext y = None \<and>
    (\<forall>n. let w2 = snd (run_state (ticks e2 rd tcx n) w1) in
       lookup (w_table w2) (request_id_of p) = Some y \<and>
       fst (run_state (retry_request e (request_id_of p)) w2) = Inl ErrNotFound \<and>
       (quiet e2 \<and> free w \<and> w_table w = [] \<longrightarrow> w_http w2 = w_http w1))"
proof -
  let ?rid = "request_id_of p"
  obtain res w1 where run: "run_state (handle_event e (Some (Some d)) cx ev) w = (res, w1)" by fastforce
  have rid: "?rid \<noteq> []" using assms(4) by (simp add: addressed_def)
  have fwd: "run_state (forward_request e d c cx ?rid (monitoring_of p)) w = (res, w1)"
    using run assms(2-4) by (simp add: handle_event_addressed)
  have answered: "resp = Inr m \<and> length (w_http v') = Suc (length (w_http w))"
    if "run_state (add_monitoring e c acx r) v = (resp, v')" "w_http v = w_http w" for resp acx r and v v' :: rworld
    using add_monitoring_answer [of e v rs c acx r] that assms(8-11) by auto
  from forward_quiet [OF assms(1) rid fwd] assms(5) answered
  have out: "res = Inr ()" "settled d ?rid w w1 (ms_id m) ''acknowledged'' [] ''request_acknowledged''
      (acknowledged_payload ?rid (ms_id m) (cd_plugin d))" "length (w_http w1) = Suc (length (w_http w))"
    by fastforce+
  from out(2) assms(7,12) obtain y where y: "lookup (w_table w1) ?rid = Some y" "c_status y = ''acknowledged''" "c_ext y = None"
    and other: "\<And>k. k \<noteq> ?rid \<Longrightarrow> lookup (w_table w1) k = lookup (w_table w) k"
    by (auto simp: settled_def outcome_row_def guard_status_def old_ext_def)
  have ext: "\<not> has_ext y" using y(3) by (simp add: has_ext_def)
  have wf: "wf_table (w_table w1)"
  proof -
    have "effect_of (on_table wf_stmt) (handle_event e (Some (Some d)) cx ev :: (unit, goerr + unit) rio)"
      by (rule on_table_handle_event) (use assms(1) in \<open>simp_all add: wf_upsert_stmt\<close>)
    from on_table_wf [OF this _ assms(6)] run show ?thesis by simp
  qed
  have kept: "lookup (w_table (snd (run_state (ticks e2 rd tcx n) w1))) ?rid = Some y \<and>
      wf_table (w_table (snd (run_state (ticks e2 rd tcx n) w1)))" for n
    by (rule ticks_leave_unsubmitted [OF assms(13) wf y(1) ext])
  have "fst (run_state (retry_request e ?rid) w2) = Inl ErrNotFound"
    if "lookup (w_table w2) ?rid = Some y \<and> wf_table (w_table w2)" for w2 :: rworld
    using retry_quiet [OF assms(1) rid, of w2] that ext by simp
  moreover have "w_http (snd (run_state (ticks e2 rd tcx n) w1)) = w_http w1" if "quiet e2" "free w" "w_table w = []" for n
  proof -
    have "free w1" using effect_ofD [OF memory_kept_handle_event run] that(2) same_memory [of w1 w] by (simp add: memory_kept_def free_def)
    moreover have "w_table w1 = [y]"
      by (rule single_row [OF _ y(1)]) (use wf other that(3) in \<open>simp_all add: wf_table_def\<close>)
    then have "\<not> has_ext r" if "r \<in> set (select_non_terminal (e_null_time e2) (e_collate e2) 200 (w_table w1))" for r
      using set_select_non_terminal [OF that] ext by simp
    ultimately show ?thesis using ticks_unsubmitted [OF that(1)] by blast
  qed
  ultimately show ?thesis using run out(1,3) y kept by (auto simp: Let_def)
qed

theorem id_less_answer_loses_request_witness:
  "\<exists>w1 y. run_state (handle_event (demo_env (answer 200 status_only)) (Some (Some demo_deps)) background demo_event) (demo_rworld []) = (Inr (), w1) \<and>
     c_status y = ''acknowledged'' \<and> c_ext y = None \<and>
     lookup (w_table (snd (run_state (ticks (demo_env (answer 200 status_only)) demo_rdeps background 5) w1))) ''r1'' = Some y"
proof -
  have "wf_table (w_table (demo_rworld []))" by (simp add: wf_table_def)
  with id_less_answer_loses_request [of "demo_env (answer 200 status_only)" demo_deps demo_client demo_event demo_payload
      "demo_rworld []" "\<lparr>rs_status = 200, rs_headers = [(''Retry-After'', ''30'')], rs_body = status_only, rs_read_error = None\<rparr>"
      "\<lparr>ms_id = [], ms_status = ''queued'', ms_book = []\<rparr>" "demo_env (answer 200 status_only)" background demo_rdeps background]
  show ?thesis by (auto simp: demo_event_facts answer_def status_only_decodes Let_def)
qed

end
