(* ===== verification/Plugin_Manifest.thy ===== *)
theory Plugin_Manifest
  imports Prelude "HOL-Library.Word" "HOL-Library.Char_ord"
begin

text \<open>
  \<open>loadManifest\<close> of \<open>cmd/silo-plugin-ebook-requests/main.go\<close>: the embedded manifest with the checksum
  of the running executable and, when it names no platform, the platform it was built for. The
  parser of the SDK and the file system are parameters; SHA-256 and the hexadecimal text are those
  of the standard library.
\<close>

unbundle bit_operations_syntax

section \<open>SHA-256 (crypto/sha256)\<close>

definition sha_k :: "32 word list" where
  "sha_k =
     [0x428A2F98, 0x71374491, 0xB5C0FBCF, 0xE9B5DBA5, 0x3956C25B, 0x59F111F1, 0x923F82A4, 0xAB1C5ED5,
      0xD807AA98, 0x12835B01, 0x243185BE, 0x550C7DC3, 0x72BE5D74, 0x80DEB1FE, 0x9BDC06A7, 0xC19BF174,
      0xE49B69C1, 0xEFBE4786, 0x0FC19DC6, 0x240CA1CC, 0x2DE92C6F, 0x4A7484AA, 0x5CB0A9DC, 0x76F988DA,
      0x983E5152, 0xA831C66D, 0xB00327C8, 0xBF597FC7, 0xC6E00BF3, 0xD5A79147, 0x06CA6351, 0x14292967,
      0x27B70A85, 0x2E1B2138, 0x4D2C6DFC, 0x53380D13, 0x650A7354, 0x766A0ABB, 0x81C2C92E, 0x92722C85,
      0xA2BFE8A1, 0xA81A664B, 0xC24B8B70, 0xC76C51A3, 0xD192E819, 0xD6990624, 0xF40E3585, 0x106AA070,
      0x19A4C116, 0x1E376C08, 0x2748774C, 0x34B0BCB5, 0x391C0CB3, 0x4ED8AA4A, 0x5B9CCA4F, 0x682E6FF3,
      0x748F82EE, 0x78A5636F, 0x84C87814, 0x8CC70208, 0x90BEFFFA, 0xA4506CEB, 0xBEF9A3F7, 0xC67178F2]"

definition sha_init :: "32 word list" where
  "sha_init = [0x6A09E667, 0xBB67AE85, 0x3C6EF372, 0xA54FF53A, 0x510E527F, 0x9B05688C, 0x1F83D9AB, 0x5BE0CD19]"

definition rotr :: "nat \<Rightarrow> 32 word \<Rightarrow> 32 word" where
  "rotr n x = drop_bit n x OR push_bit (32 - n) x"

text \<open>The sixteen words of a block and the forty-eight that follow from them.\<close>

definition sha_extend :: "32 word list \<Rightarrow> nat \<Rightarrow> 32 word list" where
  "sha_extend w t =
     (let a = w ! (t - 15); b = w ! (t - 2);
          s0 = rotr 7 a XOR rotr 18 a XOR drop_bit 3 a;
          s1 = rotr 17 b XOR rotr 19 b XOR drop_bit 10 b
      in w @ [w ! (t - 16) + s0 + w ! (t - 7) + s1])"

definition sha_schedule :: "32 word list \<Rightarrow> 32 word list" where
  "sha_schedule block = foldl sha_extend block [16..<64]"

fun sha_round :: "32 word list \<Rightarrow> 32 word \<times> 32 word \<Rightarrow> 32 word list" where
  "sha_round [a, b, c, d, e, f, g, h] (k, w) =
     (let t1 = h + (rotr 6 e XOR rotr 11 e XOR rotr 25 e) + ((e AND f) XOR (NOT e AND g)) + k + w;
          t2 = (rotr 2 a XOR rotr 13 a XOR rotr 22 a) + ((a AND b) XOR (a AND c) XOR (b AND c))
      in [t1 + t2, a, b, c, d + t1, e, f, g])"
| "sha_round s _ = s"

definition sha_block :: "32 word list \<Rightarrow> 32 word list \<Rightarrow> 32 word list" where
  "sha_block st block = map2 (+) st (foldl sha_round st (zip sha_k (sha_schedule block)))"

text \<open>Big-endian bytes; the padding brings a message to a multiple of 64 bytes.\<close>

definition be_bytes :: "nat \<Rightarrow> nat \<Rightarrow> nat list" where
  "be_bytes n v = map (\<lambda>i. v div 256 ^ (n - 1 - i) mod 256) [0..<n]"

definition sha_pad :: "nat list \<Rightarrow> nat list" where
  "sha_pad m =
     (let n = length m in m @ [0x80] @ replicate ((119 - n mod 64) mod 64) 0 @ be_bytes 8 (8 * n))"

fun be_words :: "nat list \<Rightarrow> 32 word list" where
  "be_words (a # b # c # d # bs) = of_nat (((a * 256 + b) * 256 + c) * 256 + d) # be_words bs"
| "be_words _ = []"

fun blocks16 :: "32 word list \<Rightarrow> 32 word list list" where
  "blocks16 [] = []"
| "blocks16 (w # ws) = take 16 (w # ws) # blocks16 (drop 15 ws)"

definition sha256 :: "string \<Rightarrow> nat list" where
  "sha256 s = concat (map (\<lambda>w. be_bytes 4 (unat w))
     (foldl sha_block sha_init (blocks16 (be_words (sha_pad (map of_char s))))))"

text \<open>\<open>hex.EncodeToString\<close>.\<close>

definition hex_digits :: string where "hex_digits = ''0123456789abcdef''"

definition hex_text :: "nat list \<Rightarrow> string" where
  "hex_text bs = concat (map (\<lambda>b. [hex_digits ! (b div 16), hex_digits ! (b mod 16)]) bs)"

section \<open>The manifest (main.go)\<close>

text \<open>The fields of the SDK's message that the plugin sets; the others are \<open>mf_rest\<close>.\<close>

record 'm manifest =
  mf_checksum :: string
  mf_platforms :: "(string \<times> string) list"
  mf_rest :: 'm

text \<open>The manifest parser of the SDK on the embedded text, and the operating system.\<close>

record 'm process =
  ps_manifest :: "string + 'm manifest"
  ps_executable :: "string + string"
  ps_read :: "string \<Rightarrow> string + string"
  ps_platform :: "string \<times> string"

text \<open>The errors, with what they wrap; the third one names the file.\<close>

datatype manifest_error = ManifestInvalid string | NoExecutable string | Unreadable string string

definition load_manifest :: "'m process \<Rightarrow> manifest_error + 'm manifest" where
  "load_manifest p =
     (case ps_manifest p of
        Inl m \<Rightarrow> Inl (ManifestInvalid m)
      | Inr mf \<Rightarrow>
          (case ps_executable p of
             Inl m \<Rightarrow> Inl (NoExecutable m)
           | Inr path \<Rightarrow>
               (case ps_read p path of
                  Inl m \<Rightarrow> Inl (Unreadable path m)
                | Inr binary \<Rightarrow>
                    (let mf' = mf\<lparr>mf_checksum := hex_text (sha256 binary)\<rparr>
                     in Inr (if mf_platforms mf' = [] then mf'\<lparr>mf_platforms := [ps_platform p]\<rparr> else mf')))))"

section \<open>The form of the checksum\<close>

lemma length_sha_rounds: "length st = 8 \<Longrightarrow> length (foldl sha_round st kws) = 8"
proof (induction kws arbitrary: st)
  case (Cons kw kws)
  have "length (sha_round st kw) = 8"
    using Cons.prems by (cases "(st, kw)" rule: sha_round.cases) (auto simp: Let_def)
  with Cons.IH show ?case by simp
qed simp

lemma length_sha_blocks: "length st = 8 \<Longrightarrow> length (foldl sha_block st bs) = 8"
  by (induction bs arbitrary: st) (auto simp: sha_block_def length_sha_rounds)

lemma length_concat_const: "(\<And>x. x \<in> set xs \<Longrightarrow> length (f x) = n) \<Longrightarrow> length (concat (map f xs)) = n * length xs"
  by (induction xs) auto

lemma sha256_bytes: "length (sha256 s) = 32" "b \<in> set (sha256 s) \<Longrightarrow> b < 256"
proof -
  have "length (foldl sha_block sha_init bs) = 8" for bs by (rule length_sha_blocks) (simp add: sha_init_def)
  then show "length (sha256 s) = 32"
    unfolding sha256_def by (subst length_concat_const [where n = 4]) (simp_all add: be_bytes_def)
  show "b \<in> set (sha256 s) \<Longrightarrow> b < 256" by (auto simp: sha256_def be_bytes_def)
qed

lemma hex_digit_at: "n < 16 \<Longrightarrow> hex_digits ! n \<in> set hex_digits"
  by (rule nth_mem) (simp add: hex_digits_def)

lemma checksum_text:
  "length (hex_text (sha256 s)) = 64" "set (hex_text (sha256 s)) \<subseteq> set hex_digits"
proof -
  show "length (hex_text (sha256 s)) = 64"
    unfolding hex_text_def by (subst length_concat_const [where n = 2]) (simp_all add: sha256_bytes)
  show "set (hex_text (sha256 s)) \<subseteq> set hex_digits"
    using sha256_bytes(2) [of _ s] by (fastforce simp: hex_text_def intro: hex_digit_at)
qed

text \<open>A manifest that is handed out has a checksum of 64 hexadecimal digits and at least one
  platform, and is otherwise the embedded one.\<close>

lemma load_manifest_done:
  assumes "load_manifest p = Inr mf"
  obtains mf0 where "ps_manifest p = Inr mf0" "mf_rest mf = mf_rest mf0" "length (mf_checksum mf) = 64"
    "set (mf_checksum mf) \<subseteq> set hex_digits" "mf_platforms mf \<noteq> []"
    "mf_platforms mf0 \<noteq> [] \<Longrightarrow> mf_platforms mf = mf_platforms mf0"
  using assms checksum_text by (auto simp: load_manifest_def Let_def split: sum.splits if_splits)

end
