(* ===== verification/Json_Roundtrip.thy ===== *)
theory Json_Roundtrip
  imports Go_Json
begin

text \<open>
  The encoder and the parser of JSON agree: parsing what was encoded gives the value back,
  whatever delimiter follows it. The size of a value bounds the fuel the parser needs, and the
  length of its text bounds the size.
\<close>

section \<open>Strings\<close>

lemma hex4_val_hex4:
  assumes "n < 65536"
  shows "hex4_val (hex4 n @ r) = Some (n, r)"
proof -
  define h where "h d = (if d < 10 then char_of (48 + d) else char_of (87 + d) :: char)" for d :: nat
  have h: "hex_val (h d) = Some d" if "d < 16" for d
    using that by (auto simp: h_def hex_val_def is_digit_iff less_eq_char_def)
  define a where "a = n div 16"
  define b where "b = a div 16"
  define c where "c = b div 16"
  have n: "n div 256 = b" "n div 4096 = c" by (simp_all add: a_def b_def c_def div_mult2_eq [symmetric])
  have "c < 16" using assms by (simp add: n(2) [symmetric] less_mult_imp_div_less)
  moreover have "16 * a + n mod 16 = n" "16 * b + a mod 16 = a" "16 * c + b mod 16 = b"
    by (simp_all add: a_def b_def c_def)
  ultimately have "4096 * c + 256 * (b mod 16) + 16 * (a mod 16) + n mod 16 = n" by linarith
  moreover have "hex4 n = [h c, h (b mod 16), h (a mod 16), h (n mod 16)]"
    using \<open>c < 16\<close> by (simp add: hex4_def h_def [abs_def] n a_def [symmetric])
  ultimately show ?thesis using \<open>c < 16\<close> by (simp add: h)
qed

lemma unicode_escape_hex4:
  assumes "n < 65536" and "\<not> (0xD800 \<le> n \<and> n < 0xE000)"
  shows "unicode_escape (hex4 n @ r) = Some (utf8 n, r)"
  using assms by (auto simp: unicode_escape_def hex4_val_hex4)

lemma escape_control:
  assumes "(of_char c :: nat) < 128"
  shows "escape (CHR ''u'' # hex4 (of_char c) @ r) = Some ([c], r)"
  using assms unicode_escape_hex4 [of "of_char c" r] by (simp add: escape_def utf8_def)

text \<open>Reading one encoded character, or one of the two escaped separators.\<close>

lemma string_body_char:
  "string_body (Suc k) (json_char c @ r) = map_option (\<lambda>(b, r'). (c # b, r')) (string_body k r)"
proof (cases "c < CHR '' '' \<or> c \<in> {CHR ''<'', CHR ''>'', CHR ''&''}")
  case True
  then have "(of_char c :: nat) < 128" by (auto simp: less_char_def)
  from escape_control [OF this] True show ?thesis
    by (auto simp: json_char_def escape_def simple_escape_def less_char_def split: option.splits)
next
  case False
  then show ?thesis
    by (auto simp: json_char_def escape_def simple_escape_def split: option.splits)
qed

lemma utf8_bytes:
  "char_of (226 :: nat) = CHR 0xE2" "char_of (128 :: nat) = CHR 0x80"
  "char_of (168 :: nat) = CHR 0xA8" "char_of (169 :: nat) = CHR 0xA9"
  by code_simp+

lemma take3_eq: "take 3 (c # cs) = [x, y, z] \<Longrightarrow> c = x \<and> cs = y # z # drop 2 cs"
  by (metis append_Cons append_Nil append_take_drop_id drop_Suc_Cons list.inject numeral_2_eq_2 numeral_3_eq_3)

lemma escape_separator:
  "escape (''u2028'' @ r) = Some ([CHR 0xE2, CHR 0x80, CHR 0xA8], r)"
  "escape (''u2029'' @ r) = Some ([CHR 0xE2, CHR 0x80, CHR 0xA9], r)"
  by (simp_all add: escape_def unicode_escape_def hex_val_def is_digit_iff less_eq_char_def utf8_def utf8_bytes)

lemma json_char_length: "1 \<le> length (json_char c)"
  by (auto simp: json_char_def hex4_def)

lemma json_char_Suc: "\<exists>m. length (json_char c) = Suc m"
  using json_char_length [of c] by (cases "length (json_char c)") auto

lemma string_body_chars:
  "length (json_chars s) < k \<Longrightarrow> string_body k (json_chars s @ CHR 0x22 # r) = Some (s, r)"
proof (induction s arbitrary: k rule: json_chars.induct)
  case 1
  then show ?case by (cases k) auto
next
  case (2 c cs)
  then obtain k' where k: "k = Suc k'" by (cases k) auto
  consider (a) "take 3 (c # cs) = [CHR 0xE2, CHR 0x80, CHR 0xA8]"
    | (b) "take 3 (c # cs) = [CHR 0xE2, CHR 0x80, CHR 0xA9]"
    | (c) "take 3 (c # cs) \<noteq> [CHR 0xE2, CHR 0x80, CHR 0xA8]" "take 3 (c # cs) \<noteq> [CHR 0xE2, CHR 0x80, CHR 0xA9]"
    by blast
  then show ?case
  proof cases
    case a
    obtain ds where cs: "c = CHR 0xE2" "cs = CHR 0x80 # CHR 0xA8 # ds"
      by (rule that [OF take3_eq [OF a, THEN conjunct1] take3_eq [OF a, THEN conjunct2]])
    with 2(1) [OF a, of k'] 2(4) a k have "string_body k' (json_chars ds @ CHR 0x22 # r) = Some (ds, r)" by simp
    with k cs escape_separator(1) [of "json_chars ds @ CHR 0x22 # r"] show ?thesis by simp
  next
    case b
    obtain ds where cs: "c = CHR 0xE2" "cs = CHR 0x80 # CHR 0xA9 # ds"
      by (rule that [OF take3_eq [OF b, THEN conjunct1] take3_eq [OF b, THEN conjunct2]])
    with 2(2) [OF _ b, of k'] 2(4) b k have "string_body k' (json_chars ds @ CHR 0x22 # r) = Some (ds, r)" by simp
    with k cs escape_separator(2) [of "json_chars ds @ CHR 0x22 # r"] show ?thesis by simp
  next
    case c
    have e: "json_chars (c # cs) = json_char c @ json_chars cs" by (simp only: json_chars.simps c if_False)
    have "length (json_chars cs) < k'" using 2(4) [unfolded e] k json_char_length [of c] by simp
    from 2(3) [OF c this] show ?thesis
      unfolding e using k string_body_char [of k' c "json_chars cs @ CHR 0x22 # r"] by simp
  qed
qed

lemma string_lit_quote: "string_lit (json_quote s @ r) = Some (s, r)"
  using string_body_chars [of s "length (json_quote s @ r)" r] by (simp add: string_lit_def json_quote_def)

section \<open>Numbers\<close>

text \<open>What may follow a value: the end, a comma, a closing bracket, or the newline of an encoder.\<close>

definition delimited :: "string \<Rightarrow> bool" where
  "delimited r \<longleftrightarrow> r = [] \<or> hd r \<in> {CHR '','', CHR '']'', CHR 0x7D, CHR 0x0A}"

lemma delimited_simps [simp]:
  "delimited []" "delimited (CHR '','' # r)" "delimited (CHR '']'' # r)" "delimited (CHR 0x7D # r)" "delimited (CHR 0x0A # r)"
  by (simp_all add: delimited_def)

lemma delimited_hd:
  "delimited (c # r) \<Longrightarrow> \<not> is_digit c \<and> c \<noteq> CHR ''.'' \<and> c \<noteq> CHR ''e'' \<and> c \<noteq> CHR ''E''"
  by (auto simp: delimited_def is_digit_iff)

lemma digits1_all:
  assumes "list_all is_digit ds" and "ds \<noteq> []" and "delimited r"
  shows "digits1 (ds @ r) = Some (ds, r)"
proof -
  have "takeWhile is_digit r = []" using assms(3) delimited_hd by (cases r) auto
  then have "takeWhile is_digit (ds @ r) = ds" using assms(1) by (simp add: list_all_iff takeWhile_append2)
  then show ?thesis using assms(2) by (simp add: digits1_def)
qed

lemma digits10_head: "0 < n \<Longrightarrow> hd (digits10 n) \<noteq> CHR ''0''"
proof (induction n rule: digits10.induct)
  case (1 n)
  have zero: "digit_char d \<noteq> CHR ''0''" if "0 < d" "d < 10" for d
    using that digit_val_digit_char [of d] by (auto simp: digit_val_def)
  show ?case
  proof (cases "n < 10")
    case True
    with 1 zero show ?thesis by (subst digits10.simps) simp
  next
    case False
    then have "digits10 n = digits10 (n div 10) @ [digit_char (n mod 10)]" by (subst digits10.simps) simp
    moreover have "hd (digits10 (n div 10)) \<noteq> CHR ''0''" using 1 False by simp
    moreover have "digits10 (n div 10) \<noteq> []" using False digits10_ok [of "n div 10"] by simp
    ultimately show ?thesis by simp
  qed
qed

lemma number_lit_digits:
  assumes "0 \<le> n" and "delimited r"
  shows "number_lit (digits10 n @ r) = Some (digits10 n, r)"
    and "number_lit (CHR ''-'' # digits10 n @ r) = Some (CHR ''-'' # digits10 n, r)"
proof -
  have ok: "list_all is_digit (digits10 n)" "digits10 n \<noteq> []" using digits10_ok [OF assms(1)] by auto
  then obtain c cs where c: "digits10 n = c # cs" by (cases "digits10 n") auto
  then have "c \<noteq> CHR ''-''" using ok(1) is_digit_neq_sign by auto
  have int: "(if c = CHR ''0'' then Some ([c], cs @ r) else digits1 (c # cs @ r)) = Some (c # cs, r)"
  proof (cases "n = 0")
    case True
    have "char_of (48 :: nat) = CHR ''0''" by code_simp
    then have "digits10 0 = ''0''" by (subst digits10.simps) (simp add: digit_char_def)
    with True c show ?thesis by simp
  next
    case False
    then have "c \<noteq> CHR ''0''" using digits10_head [of n] assms(1) c by simp
    then show ?thesis using digits1_all [OF ok assms(2)] c by simp
  qed
  have fraction: "(case r of [] \<Rightarrow> Some ([], []) | c # cs \<Rightarrow>
      if c = CHR ''.'' then map_option (\<lambda>(d, r). (c # d, r)) (digits1 cs) else Some ([], r)) = Some ([], r)"
    using assms(2) delimited_hd by (cases r) auto
  have exponent: "(case r of [] \<Rightarrow> Some ([], []) | c # cs \<Rightarrow>
      if c = CHR ''e'' \<or> c = CHR ''E'' then f c cs else Some ([], r)) = Some ([], r)" for f
    using assms(2) delimited_hd by (cases r) auto
  show "number_lit (digits10 n @ r) = Some (digits10 n, r)"
    "number_lit (CHR ''-'' # digits10 n @ r) = Some (CHR ''-'' # digits10 n, r)"
    by (simp_all only: number_lit_def c append_Cons list.case if_False if_True \<open>c \<noteq> CHR ''-''\<close> refl Let_def prod.case int
        option.case fraction exponent append_Nil append_Nil2 simp_thms)
qed

lemma number_lit_itoa: "delimited r \<Longrightarrow> number_lit (itoa n @ r) = Some (itoa n, r)"
  using number_lit_digits [of n r] number_lit_digits [of "- n" r] by (simp add: itoa_def)

section \<open>Values\<close>

text \<open>The values the program encodes: their numbers are integers.\<close>

fun int_json :: "json \<Rightarrow> bool" where
  "int_json (JNum n) \<longleftrightarrow> (\<exists>k. n = itoa k)"
| "int_json (JArr js) \<longleftrightarrow> list_all int_json js"
| "int_json (JObj kvs) \<longleftrightarrow> list_all (\<lambda>kv. int_json (snd kv)) kvs"
| "int_json _ \<longleftrightarrow> True"

text \<open>The fuel the parser needs for a value.\<close>

fun json_size :: "json \<Rightarrow> nat" where
  "json_size (JArr js) = Suc (sum_list (map (\<lambda>j. Suc (json_size j)) js))"
| "json_size (JObj kvs) = Suc (sum_list (map (\<lambda>kv. Suc (json_size (snd kv))) kvs))"
| "json_size _ = 1"

lemma skip_ws_Cons: "c \<notin> {CHR '' '', CHR 0x09, CHR 0x0A, CHR 0x0D} \<Longrightarrow> skip_ws (c # s) = c # s"
  by (simp add: skip_ws_def)

lemma skip_ws_simps [simp]:
  "skip_ws [] = []" "skip_ws (CHR 0x22 # s) = CHR 0x22 # s" "skip_ws (CHR ''['' # s) = CHR ''['' # s"
  "skip_ws (CHR '']'' # s) = CHR '']'' # s" "skip_ws (CHR 0x7B # s) = CHR 0x7B # s"
  "skip_ws (CHR 0x7D # s) = CHR 0x7D # s" "skip_ws (CHR '','' # s) = CHR '','' # s"
  "skip_ws (CHR '':'' # s) = CHR '':'' # s" "skip_ws (CHR ''n'' # s) = CHR ''n'' # s"
  "skip_ws (CHR ''t'' # s) = CHR ''t'' # s" "skip_ws (CHR ''f'' # s) = CHR ''f'' # s"
  by (simp_all add: skip_ws_def)

lemma json_quote_Cons: "json_quote s @ r = CHR 0x22 # json_chars s @ CHR 0x22 # r"
  by (simp add: json_quote_def)

text \<open>No encoded value starts with white space or a closing bracket.\<close>

definition starts_value :: "char \<Rightarrow> bool" where
  "starts_value c \<longleftrightarrow> is_digit c \<or> c \<in> {CHR ''n'', CHR ''t'', CHR ''f'', CHR ''-'', CHR 0x22, CHR ''['', CHR 0x7B}"

lemma itoa_head: "\<exists>c s. itoa n = c # s \<and> (is_digit c \<or> c = CHR ''-'')"
proof (cases "n < 0")
  case False
  then show ?thesis using digits10_ok [of n] by (cases "digits10 n") (auto simp: itoa_def)
qed (simp add: itoa_def)

lemma encode_head: "int_json j \<Longrightarrow> \<exists>c s. json_encode j = c # s \<and> starts_value c"
  using itoa_head by (cases j) (auto simp: starts_value_def json_quote_def, blast)

lemma starts_value_skip:
  assumes "starts_value c"
  shows "skip_ws (c # s) = c # s" and "c \<noteq> CHR '']''"
  using assms by (auto simp: starts_value_def is_digit_iff intro!: skip_ws_Cons)

lemma parse_number:
  assumes "delimited r"
  shows "parse_value (Suc k) (itoa n @ r) = Some (JNum (itoa n), r)"
proof -
  from itoa_head [of n] obtain c s where c: "itoa n = c # s" "is_digit c \<or> c = CHR ''-''" by blast
  then have "c \<notin> {CHR 0x22, CHR ''['', CHR 0x7B, CHR ''n'', CHR ''t'', CHR ''f''}" "starts_value c"
    by (auto simp: is_digit_iff starts_value_def)
  then show ?thesis
    using number_lit_itoa [OF assms, of n] by (simp add: c starts_value_skip has_prefix_def)
qed

lemma join_Cons2: "join sep (x # y # ys) = x @ sep @ join sep (y # ys)"
  by (simp add: join_def)

lemma join_single: "join sep [x] = x"
  by (simp add: join_def)

lemma parse_elems_join:
  assumes "\<And>j k r. j \<in> set js \<Longrightarrow> delimited r \<Longrightarrow> json_size j \<le> k \<Longrightarrow> parse_value k (json_encode j @ r) = Some (j, r)"
    and "js \<noteq> []" and "sum_list (map (\<lambda>j. Suc (json_size j)) js) \<le> k"
  shows "parse_elems k (join '','' (map json_encode js) @ CHR '']'' # r) = Some (js, r)"
  using assms
proof (induction js arbitrary: k)
  case (Cons j js)
  then obtain k' where k: "k = Suc k'" "json_size j \<le> k'" by (cases k) auto
  show ?case
  proof (cases js)
    case Nil
    then show ?thesis using Cons.prems(1) [of j "CHR '']'' # r" k'] k by (simp add: join_single)
  next
    case (Cons i js')
    have "parse_elems k' (join '','' (map json_encode js) @ CHR '']'' # r) = Some (js, r)"
      using Cons.prems k by (intro Cons.IH) (auto simp: Cons)
    then show ?thesis
      using Cons.prems(1) [of j "CHR '','' # join '','' (map json_encode js) @ CHR '']'' # r" k'] k
      by (simp add: Cons join_Cons2)
  qed
qed simp

lemma parse_members_join:
  assumes "\<And>kv k r. kv \<in> set kvs \<Longrightarrow> delimited r \<Longrightarrow> json_size (snd kv) \<le> k \<Longrightarrow>
      parse_value k (json_encode (snd kv) @ r) = Some (snd kv, r)"
    and "kvs \<noteq> []" and "sum_list (map (\<lambda>kv. Suc (json_size (snd kv))) kvs) \<le> k"
  shows "parse_members k (join '','' (map (\<lambda>kv. json_quote (fst kv) @ '':'' @ json_encode (snd kv)) kvs) @ CHR 0x7D # r)
    = Some (kvs, r)"
  using assms
proof (induction kvs arbitrary: k)
  case (Cons kv kvs)
  let ?enc = "\<lambda>kv. json_quote (fst kv) @ '':'' @ json_encode (snd kv)"
  obtain k' where k: "k = Suc k'" "json_size (snd kv) \<le> k'" using Cons.prems(3) by (cases k) auto
  have key: "string_lit (skip_ws (json_quote (fst kv) @ s)) = Some (fst kv, s)" for s
    using string_lit_quote [of "fst kv" s] by (simp add: json_quote_Cons)
  show ?case
  proof (cases kvs)
    case Nil
    then show ?thesis
      using Cons.prems(1) [of kv "CHR 0x7D # r" k'] k key by (simp add: join_single)
  next
    case (Cons kv' kvs')
    have "parse_members k' (join '','' (map ?enc kvs) @ CHR 0x7D # r) = Some (kvs, r)"
      using Cons.prems k by (intro Cons.IH) (auto simp: Cons)
    then show ?thesis
      using Cons.prems(1) [of kv "CHR '','' # join '','' (map ?enc kvs) @ CHR 0x7D # r" k'] k key
      by (simp add: Cons join_Cons2)
  qed
qed simp

lemma join_head: "x \<noteq> [] \<Longrightarrow> \<exists>s. join sep (x # xs) @ r = hd x # s"
  by (cases x) (auto simp: join_def)

lemma parse_encode:
  "int_json j \<Longrightarrow> delimited r \<Longrightarrow> json_size j \<le> k \<Longrightarrow> parse_value k (json_encode j @ r) = Some (j, r)"
proof (induction j arbitrary: k r)
  case (JNum n)
  then show ?case by (cases k) (auto simp del: parse_value.simps simp: parse_number)
next
  case (JStr s)
  then show ?case using string_lit_quote [of s r] by (cases k) (auto simp: json_quote_Cons)
next
  case (JArr js)
  then obtain k' where k: "k = Suc k'" by (cases k) auto
  show ?case
  proof (cases js)
    case Nil
    then show ?thesis by (simp add: k join_def)
  next
    case (Cons i js')
    have "int_json i" using JArr.prems(1) Cons by simp
    then obtain c s where c: "json_encode i = c # s" "starts_value c" using encode_head by blast
    obtain t where t: "join '','' (map json_encode js) @ CHR '']'' # r = c # t"
      using join_head [where x = "json_encode i" and sep = "'',''" and xs = "map json_encode js'" and r = "CHR '']'' # r"] by (auto simp: Cons c)
    have "parse_elems k' (c # t) = Some (js, r)"
      unfolding t [symmetric] using JArr k by (intro parse_elems_join) (auto simp: Cons list_all_iff)
    then show ?thesis using t starts_value_skip(1) [OF c(2), of t] starts_value_skip(2) [OF c(2)] by (simp add: k)
  qed
next
  case (JObj kvs)
  then obtain k' where k: "k = Suc k'" by (cases k) auto
  let ?enc = "\<lambda>kv. json_quote (fst kv) @ '':'' @ json_encode (snd kv)"
  show ?case
  proof (cases kvs)
    case Nil
    then show ?thesis by (simp add: k join_def)
  next
    case (Cons kv kvs')
    obtain t where t: "join '','' (map ?enc kvs) @ CHR 0x7D # r = CHR 0x22 # t"
      using join_head [where x = "?enc kv" and sep = "'',''" and xs = "map ?enc kvs'" and r = "CHR 0x7D # r"] by (auto simp: Cons json_quote_def)
    have "parse_members k' (CHR 0x22 # t) = Some (kvs, r)"
      unfolding t [symmetric]
    proof (rule parse_members_join)
      fix kv k r assume kv: "kv \<in> set kvs" "delimited r" "json_size (snd kv) \<le> k"
      then have "int_json (snd kv)" using JObj.prems(1) by (auto simp: list_all_iff)
      moreover have "snd kv \<in> Basic_BNFs.snds kv" by (cases kv) simp
      ultimately show "parse_value k (json_encode (snd kv) @ r) = Some (snd kv, r)"
        using JObj.IH kv by blast
    qed (use JObj.prems k Cons in auto)
    then show ?thesis using t by (simp add: k)
  qed
next
  case JNull
  then show ?case by (cases k) (auto simp: has_prefix_def)
next
  case (JBool b)
  then show ?case by (cases k) (auto simp: has_prefix_def)
qed

section \<open>Whole documents\<close>

lemma length_join: "xs \<noteq> [] \<Longrightarrow> Suc (length (join [c] xs)) = sum_list (map (\<lambda>x. Suc (length x)) xs)"
proof (induction xs)
  case (Cons x xs)
  then show ?case by (cases xs) (auto simp: join_Cons2 join_single)
qed simp

lemma json_size_le: "int_json j \<Longrightarrow> json_size j \<le> 2 * length (json_encode j)"
proof (induction j)
  case (JNum n)
  then obtain k where "n = itoa k" by auto
  moreover obtain c s where "itoa k = c # s" using itoa_head by blast
  ultimately show ?case by simp
next
  case (JArr js)
  show ?case
  proof (cases "js = []")
    case False
    have "sum_list (map (\<lambda>j. Suc (json_size j)) js) \<le> sum_list (map (\<lambda>j. 2 * Suc (length (json_encode j))) js)"
      using JArr by (intro sum_list_mono) (fastforce simp: list_all_iff)
    also have "\<dots> = 2 * sum_list (map (\<lambda>x. Suc (length x)) (map json_encode js))"
      by (simp only: sum_list_const_mult map_map o_def)
    finally show ?thesis using False length_join [of "map json_encode js" "CHR '',''"] by simp
  qed simp
next
  case (JObj kvs)
  let ?enc = "\<lambda>kv. json_quote (fst kv) @ '':'' @ json_encode (snd kv)"
  show ?case
  proof (cases "kvs = []")
    case False
    have "Suc (json_size (snd kv)) \<le> 2 * Suc (length (?enc kv))" if "kv \<in> set kvs" for kv
    proof -
      have "snd kv \<in> Basic_BNFs.snds kv" by (cases kv) simp
      moreover have "int_json (snd kv)" using JObj.prems that by (auto simp: list_all_iff)
      ultimately show ?thesis using JObj.IH that by fastforce
    qed
    then have "sum_list (map (\<lambda>kv. Suc (json_size (snd kv))) kvs) \<le> sum_list (map (\<lambda>kv. 2 * Suc (length (?enc kv))) kvs)"
      by (intro sum_list_mono)
    also have "\<dots> = 2 * sum_list (map (\<lambda>x. Suc (length x)) (map ?enc kvs))"
      by (simp only: sum_list_const_mult map_map o_def)
    finally show ?thesis using False length_join [of "map ?enc kvs" "CHR '',''"] by simp
  qed simp
qed (auto simp: json_quote_def)

lemma parse_encoded_document:
  assumes "int_json j"
  shows "json_parse (json_encode j) = Some j"
  using parse_encode [OF assms, of "[]" "json_fuel (json_encode j)"] json_size_le [OF assms]
  by (simp add: json_parse_def json_fuel_def)

lemma decode_encoded_document:
  assumes "int_json j"
  shows "json_decode_first (json_encode j) = Some j"
  using parse_encode [OF assms, of "[]" "json_fuel (json_encode j)"] json_size_le [OF assms]
  by (simp add: json_decode_first_def json_fuel_def)


lemma parse_encoded_line:
  assumes "int_json j"
  shows "json_parse (json_encode j @ [CHR 0x0A]) = Some j"
  using parse_encode [OF assms, of "[CHR 0x0A]" "json_fuel (json_encode j @ [CHR 0x0A])"] json_size_le [OF assms]
  by (simp add: json_parse_def json_fuel_def skip_ws_def)

end
