(* ===== verification/Http_Messages.thy ===== *)
theory Http_Messages
  imports Go_Url Plugin_IO
begin

text \<open>
  The requests and responses the plugin's own HTTP handlers see (\<open>*http.Request\<close> and what a
  \<open>ResponseWriter\<close> collects), and the two ways the handlers answer: \<open>http.Error\<close> and a JSON
  document.
\<close>

record http_in =
  in_method :: string
  in_path :: string
  in_query :: string
  in_uri :: string
  in_headers :: "(string \<times> string) list"
  in_body :: string

record http_out =
  out_status :: int
  out_headers :: "(string \<times> string) list"
  out_body :: string

definition newline :: string where "newline = [CHR 0x0A]"

text \<open>\<open>http.Error\<close>.\<close>

definition http_error :: "string \<Rightarrow> int \<Rightarrow> http_out" where
  "http_error msg code =
     \<lparr>out_status = code,
      out_headers = [(''Content-Type'', ''text/plain; charset=utf-8''), (''X-Content-Type-Options'', ''nosniff'')],
      out_body = msg @ newline\<rparr>"

text \<open>\<open>json.NewEncoder(w).Encode(v)\<close> after the content type; the encoder ends with a newline.\<close>

definition json_out :: "int \<Rightarrow> json \<Rightarrow> http_out" where
  "json_out code j =
     \<lparr>out_status = code, out_headers = [(''Content-Type'', ''application/json'')],
      out_body = json_encode j @ newline\<rparr>"

text \<open>\<open>r.URL.Query().Get(k)\<close>.\<close>

definition url_query :: "http_in \<Rightarrow> string \<Rightarrow> string" where
  "url_query r k = query_get (in_query r) k"

text \<open>A field tagged \<open>omitempty\<close>.\<close>

definition omit_if :: "bool \<Rightarrow> string \<Rightarrow> json \<Rightarrow> (string \<times> json) list" where
  "omit_if b k j = (if b then [] else [(k, j)])"

definition json_strings :: "string list option \<Rightarrow> json" where
  "json_strings x = (case x of None \<Rightarrow> JNull | Some ss \<Rightarrow> JArr (map JStr ss))"

text \<open>An empty slice: nil or of length zero.\<close>

definition no_items :: "'a list option \<Rightarrow> bool" where
  "no_items x \<longleftrightarrow> (case x of None \<Rightarrow> True | Some ss \<Rightarrow> ss = [])"

text \<open>A float, kept as the text of its encoding, is zero.\<close>

definition zero_float :: "string \<Rightarrow> bool" where
  "zero_float f \<longleftrightarrow> f = ''0'' \<or> f = ''-0''"

lemma http_out_status [simp]:
  "out_status (http_error msg code) = code" "out_status (json_out code j) = code"
  by (simp_all add: http_error_def json_out_def)

end
