(* ===== verification/App_Config.thy ===== *)
theory App_Config
  imports Reconciler Json_Roundtrip Http_Messages
begin

text \<open>
  The plugin's configuration: \<open>internal/runtime/runtime.go\<close> (the parsed global configuration,
  its redaction and the host's \<open>Configure\<close>) and \<open>internal/store/store.go\<close> (the row of
  \<open>app_config\<close> the admin routes edit). The row and the configuration the runtime server holds
  extend the world. The \<open>jsonb\<close> column keeps the value of the text it is given; the order of an
  object's members, which it does not keep, is not read by anyone.
\<close>

section \<open>Configuration (runtime.go)\<close>

record config =
  cf_database_url :: string
  cf_base_url :: string
  cf_api_key :: string
  cf_cover_size :: string
  cf_priority :: "string list option"

definition zero_config :: config where
  "zero_config = \<lparr>cf_database_url = [], cf_base_url = [], cf_api_key = [], cf_cover_size = [], cf_priority = None\<rparr>"

definition configured :: "config \<Rightarrow> bool" where
  "configured c \<longleftrightarrow> cf_database_url c \<noteq> []"

definition provider_configured :: "config \<Rightarrow> bool" where
  "provider_configured c \<longleftrightarrow> cf_base_url c \<noteq> [] \<and> cf_api_key c \<noteq> []"

definition mask :: "string \<Rightarrow> string" where
  "mask s = (if s = [] then [] else ''***redacted***'')"

text \<open>\<open>LogValue\<close>: the attributes of the group, in order.\<close>

definition log_value :: "config \<Rightarrow> (string \<times> json) list" where
  "log_value c =
     [(''database_url'', JStr (mask (cf_database_url c))), (''base_url'', JStr (cf_base_url c)),
      (''api_key'', JStr (mask (cf_api_key c))), (''default_cover_size'', JStr (cf_cover_size c)),
      (''external_source_priority'', json_strings (cf_priority c))]"

text \<open>\<open>String\<close>: how slog and fmt print the group, \<open>[key=value key=value]\<close>, a slice in brackets of its
  own.\<close>

definition attr_text :: "json \<Rightarrow> string" where
  "attr_text j =
     (case j of JStr s \<Rightarrow> s | JArr js \<Rightarrow> ''['' @ join '' '' (strings_of js) @ '']'' | _ \<Rightarrow> ''[]'')"

definition config_string :: "config \<Rightarrow> string" where
  "config_string c = ''['' @ join '' '' (map (\<lambda>kv. fst kv @ ''='' @ attr_text (snd kv)) (log_value c)) @ '']''"

text \<open>Of a secret the log and the printed form show whether it is set, and nothing else.\<close>

lemma secrets_hidden:
  assumes "cf_api_key c = [] \<longleftrightarrow> key = []" and "cf_database_url c = [] \<longleftrightarrow> dsn = []"
  shows "log_value (c\<lparr>cf_api_key := key, cf_database_url := dsn\<rparr>) = log_value c \<and>
    config_string (c\<lparr>cf_api_key := key, cf_database_url := dsn\<rparr>) = config_string c"
  using assms by (simp add: log_value_def config_string_def mask_def)

text \<open>The JSON form of the struct, by its tags.\<close>

definition config_json :: "config \<Rightarrow> json" where
  "config_json c =
     JObj (omit_if (cf_database_url c = []) ''database_url'' (JStr (cf_database_url c)) @
       [(''base_url'', JStr (cf_base_url c))] @
       omit_if (cf_api_key c = []) ''api_key'' (JStr (cf_api_key c)) @
       [(''default_cover_size'', JStr (cf_cover_size c)),
        (''external_source_priority'', json_strings (cf_priority c))])"

definition decode_config :: "config \<Rightarrow> json \<Rightarrow> config option" where
  "decode_config cur j =
     (case struct_members j of
        None \<Rightarrow> None
      | Some kvs \<Rightarrow> do {
          d \<leftarrow> read_field dec_string (cf_database_url cur) ''database_url'' kvs;
          b \<leftarrow> read_field dec_string (cf_base_url cur) ''base_url'' kvs;
          k \<leftarrow> read_field dec_string (cf_api_key cur) ''api_key'' kvs;
          s \<leftarrow> read_field dec_string (cf_cover_size cur) ''default_cover_size'' kvs;
          p \<leftarrow> read_field dec_strings (cf_priority cur) ''external_source_priority'' kvs;
          Some \<lparr>cf_database_url = d, cf_base_url = b, cf_api_key = k, cf_cover_size = s, cf_priority = p\<rparr>
        })"

definition validate_base_url :: "(string \<Rightarrow> bool) \<Rightarrow> string \<Rightarrow> goerr option" where
  "validate_base_url ip6 raw =
     (case parse_url ip6 raw of
        Some u \<Rightarrow>
          if (u_scheme u \<noteq> ''http'' \<and> u_scheme u \<noteq> ''https'') \<or> u_host u = []
          then Some (Err ''must be a valid http(s) URL'') else None
      | None \<Rightarrow> Some (Err ''must be a valid http(s) URL''))"

section \<open>The state\<close>

record app_world = rworld +
  aw_config :: "json option"
  aw_config_calls :: nat
  aw_runtime :: config

type_synonym ('z, 'a) aio = "('z app_world_scheme, 'a) state"

section \<open>Configure (runtime.go)\<close>

text \<open>The values of a decoded \<open>structpb.Struct\<close>.\<close>

definition string_from_value :: "json option \<Rightarrow> string" where
  "string_from_value v = (case v of Some (JStr s) \<Rightarrow> s | _ \<Rightarrow> [])"

definition string_slice_from_value :: "json option \<Rightarrow> string list option" where
  "string_slice_from_value v = (case v of Some (JArr js) \<Rightarrow> Some (strings_of js) | _ \<Rightarrow> None)"

text \<open>One entry of the request: its key and its value, which may be absent.\<close>

definition apply_entry :: "config \<Rightarrow> string \<times> payload option \<Rightarrow> config" where
  "apply_entry c kv =
     (case snd kv of
        None \<Rightarrow> c
      | Some m \<Rightarrow>
          (let v = map_of m ''value''
           in if fst kv = ''database_url'' then c\<lparr>cf_database_url := string_from_value v\<rparr>
              else if fst kv = ''base_url'' then c\<lparr>cf_base_url := string_from_value v\<rparr>
              else if fst kv = ''api_key'' then c\<lparr>cf_api_key := string_from_value v\<rparr>
              else if fst kv = ''default_cover_size'' then c\<lparr>cf_cover_size := string_from_value v\<rparr>
              else if fst kv = ''external_source_priority'' then c\<lparr>cf_priority := string_slice_from_value v\<rparr>
              else c))"

definition set_runtime :: "config \<Rightarrow> ('z, unit) aio" where
  "set_runtime c = State (\<lambda>w. ((), w\<lparr>aw_runtime := c\<rparr>))"

definition configure ::
  "env \<Rightarrow> (config \<Rightarrow> ('z, goerr option) aio) option \<Rightarrow> (string \<times> payload option) list \<Rightarrow> ('z, goerr option) aio" where
  "configure e on_cfg entries =
     (let cfg = foldl apply_entry zero_config entries
      in if cf_database_url cfg = [] then do {
           set_runtime cfg;
           State_Monad.return None
         }
         else
           (case (if cf_base_url cfg \<noteq> [] then validate_base_url (e_ip6 e) (cf_base_url cfg) else None) of
              Some err \<Rightarrow> State_Monad.return (Some (Wrapf ''base_url: '' err []))
            | None \<Rightarrow> do {
                res \<leftarrow> (case on_cfg of None \<Rightarrow> State_Monad.return None | Some f \<Rightarrow> f cfg);
                (case res of
                   Some err \<Rightarrow> State_Monad.return (Some err)
                 | None \<Rightarrow> do {
                     set_runtime cfg;
                     State_Monad.return None
                   })
              }))"

text \<open>\<open>Snapshot\<close>; a nil and an empty slice are copied to a nil one.\<close>

definition snapshot :: "('z, config) aio" where
  "snapshot = State (\<lambda>w. ((aw_runtime w)\<lparr>cf_priority :=
     (case cf_priority (aw_runtime w) of Some (x # xs) \<Rightarrow> Some (x # xs) | _ \<Rightarrow> None)\<rparr>, w))"

section \<open>The admin configuration (store.go)\<close>

definition default_app_config :: config where
  "default_app_config = zero_config\<lparr>cf_cover_size := ''large'', cf_priority := Some []\<rparr>"

definition normalize :: "config \<Rightarrow> config" where
  "normalize c = c\<lparr>cf_cover_size := (if cf_cover_size c = [] then ''large'' else cf_cover_size c),
                  cf_priority := (case cf_priority c of None \<Rightarrow> Some [] | Some p \<Rightarrow> Some p)\<rparr>"

text \<open>A statement on the row, after those of other goroutines, which only write it.\<close>

definition config_exec :: "env \<Rightarrow> (json option \<Rightarrow> goerr + json option) \<Rightarrow> ('z, goerr option) aio" where
  "config_exec e f = State (\<lambda>w.
     let k = aw_config_calls w;
         cur = fold (\<lambda>j _. Some j) (e_config_others e k) (aw_config w);
         w' = w\<lparr>aw_config := cur, aw_config_calls := Suc k\<rparr>
     in case e_config e k of
          DbFail m \<Rightarrow> (Some (Err m), w')
        | DbLost m \<Rightarrow> (Some (Err m), case f cur of Inl _ \<Rightarrow> w' | Inr x \<Rightarrow> w'\<lparr>aw_config := x\<rparr>)
        | _ \<Rightarrow> (case f cur of Inl err \<Rightarrow> (Some err, w') | Inr x \<Rightarrow> (None, w'\<lparr>aw_config := x\<rparr>)))"

definition config_query :: "env \<Rightarrow> ('z, goerr + json option) aio" where
  "config_query e = State (\<lambda>w.
     let k = aw_config_calls w;
         cur = fold (\<lambda>j _. Some j) (e_config_others e k) (aw_config w);
         w' = w\<lparr>aw_config := cur, aw_config_calls := Suc k\<rparr>
     in case e_config e k of
          DbFail m \<Rightarrow> (Inl (Err m), w')
        | DbLost m \<Rightarrow> (Inl (Err m), w')
        | _ \<Rightarrow> (Inr cur, w'))"

text \<open>The text given to a \<open>jsonb\<close> column: \<open>jsonb\<close> has no NUL character.\<close>

fun has_nul :: "json \<Rightarrow> bool" where
  "has_nul (JStr s) \<longleftrightarrow> CHR 0x00 \<in> set s"
| "has_nul (JArr js) \<longleftrightarrow> list_ex has_nul js"
| "has_nul (JObj kvs) \<longleftrightarrow> list_ex (\<lambda>kv. CHR 0x00 \<in> set (fst kv) \<or> has_nul (snd kv)) kvs"
| "has_nul _ \<longleftrightarrow> False"

definition jsonb_in :: "string \<Rightarrow> goerr + json" where
  "jsonb_in raw =
     (case json_parse raw of
        None \<Rightarrow> Inl (Err ''invalid input syntax for type json'')
      | Some j \<Rightarrow> if has_nul j then Inl (Err ''unsupported Unicode escape sequence'') else Inr j)"

text \<open>
  \<open>GetAppConfig\<close>. It calls itself after it inserted the row; rows are never deleted, so the
  second call finds one and two units of fuel are enough (\<open>get_app_config_enough\<close>).
\<close>

fun get_app_config_fuel :: "nat \<Rightarrow> env \<Rightarrow> ('z, (goerr + config) option) aio" where
  "get_app_config_fuel 0 e = State_Monad.return None"
| "get_app_config_fuel (Suc n) e = do {
     res \<leftarrow> config_query e;
     (case res of
        Inl err \<Rightarrow> State_Monad.return (Some (Inl (Wrapf ''get app_config: '' err [])))
      | Inr None \<Rightarrow> do {
          err \<leftarrow> config_exec e (\<lambda>cur. Inr (case cur of None \<Rightarrow> Some (JObj []) | Some j \<Rightarrow> Some j));
          (case err of
             Some x \<Rightarrow> State_Monad.return (Some (Inl (Wrapf ''ensure app_config: '' x [])))
           | None \<Rightarrow> get_app_config_fuel n e)
        }
      | Inr (Some raw) \<Rightarrow>
          State_Monad.return (Some (case decode_config default_app_config raw of
              None \<Rightarrow> Inl (Wrapf ''decode app_config: '' (Err (e_json_error e (json_encode raw))) [])
            | Some cfg \<Rightarrow> Inr (normalize cfg))))
   }"

definition get_app_config :: "env \<Rightarrow> ('z, goerr + config) aio" where
  "get_app_config e = do {
     res \<leftarrow> get_app_config_fuel 2 e;
     State_Monad.return (case res of None \<Rightarrow> Inl (Err ''out of fuel'') | Some x \<Rightarrow> x)
   }"

definition update_app_config :: "env \<Rightarrow> config \<Rightarrow> ('z, goerr option) aio" where
  "update_app_config e cfg0 =
     (let cfg = normalize (cfg0\<lparr>cf_database_url := []\<rparr>)
      in case (if cf_base_url cfg \<noteq> [] then validate_base_url (e_ip6 e) (cf_base_url cfg) else None) of
           Some err \<Rightarrow> State_Monad.return (Some (Wrapf ''base_url: '' err []))
         | None \<Rightarrow> do {
             res \<leftarrow> config_exec e (\<lambda>_. map_sum id Some (jsonb_in (json_encode (config_json cfg))));
             State_Monad.return (case res of None \<Rightarrow> None | Some err \<Rightarrow> Some (Wrapf ''update app_config: '' err []))
           })"

definition import_legacy_app_config :: "env \<Rightarrow> config \<Rightarrow> ('z, goerr + config) aio" where
  "import_legacy_app_config e legacy0 = do {
     res \<leftarrow> get_app_config e;
     (case res of
        Inl err \<Rightarrow> State_Monad.return (Inl err)
      | Inr current \<Rightarrow>
          if current \<noteq> default_app_config then State_Monad.return (Inr current)
          else
            (let legacy = normalize (legacy0\<lparr>cf_database_url := []\<rparr>)
             in if legacy = current then State_Monad.return (Inr current)
                else do {
                  err \<leftarrow> update_app_config e legacy;
                  (case err of
                     Some x \<Rightarrow> State_Monad.return (Inl x)
                   | None \<Rightarrow> get_app_config e)
                }))
   }"

section \<open>Reading always ends\<close>

lemma config_row_stays: "fold (\<lambda>j _. Some j) js (Some x) \<noteq> None"
  by (induction js arbitrary: x) auto

lemma config_query_finds:
  "aw_config w \<noteq> None \<Longrightarrow> fst (run_state (config_query e) w) \<noteq> Inr None"
  using config_row_stays [of "e_config_others e (aw_config_calls w)"]
  by (auto simp: config_query_def Let_def split: db_outcome.splits)

lemma config_exec_ensures:
  assumes "run_state (config_exec e (\<lambda>cur. Inr (case cur of None \<Rightarrow> Some x | Some j \<Rightarrow> Some j))) w = (None, w')"
  shows "aw_config w' \<noteq> None"
  using assms by (auto simp: config_exec_def Let_def split: db_outcome.splits option.splits sum.splits)

lemma get_app_config_found:
  assumes "aw_config w \<noteq> None"
  shows "fst (run_state (get_app_config_fuel (Suc n) e) w) \<noteq> None \<and>
    run_state (get_app_config_fuel (Suc n) e) w = run_state (get_app_config_fuel (Suc 0) e) w"
  using config_query_finds [OF assms, of e]
  by (cases "run_state (config_query e) w") (auto split: sum.splits option.splits)

lemma get_app_config_enough:
  "fst (run_state (get_app_config_fuel (Suc (Suc n)) e) w) \<noteq> None \<and>
   run_state (get_app_config_fuel (Suc (Suc n)) e) w = run_state (get_app_config_fuel 2 e) w"
proof -
  obtain res w1 where q: "run_state (config_query e) w = (res, w1)" by fastforce
  let ?ins = "config_exec e (\<lambda>cur. Inr (case cur of None \<Rightarrow> Some (JObj []) | Some j \<Rightarrow> Some j))"
  obtain err w2 where x: "run_state ?ins w1 = (err, w2)" by fastforce
  have "aw_config w2 \<noteq> None" if "err = None"
    using x unfolding that by (rule config_exec_ensures)
  then have "err = None \<Longrightarrow> fst (run_state (get_app_config_fuel (Suc n) e) w2) \<noteq> None \<and>
      run_state (get_app_config_fuel (Suc n) e) w2 = run_state (get_app_config_fuel (Suc 0) e) w2"
    by (intro get_app_config_found)
  then show ?thesis
    using q x unfolding numeral_2_eq_2
    by (subst (1 2 3) get_app_config_fuel.simps(2)) (auto simp del: get_app_config_fuel.simps split: sum.splits option.splits)
qed

section \<open>What is written is read\<close>

definition config_quiet :: "env \<Rightarrow> bool" where
  "config_quiet e \<longleftrightarrow> (\<forall>k. e_config e k = DbOk \<and> e_config_others e k = [])"

lemma config_query_quiet [run_simps]:
  "config_quiet e \<Longrightarrow> run_state (config_query e) w = (Inr (aw_config w), w\<lparr>aw_config_calls := Suc (aw_config_calls w)\<rparr>)"
  by (simp add: config_query_def config_quiet_def Let_def)

lemma config_exec_quiet [run_simps]:
  "config_quiet e \<Longrightarrow> run_state (config_exec e f) w =
     (case f (aw_config w) of
        Inl err \<Rightarrow> (Some err, w\<lparr>aw_config_calls := Suc (aw_config_calls w)\<rparr>)
      | Inr x \<Rightarrow> (None, w\<lparr>aw_config_calls := Suc (aw_config_calls w), aw_config := x\<rparr>))"
  by (simp add: config_exec_def config_quiet_def Let_def split: sum.splits)

lemma get_app_config_quiet:
  assumes "config_quiet e" and "aw_config w = Some j"
  shows "run_state (get_app_config e) w =
    ((case decode_config default_app_config j of
        None \<Rightarrow> Inl (Wrapf ''decode app_config: '' (Err (e_json_error e (json_encode j))) [])
      | Some c \<Rightarrow> Inr (normalize c)), w\<lparr>aw_config_calls := Suc (aw_config_calls w)\<rparr>)"
  using assms unfolding get_app_config_def numeral_2_eq_2 by (simp add: run_simps split: option.splits)

lemma members_simps:
  "members n [] = []" "members n ((k, v) # kvs) = (if fold_name k = fold_name n then [v] else []) @ members n kvs"
  "members n (omit_if b k v @ kvs) = (if b \<or> fold_name k \<noteq> fold_name n then [] else [v]) @ members n kvs"
  by (auto simp: members_def omit_if_def)

lemma config_names:
  "fold_name ''database_url'' = ''database_url''" "fold_name ''base_url'' = ''base_url''"
  "fold_name ''api_key'' = ''api_key''" "fold_name ''default_cover_size'' = ''default_cover_size''"
  "fold_name ''external_source_priority'' = ''external_source_priority''"
  by code_simp+

lemma those_map_Some: "those (map (\<lambda>x. Some (f x)) xs) = Some (map f xs)"
  by (induction xs) simp_all

lemma dec_json_strings: "dec_strings cur (json_strings x) = Some x"
  by (cases x) (simp_all add: dec_strings_def dec_slice_def json_strings_def dec_string_def o_def those_map_Some)

lemma decode_config_json:
  "decode_config cur (config_json c) = Some (c\<lparr>cf_database_url := (if cf_database_url c = [] then cf_database_url cur else cf_database_url c),
     cf_api_key := (if cf_api_key c = [] then cf_api_key cur else cf_api_key c)\<rparr>)"
  by (simp add: decode_config_def config_json_def struct_members_def read_field_def members_simps members_simps(3) [where kvs = "[]", simplified]
      config_names dec_string_def dec_json_strings)

text \<open>The strings of a configuration, none of which may hold a NUL character.\<close>

definition config_strings :: "config \<Rightarrow> string list" where
  "config_strings c = [cf_base_url c, cf_api_key c, cf_cover_size c] @ (case cf_priority c of None \<Rightarrow> [] | Some p \<Rightarrow> p)"

lemma int_json_config: "int_json (config_json c)"
  by (auto simp: config_json_def omit_if_def json_strings_def list_all_iff split: option.splits)

lemma has_nul_config:
  assumes "cf_database_url c = []"
  shows "has_nul (config_json c) \<longleftrightarrow> (\<exists>s \<in> set (config_strings c). CHR 0x00 \<in> set s)"
  using assms by (auto simp: config_json_def config_strings_def omit_if_def json_strings_def list_ex_iff split: option.splits)

lemma jsonb_in_config:
  "jsonb_in (json_encode (config_json c)) =
     (if has_nul (config_json c) then Inl (Err ''unsupported Unicode escape sequence'') else Inr (config_json c))"
  by (simp add: jsonb_in_def parse_encoded_document [OF int_json_config])

lemma normalize_again [simp]: "normalize (normalize c) = normalize c"
  by (simp add: normalize_def split: option.splits)

lemma normalize_fields [simp]:
  "cf_database_url (normalize c) = cf_database_url c" "cf_base_url (normalize c) = cf_base_url c"
  "cf_api_key (normalize c) = cf_api_key c"
  by (simp_all add: normalize_def)

lemma update_app_config_quiet:
  assumes "config_quiet e" and "run_state (update_app_config e c) w = (None, w')"
  shows "aw_config w' = Some (config_json (normalize (c\<lparr>cf_database_url := []\<rparr>)))"
    "w' = w\<lparr>aw_config_calls := Suc (aw_config_calls w), aw_config := aw_config w'\<rparr>"
    "cf_base_url c = [] \<or> validate_base_url (e_ip6 e) (cf_base_url c) = None"
  using assms by (auto simp: update_app_config_def Let_def run_simps jsonb_in_config split: if_splits option.splits)

lemma stored_config_reads:
  assumes "config_quiet e" and "aw_config w = Some (config_json c)" and "cf_database_url c = []" and "normalize c = c"
  shows "run_state (get_app_config e) w = (Inr c, w\<lparr>aw_config_calls := Suc (aw_config_calls w)\<rparr>)"
proof -
  have "decode_config default_app_config (config_json c) = Some c"
    unfolding decode_config_json using assms(3) by (simp add: default_app_config_def zero_config_def)
  then show ?thesis using get_app_config_quiet [OF assms(1,2)] assms(4) by simp
qed

section \<open>The store of the configuration as an interface\<close>

text \<open>
  What the admin routes and the import rely on: the row can be read while it holds a configuration,
  an accepted update stores the written form of what it was given, and a refused one leaves the row
  as it was.
\<close>

definition written :: "config \<Rightarrow> config" where
  "written c = normalize (c\<lparr>cf_database_url := []\<rparr>)"

lemma written_again [simp]: "written (written c) = written c"
  by (simp add: written_def normalize_def split: option.splits)

lemma written_key: "written (c\<lparr>cf_api_key := k\<rparr>) = (written c)\<lparr>cf_api_key := k\<rparr>"
  by (cases c) (simp add: written_def normalize_def)

lemma written_same: "cf_database_url c = [] \<Longrightarrow> normalize c = c \<Longrightarrow> written c = c"
  by (cases c) (simp add: written_def)

locale config_store =
  fixes ok :: "'e \<Rightarrow> bool"
    and holds :: "'w \<Rightarrow> config \<Rightarrow> bool"
    and get :: "'e \<Rightarrow> ('w, goerr + config) state"
    and update :: "'e \<Rightarrow> config \<Rightarrow> ('w, goerr option) state"
  assumes get_holds: "ok e \<Longrightarrow> holds w c \<Longrightarrow> \<exists>w'. run_state (get e) w = (Inr c, w') \<and> holds w' c"
    and update_holds: "ok e \<Longrightarrow> run_state (update e c) w = (None, w') \<Longrightarrow> holds w' (written c)"
    and refused_holds: "ok e \<Longrightarrow> run_state (update e c) w = (Some err, w') \<Longrightarrow> holds w b \<Longrightarrow> holds w' b"
begin

lemma update_then_get:
  assumes "ok e" and "run_state (update e c) w = (None, w')"
  shows "fst (run_state (get e) w') = Inr (written c)"
  using get_holds [OF assms(1) update_holds [OF assms]] by auto

text \<open>A refused update is not seen.\<close>

lemma refused_then_get:
  assumes "ok e" and "holds w b" and "run_state (update e c) w = (Some err, w')"
  shows "fst (run_state (get e) w') = Inr b"
  using get_holds [OF assms(1) refused_holds [OF assms(1,3,2)]] by auto

end

definition row_holds :: "'z app_world_scheme \<Rightarrow> config \<Rightarrow> bool" where
  "row_holds w c \<longleftrightarrow> aw_config w = Some (config_json c) \<and> written c = c"

lemma row_holds_reads:
  "config_quiet e \<Longrightarrow> row_holds w c \<Longrightarrow> run_state (get_app_config e) w = (Inr c, w\<lparr>aw_config_calls := Suc (aw_config_calls w)\<rparr>)"
proof -
  assume quiet: "config_quiet e" and holds: "row_holds w c"
  have "cf_database_url (written c) = []" "normalize (written c) = written c" by (simp_all add: written_def)
  with holds show ?thesis by (intro stored_config_reads [OF quiet]) (simp_all add: row_holds_def)
qed

interpretation config_rows: config_store config_quiet row_holds get_app_config update_app_config
proof
  fix e and w w' :: "'z app_world_scheme" and c b :: config and err
  assume quiet: "config_quiet e"
  show "\<exists>w'. run_state (get_app_config e) w = (Inr c, w') \<and> row_holds w' c" if "row_holds w c"
    using row_holds_reads [OF quiet that] that by (simp add: row_holds_def)
  show "row_holds w' (written c)" if "run_state (update_app_config e c) w = (None, w')"
    using update_app_config_quiet(1) [OF quiet that, folded written_def] by (simp add: row_holds_def)
  show "row_holds w' b" if "run_state (update_app_config e c) w = (Some err, w')" "row_holds w b"
    using that by (auto simp: update_app_config_def Let_def config_exec_quiet [OF quiet] row_holds_def split: if_splits option.splits sum.splits)
qed

section \<open>What the configuration calls touch\<close>

definition config_only :: "'z app_world_scheme \<Rightarrow> 'z app_world_scheme \<Rightarrow> bool" where
  "config_only w w' \<longleftrightarrow>
     w_table w' = w_table w \<and> w_db w' = w_db w \<and> w_http w' = w_http w \<and> w_events w' = w_events w \<and>
     rc_locked w' = rc_locked w \<and> rc_status w' = rc_status w \<and> rc_last_error w' = rc_last_error w \<and>
     rc_backoff w' = rc_backoff w \<and> aw_runtime w' = aw_runtime w \<and> app_world.more w' = app_world.more w"

interpretation config_effect: effect config_only
  by unfold_locales (auto simp: config_only_def)

lemma config_only_calls [effect_intros]:
  "effect_of config_only (config_exec e f)" "effect_of config_only (config_query e)"
  by (rule effect_ofI, auto simp: config_exec_def config_query_def Let_def config_only_def split: db_outcome.splits sum.splits)+

lemma config_only_get_fuel [effect_intros]: "effect_of config_only (get_app_config_fuel n e)"
  by (induction n) (auto intro!: config_effect.effect_rules effect_intros)

lemma config_only_store [effect_intros]:
  "effect_of config_only (get_app_config e)" "effect_of config_only (update_app_config e c)"
  "effect_of config_only (import_legacy_app_config e c)"
proof -
  show get: "effect_of config_only (get_app_config e)" for e
    unfolding get_app_config_def by (intro config_effect.effect_rules effect_intros)
  show upd: "effect_of config_only (update_app_config e c)" for c
    unfolding update_app_config_def by (intro config_effect.effect_rules effect_intros)
  show "effect_of config_only (import_legacy_app_config e c)"
    unfolding import_legacy_app_config_def by (intro config_effect.effect_rules get upd)
qed

text \<open>The import: a row that was ever edited wins, the default one takes what the host configured.\<close>

lemma import_legacy_quiet:
  assumes quiet: "config_quiet e" and row: "aw_config w = Some (config_json c)" "cf_database_url c = []" "normalize c = c"
    and run: "run_state (import_legacy_app_config e legacy) w = (Inr app, w')"
  shows "app = (if c = default_app_config then normalize (legacy\<lparr>cf_database_url := []\<rparr>) else c)"
proof -
  let ?l = "normalize (legacy\<lparr>cf_database_url := []\<rparr>)" and ?w = "w\<lparr>aw_config_calls := Suc (aw_config_calls w)\<rparr>"
  note get = stored_config_reads [OF quiet row]
  show ?thesis
  proof (cases "c = default_app_config \<and> ?l \<noteq> c")
    case False
    with run get show ?thesis by (auto simp: import_legacy_app_config_def Let_def split: if_splits)
  next
    case True
    obtain err w1 where upd: "run_state (update_app_config e ?l) ?w = (err, w1)" by fastforce
    have err: "err = None" and again: "run_state (get_app_config e) w1 = (Inr app, w')"
      using run get True upd by (auto simp: import_legacy_app_config_def Let_def split: option.splits)
    have "written ?l = ?l" using written_again [of legacy] by (simp only: written_def)
    then have "fst (run_state (get_app_config e) w1) = Inr ?l"
      using config_rows.update_then_get [OF quiet, of ?l ?w w1] upd err by simp
    with again True show ?thesis by simp
  qed
qed


text \<open>The first start: without a row, or with the empty one of the migration, the host's configuration
  is stored and taken.\<close>

lemma decode_empty_object: "decode_config default_app_config (JObj []) = Some default_app_config"
  by (simp add: decode_config_def struct_members_def read_field_def members_def default_app_config_def zero_config_def)

lemma get_app_config_first:
  assumes "config_quiet e" and "aw_config w \<in> {None, Some (JObj [])}"
  shows "\<exists>n. run_state (get_app_config e) w = (Inr default_app_config, w\<lparr>aw_config := Some (JObj []), aw_config_calls := n\<rparr>)"
proof -
  have norm: "normalize default_app_config = default_app_config" by (simp add: normalize_def default_app_config_def zero_config_def)
  show ?thesis
  proof (cases "aw_config w")
    case None
    with assms(1) norm show ?thesis
      unfolding get_app_config_def numeral_2_eq_2 by (simp add: run_simps decode_empty_object) blast
  next
    case (Some j)
    then have row: "aw_config w = Some (JObj [])" using assms(2) by simp
    then have "w\<lparr>aw_config := Some (JObj []), aw_config_calls := Suc (aw_config_calls w)\<rparr> = w\<lparr>aw_config_calls := Suc (aw_config_calls w)\<rparr>"
      by (cases w) simp
    with get_app_config_quiet [OF assms(1) row] norm show ?thesis by (simp add: decode_empty_object) metis
  qed
qed

lemma import_legacy_first:
  assumes quiet: "config_quiet e" and row: "aw_config w \<in> {None, Some (JObj [])}"
    and valid: "cf_base_url legacy = [] \<or> validate_base_url (e_ip6 e) (cf_base_url legacy) = None"
    and nul: "\<And>s. s \<in> set (config_strings (normalize legacy)) \<Longrightarrow> CHR 0x00 \<notin> set s"
  shows "\<exists>w'. run_state (import_legacy_app_config e legacy) w = (Inr (normalize (legacy\<lparr>cf_database_url := []\<rparr>)), w')"
proof -
  let ?l = "normalize (legacy\<lparr>cf_database_url := []\<rparr>)"
  from get_app_config_first [OF quiet row] obtain n where
    get: "run_state (get_app_config e) w = (Inr default_app_config, w\<lparr>aw_config := Some (JObj []), aw_config_calls := n\<rparr>)"
    by blast
  show ?thesis
  proof (cases "?l = default_app_config")
    case True
    with get show ?thesis by (simp add: import_legacy_app_config_def Let_def)
  next
    case False
    let ?w = "w\<lparr>aw_config := Some (JObj []), aw_config_calls := n\<rparr>"
    have same: "normalize (?l\<lparr>cf_database_url := []\<rparr>) = ?l" by (simp add: normalize_def split: option.splits)
    have "config_strings ?l = config_strings (normalize legacy)"
      by (simp add: config_strings_def normalize_def split: option.splits)
    then have "\<not> has_nul (config_json ?l)" using nul by (auto simp: has_nul_config)
    then have upd: "run_state (update_app_config e ?l) ?w = (None, ?w\<lparr>aw_config_calls := Suc n, aw_config := Some (config_json ?l)\<rparr>)"
      using quiet valid same by (auto simp: update_app_config_def Let_def run_simps jsonb_in_config)
    have "\<exists>w'. run_state (get_app_config e) (?w\<lparr>aw_config_calls := Suc n, aw_config := Some (config_json ?l)\<rparr>) = (Inr ?l, w')"
      using stored_config_reads [OF quiet, of "?w\<lparr>aw_config_calls := Suc n, aw_config := Some (config_json ?l)\<rparr>" ?l] by simp
    with get upd False show ?thesis by (simp add: import_legacy_app_config_def Let_def)
  qed
qed


section \<open>Properties\<close>

lemma config_calls_counted:
  "run_state (config_query e) w = (q, w1) \<Longrightarrow> aw_config_calls w1 = Suc (aw_config_calls w)"
  "run_state (config_exec e f) w = (x, w1) \<Longrightarrow> aw_config_calls w1 = Suc (aw_config_calls w)"
  by (auto simp: config_query_def config_exec_def Let_def split: db_outcome.splits sum.splits)

lemma get_app_config_calls:
  "run_state (get_app_config_fuel n e) w = (res, w') \<Longrightarrow> aw_config_calls w' \<le> aw_config_calls w + 2 * n"
proof (induction n arbitrary: w)
  case (Suc n)
  obtain q w1 where q: "run_state (config_query e) w = (q, w1)" by fastforce
  let ?ins = "config_exec e (\<lambda>cur. Inr (case cur of None \<Rightarrow> Some (JObj []) | Some j \<Rightarrow> Some j))"
  obtain err w2 where x: "run_state ?ins w1 = (err, w2)" by fastforce
  note calls = config_calls_counted(1) [OF q] config_calls_counted(2) [OF x]
  show ?case
  proof (cases "q = Inr None \<and> err = None")
    case True
    then have "run_state (get_app_config_fuel n e) w2 = (res, w')" using Suc.prems q x by simp
    from Suc.IH [OF this] calls show ?thesis by simp
  next
    case False
    then have "w' = w1 \<or> w' = w2" using Suc.prems q x by (auto split: sum.splits option.splits)
    with calls show ?thesis by auto
  qed
qed simp

text \<open>C24: reading the configuration ends. \<open>GetAppConfig\<close> calls itself after it inserted a missing row;
  whatever the database answers and whatever others write in between, it comes back after at
  most one such call and four calls to the database, and more recursion would change nothing.\<close>

theorem get_app_config_terminates:
  "fst (run_state (get_app_config_fuel 2 e) w) \<noteq> None \<and>
   run_state (get_app_config_fuel (2 + n) e) w = run_state (get_app_config_fuel 2 e) w \<and>
   aw_config_calls (snd (run_state (get_app_config e) w)) \<le> aw_config_calls w + 4"
proof -
  obtain res w' where run: "run_state (get_app_config_fuel 2 e) w = (res, w')" by fastforce
  have "snd (run_state (get_app_config e) w) = w'" by (simp add: get_app_config_def run)
  with get_app_config_enough [of n e w] get_app_config_enough [of 0 e w] get_app_config_calls [OF run] show ?thesis
    by (simp add: numeral_2_eq_2)
qed

end
