(* ===== verification/Catalog_Client.thy ===== *)
theory Catalog_Client
  imports Ebookdb_Client Http_Messages
begin

text \<open>
  The catalog calls of the upstream client: \<open>internal/ebookdb/catalog.go\<close>,
  \<open>external_search.go\<close> and \<open>types.go\<close>. A float is kept as the text Go prints for it.
\<close>

section \<open>Data (types.go)\<close>

record book =
  bk_id :: string
  bk_title :: string
  bk_authors :: "string list option"
  bk_isbn :: string
  bk_publisher :: string
  bk_series :: string
  bk_series_index :: string
  bk_year :: int
  bk_language :: string
  bk_cover_url :: string
  bk_has_cover :: bool
  bk_rating :: string
  bk_formats :: "string list option"

record book_file =
  bf_format :: string
  bf_size :: int
  bf_url :: string

record book_detail = book +
  bd_description :: string
  bd_genres :: "string list option"
  bd_tags :: "string list option"
  bd_files :: "book_file list option"

record 'a paged =
  pg_items :: "'a list option"
  pg_next :: string
  pg_total :: int

record search_hit =
  sh_source_id :: string
  sh_source :: string
  sh_title :: string
  sh_authors :: "string list option"
  sh_year :: int
  sh_language :: string
  sh_formats :: "string list option"
  sh_size :: int
  sh_cover_url :: string

section \<open>Decoding\<close>

definition read_book :: "env \<Rightarrow> (string \<times> json) list \<Rightarrow> book option" where
  "read_book e kvs = do {
     i \<leftarrow> read_field dec_string [] ''id'' kvs;
     t \<leftarrow> read_field dec_string [] ''title'' kvs;
     a \<leftarrow> read_field dec_strings None ''authors'' kvs;
     isbn \<leftarrow> read_field dec_string [] ''isbn'' kvs;
     p \<leftarrow> read_field dec_string [] ''publisher'' kvs;
     s \<leftarrow> read_field dec_string [] ''series'' kvs;
     si \<leftarrow> read_field (dec_float (e_float e)) ''0'' ''series_index'' kvs;
     y \<leftarrow> read_field dec_int 0 ''year'' kvs;
     l \<leftarrow> read_field dec_string [] ''language'' kvs;
     c \<leftarrow> read_field dec_string [] ''cover_url'' kvs;
     h \<leftarrow> read_field dec_bool False ''has_cover'' kvs;
     r \<leftarrow> read_field (dec_float (e_float e)) ''0'' ''rating'' kvs;
     f \<leftarrow> read_field dec_strings None ''formats'' kvs;
     Some \<lparr>bk_id = i, bk_title = t, bk_authors = a, bk_isbn = isbn, bk_publisher = p, bk_series = s,
           bk_series_index = si, bk_year = y, bk_language = l, bk_cover_url = c, bk_has_cover = h,
           bk_rating = r, bk_formats = f\<rparr>
   }"

definition read_file :: "json \<Rightarrow> book_file option" where
  "read_file j =
     (case struct_members j of
        None \<Rightarrow> None
      | Some kvs \<Rightarrow> do {
          f \<leftarrow> read_field dec_string [] ''format'' kvs;
          n \<leftarrow> read_field dec_int 0 ''file_size'' kvs;
          u \<leftarrow> read_field dec_string [] ''url'' kvs;
          Some \<lparr>bf_format = f, bf_size = n, bf_url = u\<rparr>
        })"

definition read_detail :: "env \<Rightarrow> json \<Rightarrow> book_detail option" where
  "read_detail e j =
     (case struct_members j of
        None \<Rightarrow> None
      | Some kvs \<Rightarrow> do {
          b \<leftarrow> read_book e kvs;
          d \<leftarrow> read_field dec_string [] ''description'' kvs;
          g \<leftarrow> read_field dec_strings None ''genres'' kvs;
          t \<leftarrow> read_field dec_strings None ''tags'' kvs;
          fs \<leftarrow> read_field (dec_slice read_file) None ''files'' kvs;
          Some (book.extend b \<lparr>bd_description = d, bd_genres = g, bd_tags = t, bd_files = fs\<rparr>)
        })"

definition read_page :: "env \<Rightarrow> json \<Rightarrow> book paged option" where
  "read_page e j =
     (case struct_members j of
        None \<Rightarrow> None
      | Some kvs \<Rightarrow> do {
          bs \<leftarrow> read_field (dec_slice (\<lambda>j. Option.bind (struct_members j) (read_book e))) None ''items'' kvs;
          n \<leftarrow> read_field dec_string [] ''next_cursor'' kvs;
          t \<leftarrow> read_field dec_int 0 ''total'' kvs;
          Some \<lparr>pg_items = bs, pg_next = n, pg_total = t\<rparr>
        })"

text \<open>The result struct of the external search, and the loop that makes hits of them.\<close>

definition read_hit :: "json \<Rightarrow> search_hit option" where
  "read_hit j =
     (case struct_members j of
        None \<Rightarrow> None
      | Some kvs \<Rightarrow> do {
          t \<leftarrow> read_field dec_string [] ''title'' kvs;
          a \<leftarrow> read_field dec_strings None ''authors'' kvs;
          l \<leftarrow> read_field dec_pointer None ''language'' kvs;
          c \<leftarrow> read_field dec_pointer None ''cover_url'' kvs;
          isbn \<leftarrow> read_field dec_pointer None ''isbn13'' kvs;
          d \<leftarrow> read_field dec_pointer None ''published_date'' kvs;
          s \<leftarrow> read_field dec_string [] ''source'' kvs;
          Some \<lparr>sh_source_id = (case isbn of None \<Rightarrow> [] | Some x \<Rightarrow> x), sh_source = s, sh_title = t, sh_authors = a,
                sh_year = (case d of None \<Rightarrow> 0 | Some x \<Rightarrow>
                   if length x \<ge> 4 then (case atoi (take 4 x) of None \<Rightarrow> 0 | Some y \<Rightarrow> y) else 0),
                sh_language = (case l of None \<Rightarrow> [] | Some x \<Rightarrow> x), sh_formats = None, sh_size = 0,
                sh_cover_url = (case c of None \<Rightarrow> [] | Some x \<Rightarrow> x)\<rparr>
        })"

definition read_hits :: "json \<Rightarrow> search_hit list option" where
  "read_hits j =
     (case struct_members j of
        None \<Rightarrow> None
      | Some kvs \<Rightarrow>
          map_option (\<lambda>x. case x of None \<Rightarrow> [] | Some hs \<Rightarrow> hs) (read_field (dec_slice read_hit) None ''results'' kvs))"

text \<open>\<open>json.Unmarshal\<close> of a whole body into a struct, with the error it wraps.\<close>

definition decode_body :: "env \<Rightarrow> string \<Rightarrow> (json \<Rightarrow> 'a option) \<Rightarrow> string \<Rightarrow> goerr + 'a" where
  "decode_body e what dec body =
     (case Option.bind (json_parse body) dec of
        None \<Rightarrow> Inl (Wrapf (''decode '' @ what @ '': '') (Err (e_json_error e body)) [])
      | Some x \<Rightarrow> Inr x)"

section \<open>Calls\<close>

record list_params =
  lp_cursor :: string
  lp_limit :: int
  lp_sort :: string
  lp_order :: string
  lp_query :: string

text \<open>\<open>q.Set\<close> under a condition.\<close>

definition set_if :: "bool \<Rightarrow> string \<Rightarrow> string \<Rightarrow> (string \<times> string) list" where
  "set_if b k v = (if b then [(k, v)] else [])"

definition list_values :: "list_params \<Rightarrow> (string \<times> string) list" where
  "list_values p =
     set_if (lp_cursor p \<noteq> []) ''cursor'' (lp_cursor p) @
     set_if (lp_limit p > 0) ''limit'' (itoa (lp_limit p)) @
     set_if (lp_sort p \<noteq> []) ''sort'' (lp_sort p) @
     set_if (lp_order p \<noteq> []) ''order'' (lp_order p) @
     set_if (lp_query p \<noteq> []) ''q'' (lp_query p)"

definition list_path :: "list_params \<Rightarrow> string" where
  "list_path p = (if lp_query p \<noteq> [] then ''/api/v1/books/search'' else ''/api/v1/books'') @ ''?'' @ values_encode (list_values p)"

definition list_books :: "env \<Rightarrow> client \<Rightarrow> ctx \<Rightarrow> list_params \<Rightarrow> ('z, goerr + book paged) io" where
  "list_books e c cx p = do {
     r \<leftarrow> client_get e c cx (list_path p);
     State_Monad.return (case r of Inl err \<Rightarrow> Inl err | Inr body \<Rightarrow> decode_body e ''books'' (read_page e) body)
   }"

definition get_book :: "env \<Rightarrow> client \<Rightarrow> ctx \<Rightarrow> string \<Rightarrow> ('z, goerr + book_detail) io" where
  "get_book e c cx md5 = do {
     r \<leftarrow> client_get e c cx (''/api/v1/books/'' @ path_escape md5);
     State_Monad.return (case r of Inl err \<Rightarrow> Inl err | Inr body \<Rightarrow> decode_body e ''book'' (read_detail e) body)
   }"

definition file_url :: "client \<Rightarrow> string \<Rightarrow> string \<Rightarrow> string" where
  "file_url c md5 fmt = cl_base c @ ''/api/v1/books/'' @ path_escape md5 @ ''/files/'' @ path_escape fmt"

definition cover_url :: "client \<Rightarrow> string \<Rightarrow> string \<Rightarrow> string" where
  "cover_url c md5 sz = cl_base c @ ''/api/v1/books/'' @ path_escape md5 @ ''/cover/'' @ path_escape sz"

definition search_path :: "string \<Rightarrow> int \<Rightarrow> string" where
  "search_path query limit =
     ''/api/v1/search/external?'' @ values_encode ([(''q'', query)] @ set_if (limit > 0) ''limit'' (itoa limit))"

definition external_search :: "env \<Rightarrow> client \<Rightarrow> ctx \<Rightarrow> string \<Rightarrow> int \<Rightarrow> ('z, goerr + search_hit list) io" where
  "external_search e c cx query limit = do {
     r \<leftarrow> client_get e c cx (search_path query limit);
     State_Monad.return (case r of Inl err \<Rightarrow> Inl err | Inr body \<Rightarrow> decode_body e ''external_search'' read_hits body)
   }"

end
