(* ===== verification/Catalog.thy ===== *)
theory Catalog
  imports Catalog_Client
begin

text \<open>
  The catalog routes of the plugin: \<open>internal/catalog/handler.go\<close>, \<open>transform.go\<close> and
  \<open>types.go\<close>. A handler maps the request (and the path parameters the router found) to the
  response it writes; the routes are in \<open>Admin_Routes\<close>.
\<close>

section \<open>Response types (types.go)\<close>

record ebook_summary =
  es_id :: string
  es_title :: string
  es_authors :: "string list option"
  es_series :: string
  es_series_index :: string
  es_year :: int
  es_language :: string
  es_cover_url :: string
  es_has_cover :: bool
  es_rating :: string
  es_formats :: "string list option"

record ebook_file =
  ef_format :: string
  ef_size :: int
  ef_mime :: string
  ef_url :: string

record ebook_detail = ebook_summary +
  ed_description :: string
  ed_isbn :: string
  ed_publisher :: string
  ed_genres :: "string list option"
  ed_tags :: "string list option"
  ed_files :: "ebook_file list"
  ed_upstream_id :: string

definition summary_fields :: "'z ebook_summary_scheme \<Rightarrow> (string \<times> json) list" where
  "summary_fields s =
     [(''id'', JStr (es_id s)), (''title'', JStr (es_title s))] @
     omit_if (no_items (es_authors s)) ''authors'' (json_strings (es_authors s)) @
     omit_if (es_series s = []) ''series'' (JStr (es_series s)) @
     omit_if (zero_float (es_series_index s)) ''series_index'' (JNum (es_series_index s)) @
     omit_if (es_year s = 0) ''year'' (JNum (itoa (es_year s))) @
     omit_if (es_language s = []) ''language'' (JStr (es_language s)) @
     omit_if (es_cover_url s = []) ''cover_url'' (JStr (es_cover_url s)) @
     [(''has_cover'', JBool (es_has_cover s))] @
     omit_if (zero_float (es_rating s)) ''rating'' (JNum (es_rating s)) @
     [(''formats'', json_strings (es_formats s))]"

definition file_json :: "ebook_file \<Rightarrow> json" where
  "file_json f =
     JObj ([(''format'', JStr (ef_format f)), (''size_bytes'', JNum (itoa (ef_size f))), (''mime_type'', JStr (ef_mime f))] @
           omit_if (ef_url f = []) ''url'' (JStr (ef_url f)))"

definition detail_json :: "ebook_detail \<Rightarrow> json" where
  "detail_json d =
     JObj (summary_fields d @
       omit_if (ed_description d = []) ''description'' (JStr (ed_description d)) @
       omit_if (ed_isbn d = []) ''isbn'' (JStr (ed_isbn d)) @
       omit_if (ed_publisher d = []) ''publisher'' (JStr (ed_publisher d)) @
       omit_if (no_items (ed_genres d)) ''genres'' (json_strings (ed_genres d)) @
       omit_if (no_items (ed_tags d)) ''tags'' (json_strings (ed_tags d)) @
       [(''files'', JArr (map file_json (ed_files d)))] @
       omit_if (ed_upstream_id d = []) ''upstream_id'' (JStr (ed_upstream_id d)))"

text \<open>\<open>PageEnvelope\<close>.\<close>

definition page_json :: "ebook_summary list \<Rightarrow> string \<Rightarrow> int \<Rightarrow> json" where
  "page_json items cursor tot =
     JObj ([(''items'', JArr (map (\<lambda>s. JObj (summary_fields s)) items))] @
       omit_if (cursor = []) ''next_cursor'' (JStr cursor) @
       omit_if (tot = 0) ''total'' (JNum (itoa tot)))"

definition hit_json :: "search_hit \<Rightarrow> json" where
  "hit_json h =
     JObj ([(''source_id'', JStr (sh_source_id h)), (''source'', JStr (sh_source h)), (''title'', JStr (sh_title h))] @
       omit_if (no_items (sh_authors h)) ''authors'' (json_strings (sh_authors h)) @
       omit_if (sh_year h = 0) ''year'' (JNum (itoa (sh_year h))) @
       omit_if (sh_language h = []) ''language'' (JStr (sh_language h)) @
       omit_if (no_items (sh_formats h)) ''formats'' (json_strings (sh_formats h)) @
       omit_if (sh_size h = 0) ''size_bytes'' (JNum (itoa (sh_size h))) @
       omit_if (sh_cover_url h = []) ''cover_url'' (JStr (sh_cover_url h)))"

section \<open>Translation (transform.go)\<close>

definition to_summary :: "'z book_scheme \<Rightarrow> ebook_summary" where
  "to_summary b =
     \<lparr>es_id = bk_id b, es_title = bk_title b, es_authors = bk_authors b, es_series = bk_series b,
      es_series_index = bk_series_index b, es_year = bk_year b, es_language = bk_language b,
      es_cover_url = (if bk_has_cover b then ''/cover/'' @ path_escape (bk_id b) @ ''/medium'' else []),
      es_has_cover = bk_has_cover b, es_rating = bk_rating b, es_formats = bk_formats b\<rparr>"

definition format_to_mime :: "string \<Rightarrow> string" where
  "format_to_mime f =
     (let l = to_lower f
      in if l = ''epub'' then ''application/epub+zip''
         else if l = ''pdf'' then ''application/pdf''
         else if l = ''mobi'' then ''application/x-mobipocket-ebook''
         else if l = ''azw'' \<or> l = ''azw3'' then ''application/vnd.amazon.ebook''
         else if l = ''djvu'' then ''image/vnd.djvu''
         else if l = ''fb2'' then ''application/x-fictionbook+xml''
         else if l = ''cbz'' then ''application/vnd.comicbook+zip''
         else if l = ''cbr'' then ''application/vnd.comicbook-rar''
         else if l = ''txt'' then ''text/plain''
         else ''application/octet-stream'')"

definition to_detail :: "book_detail \<Rightarrow> ebook_detail" where
  "to_detail d =
     ebook_summary.extend (to_summary d)
       \<lparr>ed_description = bd_description d, ed_isbn = bk_isbn d, ed_publisher = bk_publisher d,
        ed_genres = bd_genres d, ed_tags = bd_tags d,
        ed_files = (case bd_files d of None \<Rightarrow> [] | Some fs \<Rightarrow>
           map (\<lambda>f. \<lparr>ef_format = bf_format f, ef_size = bf_size f, ef_mime = format_to_mime (bf_format f),
                     ef_url = bf_url f\<rparr>) fs),
        ed_upstream_id = bk_id d\<rparr>"

section \<open>Handlers (handler.go)\<close>

definition max_catalog_limit :: int where "max_catalog_limit = 100"

definition max_search_body_bytes :: int where "max_search_body_bytes = 64 * 2 ^ 10"

definition parse_list_params :: "http_in \<Rightarrow> list_params" where
  "parse_list_params r =
     (let s = to_lower (url_query r ''sort''); ord = to_lower (url_query r ''order'')
      in \<lparr>lp_cursor = url_query r ''cursor'',
          lp_limit = (case atoi (url_query r ''limit'') of
             Some n \<Rightarrow> if n > 0 then (if n > max_catalog_limit then max_catalog_limit else n) else 0
           | None \<Rightarrow> 0),
          lp_sort = (if s \<in> {''title'', ''year'', ''added'', ''rating'', ''relevance''} then s else []),
          lp_order = (if ord \<in> {''asc'', ''desc''} then ord else []),
          lp_query = []\<rparr>)"

definition upstream_error :: http_out where
  "upstream_error = http_error ''upstream unavailable'' 502"

definition write_envelope :: "book paged \<Rightarrow> http_out" where
  "write_envelope p =
     json_out 200 (page_json (map to_summary (case pg_items p of None \<Rightarrow> [] | Some bs \<Rightarrow> bs)) (pg_next p) (pg_total p))"

definition catalog_list :: "env \<Rightarrow> client \<Rightarrow> ctx \<Rightarrow> http_in \<Rightarrow> ('z, http_out) io" where
  "catalog_list e c cx r = do {
     res \<leftarrow> list_books e c cx (parse_list_params r);
     State_Monad.return (case res of Inl err \<Rightarrow> upstream_error | Inr p \<Rightarrow> write_envelope p)
   }"

definition catalog_search :: "env \<Rightarrow> client \<Rightarrow> ctx \<Rightarrow> http_in \<Rightarrow> ('z, http_out) io" where
  "catalog_search e c cx r = do {
     res \<leftarrow> list_books e c cx ((parse_list_params r)\<lparr>lp_query := url_query r ''q''\<rparr>);
     State_Monad.return (case res of Inl err \<Rightarrow> upstream_error | Inr p \<Rightarrow> write_envelope p)
   }"

definition catalog_detail :: "env \<Rightarrow> client \<Rightarrow> ctx \<Rightarrow> string \<Rightarrow> ('z, http_out) io" where
  "catalog_detail e c cx i =
     (if i = [] then State_Monad.return (http_error ''id required'' 400)
      else do {
        res \<leftarrow> get_book e c cx i;
        State_Monad.return (case res of Inl err \<Rightarrow> upstream_error | Inr d \<Rightarrow> json_out 200 (detail_json (to_detail d)))
      })"

text \<open>
  \<open>proxyStream\<close>: the upstream's status, the named headers that are not empty, its body as far as
  it can be read. \<open>WriteHeader\<close> panics on a status that has not three digits; the \<open>Recoverer\<close> of
  the router answers 500, and the headers are set by then.
\<close>

definition proxy_headers :: "http_response \<Rightarrow> string list \<Rightarrow> (string \<times> string) list" where
  "proxy_headers resp names =
     map (\<lambda>k. (canonical_header k, get_header k (rs_headers resp)))
       (filter (\<lambda>k. get_header k (rs_headers resp) \<noteq> []) names)"

definition proxy_stream :: "http_response \<Rightarrow> string list \<Rightarrow> http_out" where
  "proxy_stream resp names =
     (if rs_status resp < 100 \<or> rs_status resp > 999
      then \<lparr>out_status = 500, out_headers = proxy_headers resp names, out_body = []\<rparr>
      else \<lparr>out_status = rs_status resp, out_headers = proxy_headers resp names, out_body = rs_body resp\<rparr>)"

definition cover_headers :: "string list" where
  "cover_headers = [''Content-Type'', ''Content-Length'', ''ETag'', ''Cache-Control'', ''Last-Modified'']"

definition file_headers :: "string list" where
  "file_headers = [''Content-Type'', ''Content-Length'', ''Content-Disposition'', ''Content-Range'', ''ETag'',
     ''Cache-Control'', ''Last-Modified'', ''Accept-Ranges'']"

definition catalog_cover :: "env \<Rightarrow> client \<Rightarrow> ctx \<Rightarrow> string \<Rightarrow> string \<Rightarrow> ('z, http_out) io" where
  "catalog_cover e c cx md5 sz = do {
     res \<leftarrow> get_stream e c cx (''/api/v1/books/'' @ path_escape md5 @ ''/cover/'' @ path_escape sz);
     State_Monad.return (case res of Inl err \<Rightarrow> upstream_error | Inr resp \<Rightarrow> proxy_stream resp cover_headers)
   }"

definition catalog_file :: "env \<Rightarrow> client \<Rightarrow> ctx \<Rightarrow> string \<Rightarrow> http_in \<Rightarrow> ('z, http_out) io" where
  "catalog_file e c cx md5 r =
     (let fmt = (if url_query r ''format'' = [] then ''epub'' else url_query r ''format'')
      in do {
        res \<leftarrow> get_stream_with_range e c cx (''/api/v1/books/'' @ path_escape md5 @ ''/files/'' @ path_escape fmt)
                 (get_header ''Range'' (in_headers r));
        State_Monad.return (case res of Inl err \<Rightarrow> upstream_error | Inr resp \<Rightarrow> proxy_stream resp file_headers)
      })"

text \<open>
  The body of the external search. Its decoding error is ignored: a document that is not JSON
  leaves the struct empty, a member of the wrong type leaves its field alone.
\<close>

definition lenient :: "('a \<Rightarrow> json \<Rightarrow> 'a option) \<Rightarrow> 'a \<Rightarrow> json \<Rightarrow> 'a option" where
  "lenient dec cur j = (case dec cur j of None \<Rightarrow> Some cur | Some x \<Rightarrow> Some x)"

definition lenient_field :: "('a \<Rightarrow> json \<Rightarrow> 'a option) \<Rightarrow> 'a \<Rightarrow> string \<Rightarrow> (string \<times> json) list \<Rightarrow> 'a" where
  "lenient_field dec cur name kvs = (case read_field (lenient dec) cur name kvs of None \<Rightarrow> cur | Some x \<Rightarrow> x)"

definition body_members :: "string \<Rightarrow> (string \<times> json) list" where
  "body_members b =
     (case Option.bind (json_decode_first b) struct_members of None \<Rightarrow> [] | Some kvs \<Rightarrow> kvs)"

definition catalog_external_search :: "env \<Rightarrow> client \<Rightarrow> ctx \<Rightarrow> http_in \<Rightarrow> ('z, http_out) io" where
  "catalog_external_search e c cx r =
     (let kvs = body_members (limit_read max_search_body_bytes (in_body r));
          q = lenient_field dec_string [] ''q'' kvs;
          n = lenient_field dec_int 0 ''limit'' kvs
      in if q = [] then State_Monad.return (http_error ''q required'' 400)
         else do {
           res \<leftarrow> external_search e c cx q (if n < 0 then 0 else if n > max_catalog_limit then max_catalog_limit else n);
           State_Monad.return (case res of
               Inl err \<Rightarrow> upstream_error
             | Inr hits \<Rightarrow> json_out 200 (go_map [(''items'', JArr (map hit_json hits))]))
         })"

definition request_snapshot :: "env \<Rightarrow> client \<Rightarrow> ctx \<Rightarrow> string \<Rightarrow> ('z, http_out) io" where
  "request_snapshot e c cx eid =
     (if eid = [] then State_Monad.return (http_error ''external_id required'' 400)
      else do {
        res \<leftarrow> get_monitoring e c cx eid;
        State_Monad.return (case res of
            Inl err \<Rightarrow> upstream_error
          | Inr snap \<Rightarrow> json_out 200 (go_map [(''external_id'', JStr (ms_id snap)), (''status'', JStr (ms_status snap))]))
      })"

section \<open>What is asked upstream\<close>

lemma upstream_only_list_books:
  assumes "run_state (list_books e c cx p) w = (res, w')"
  shows "upstream_only (\<lambda>q. rq_url q = cl_base c @ list_path p) w w'"
proof -
  obtain b w0 where "run_state (client_get e c cx (list_path p)) w = (b, w0)" by fastforce
  with assms upstream_only_client_get [OF this] show ?thesis by (auto simp: list_books_def upstream_only_def)
qed

lemma upstream_only_external_search:
  assumes "run_state (external_search e c cx query limit) w = (res, w')"
  shows "upstream_only (\<lambda>q. rq_url q = cl_base c @ search_path query limit) w w'"
proof -
  obtain b w0 where "run_state (client_get e c cx (search_path query limit)) w = (b, w0)" by fastforce
  with assms upstream_only_client_get [OF this] show ?thesis by (auto simp: external_search_def upstream_only_def)
qed

lemma upstream_only_mono: "upstream_only P w w' \<Longrightarrow> (\<And>q. P q \<Longrightarrow> Q q) \<Longrightarrow> upstream_only Q w w'"
  unfolding upstream_only_def by meson

lemma map_of_set_if: "map_of (set_if b k v @ kvs) = (if b then (map_of kvs)(k \<mapsto> v) else map_of kvs)"
  by (simp add: set_if_def)

lemma query_get_encode: "distinct (map fst kvs) \<Longrightarrow> query_get (values_encode kvs) k = (case map_of kvs k of None \<Rightarrow> [] | Some v \<Rightarrow> v)"
  by (simp add: query_get_def parse_query_encode map_of_sort_key)

lemma distinct_list_values: "distinct (map fst (list_values p))"
  by (simp add: list_values_def set_if_def)

lemma list_values_get:
  "query_get (values_encode (list_values p)) ''cursor'' = lp_cursor p"
  "query_get (values_encode (list_values p)) ''limit'' = (if lp_limit p > 0 then itoa (lp_limit p) else [])"
  "query_get (values_encode (list_values p)) ''sort'' = lp_sort p"
  "query_get (values_encode (list_values p)) ''order'' = lp_order p"
  "query_get (values_encode (list_values p)) ''q'' = lp_query p"
  unfolding query_get_encode [OF distinct_list_values] by (simp_all add: list_values_def set_if_def)

lemma search_values_get:
  "query_get (values_encode ((''q'', query) # set_if (limit > 0) ''limit'' (itoa limit))) ''limit'' =
     (if limit > 0 then itoa limit else [])"
  "query_get (values_encode ((''q'', query) # set_if (limit > 0) ''limit'' (itoa limit))) ''cursor'' = []"
  "query_get (values_encode ((''q'', query) # set_if (limit > 0) ''limit'' (itoa limit))) ''sort'' = []"
  "query_get (values_encode ((''q'', query) # set_if (limit > 0) ''limit'' (itoa limit))) ''order'' = []"
  by (subst query_get_encode; simp add: set_if_def)+

text \<open>The bounds every catalog query respects.\<close>

definition bounded_query :: "string \<Rightarrow> string \<Rightarrow> bool" where
  "bounded_query cursor q \<longleftrightarrow>
     (query_get q ''limit'' = [] \<or> (\<exists>n. 1 \<le> n \<and> n \<le> 100 \<and> query_get q ''limit'' = itoa n)) \<and>
     query_get q ''sort'' \<in> {[], ''title'', ''year'', ''added'', ''rating'', ''relevance''} \<and>
     query_get q ''order'' \<in> {[], ''asc'', ''desc''} \<and>
     query_get q ''cursor'' \<in> {[], cursor}"

lemma limit_text: "k \<le> 100 \<Longrightarrow>
    (if 0 < k then itoa k else []) = [] \<or> (\<exists>n. 1 \<le> n \<and> n \<le> 100 \<and> (if 0 < k then itoa k else []) = itoa n)" for k :: int
  by (cases "0 < k") (auto intro!: exI [of _ k])

lemma bounded_list_params:
  "bounded_query (url_query r ''cursor'') (values_encode (list_values ((parse_list_params r)\<lparr>lp_query := qs\<rparr>)))"
proof -
  have limit: "lp_limit (parse_list_params r) \<le> 100"
    by (auto simp: parse_list_params_def Let_def max_catalog_limit_def split: option.splits)
  have "lp_sort (parse_list_params r) \<in> {[], ''title'', ''year'', ''added'', ''rating'', ''relevance''}"
    "lp_order (parse_list_params r) \<in> {[], ''asc'', ''desc''}"
    "lp_cursor (parse_list_params r) = url_query r ''cursor''"
    by (auto simp: parse_list_params_def Let_def)
  then show ?thesis
    unfolding bounded_query_def list_values_get using limit_text [OF limit]
    by (cases "0 < lp_limit (parse_list_params r)") auto
qed

lemma bounded_search: "limit \<le> 100 \<Longrightarrow> bounded_query cur (values_encode ((''q'', query) # set_if (limit > 0) ''limit'' (itoa limit)))"
  unfolding bounded_query_def search_values_get using limit_text [of limit] by simp

section \<open>Properties\<close>

text \<open>C20: what the catalog asks upstream is bounded. Listing, searching and external searching send at
  most one request, to one of three paths below the client's base URL; whatever the caller's
  query or body says, the limit the upstream reads is absent or between 1 and 100, sort and
  order are among the allowed words, and the cursor is the caller's. Nothing else changes. The
  answer is 200, the generic 502, or, for an external search without a query, 400 with nothing
  sent.\<close>

theorem catalog_queries_bounded:
  assumes "h \<in> {catalog_list e c cx r, catalog_search e c cx r, catalog_external_search e c cx r}"
    and run: "run_state h w = (out, w')"
  shows "(w_http w' = w_http w \<or>
      (\<exists>q path query. w_http w' = w_http w @ [q] \<and> rq_url q = cl_base c @ path @ ''?'' @ query \<and>
         path \<in> {''/api/v1/books'', ''/api/v1/books/search'', ''/api/v1/search/external''} \<and>
         bounded_query (url_query r ''cursor'') query)) \<and>
    w_table w' = w_table w \<and> w_db w' = w_db w \<and> w_events w' = w_events w \<and>
    (out_status out = 200 \<or> out = upstream_error \<or> out = http_error ''q required'' 400 \<and> w_http w' = w_http w)"
proof -
  let ?ask = "\<lambda>q. \<exists>path query. rq_url q = cl_base c @ path @ ''?'' @ query \<and>
         path \<in> {''/api/v1/books'', ''/api/v1/books/search'', ''/api/v1/search/external''} \<and>
         bounded_query (url_query r ''cursor'') query"
  have books: "?ask q" if "rq_url q = cl_base c @ list_path ((parse_list_params r)\<lparr>lp_query := qs\<rparr>)" for q qs
  proof (intro exI conjI)
    let ?p = "(parse_list_params r)\<lparr>lp_query := qs\<rparr>"
    show "rq_url q = cl_base c @ (if qs \<noteq> [] then ''/api/v1/books/search'' else ''/api/v1/books'') @ ''?'' @ values_encode (list_values ?p)"
      using that by (simp add: list_path_def)
  qed (auto intro: bounded_list_params)
  have ext: "?ask q" if "rq_url q = cl_base c @ search_path query limit" "limit \<le> 100" for q query limit
  proof (intro exI conjI)
    show "rq_url q = cl_base c @ ''/api/v1/search/external'' @ ''?'' @ values_encode ((''q'', query) # set_if (limit > 0) ''limit'' (itoa limit))"
      using that(1) by (simp add: search_path_def)
  qed (auto intro: bounded_search that(2))
  note weaken = upstream_only_mono [where Q = ?ask]
  have same: "(parse_list_params r)\<lparr>lp_query := []\<rparr> = parse_list_params r"
    by (simp add: parse_list_params_def Let_def)
  have "upstream_only ?ask w w' \<and>
    (out_status out = 200 \<or> out = upstream_error \<or> out = http_error ''q required'' 400 \<and> w_http w' = w_http w)"
    using assms(1)
  proof (elim insertE emptyE)
    assume h: "h = catalog_list e c cx r"
    obtain res w0 where l: "run_state (list_books e c cx (parse_list_params r)) w = (res, w0)" by fastforce
    with run h have "w0 = w'" "out = (case res of Inl err \<Rightarrow> upstream_error | Inr p \<Rightarrow> write_envelope p)"
      by (auto simp: catalog_list_def)
    moreover have "upstream_only ?ask w w0"
      by (rule weaken [OF upstream_only_list_books [OF l]], rule books [of _ "[]"]) (simp only: same)
    ultimately show ?thesis by (auto simp: write_envelope_def split: sum.splits)
  next
    assume h: "h = catalog_search e c cx r"
    obtain res w0 where l: "run_state (list_books e c cx ((parse_list_params r)\<lparr>lp_query := url_query r ''q''\<rparr>)) w = (res, w0)"
      by fastforce
    with run h have "w0 = w'" "out = (case res of Inl err \<Rightarrow> upstream_error | Inr p \<Rightarrow> write_envelope p)"
      by (auto simp: catalog_search_def)
    moreover have "upstream_only ?ask w w0" by (rule weaken [OF upstream_only_list_books [OF l]], rule books)
    ultimately show ?thesis by (auto simp: write_envelope_def split: sum.splits)
  next
    assume h: "h = catalog_external_search e c cx r"
    define kvs where "kvs = body_members (limit_read max_search_body_bytes (in_body r))"
    define n where "n = lenient_field dec_int 0 ''limit'' kvs"
    define lim where "lim = (if n < 0 then 0 else if n > max_catalog_limit then max_catalog_limit else n)"
    have "lim \<le> 100" by (simp add: lim_def max_catalog_limit_def)
    show ?thesis
    proof (cases "lenient_field dec_string [] ''q'' kvs = []")
      case True
      with run h show ?thesis
        by (simp add: catalog_external_search_def Let_def kvs_def [symmetric] upstream_only_def)
    next
      case False
      obtain res w0 where l: "run_state (external_search e c cx (lenient_field dec_string [] ''q'' kvs) lim) w = (res, w0)"
        by fastforce
      have "h = do {
           res \<leftarrow> external_search e c cx (lenient_field dec_string [] ''q'' kvs) lim;
           State_Monad.return (case res of
               Inl err \<Rightarrow> upstream_error
             | Inr hits \<Rightarrow> json_out 200 (go_map [(''items'', JArr (map hit_json hits))]))
         }"
        using False unfolding h catalog_external_search_def Let_def lim_def n_def kvs_def by (simp only: if_False)
      with run l have "w0 = w'" "out = upstream_error \<or> out_status out = 200"
        by (auto split: sum.splits)
      moreover have "upstream_only ?ask w w0"
        by (rule weaken [OF upstream_only_external_search [OF l]], rule ext [OF _ \<open>lim \<le> 100\<close>])
      ultimately show ?thesis by auto
    qed
  qed
  then show ?thesis unfolding upstream_only_def by blast
qed

definition demo_http :: http_in where
  "demo_http = \<lparr>in_method = ''GET'', in_path = ''/api/v1/catalog'', in_query = values_encode [(''limit'', ''999999999''), (''sort'', ''TITLE'')],
     in_uri = ''/api/v1/catalog'', in_headers = [], in_body = []\<rparr>"

theorem catalog_queries_bounded_witness:
  "\<exists>path query. rq_url (w_http (snd (run_state (catalog_list (demo_env refused) demo_client background demo_http) (demo_world []))) ! 0) =
      cl_base demo_client @ path @ ''?'' @ query \<and> bounded_query [] query"
proof -
  obtain out w' where run: "run_state (catalog_list (demo_env refused) demo_client background demo_http) (demo_world []) = (out, w')"
    by fastforce
  have "w_http w' \<noteq> []"
    using run by (auto simp: catalog_list_def list_books_def client_get_def http_do_def read_response_def refused_def)
  moreover have "url_query demo_http ''cursor'' = []"
    unfolding url_query_def demo_http_def http_in.simps by (subst query_get_encode) simp_all
  ultimately obtain q path query where "w_http w' = [q]" "rq_url q = cl_base demo_client @ path @ ''?'' @ query" "bounded_query [] query"
    using catalog_queries_bounded [OF _ run, of "demo_env refused" demo_client background demo_http] by auto
  moreover have "snd (run_state (catalog_list (demo_env refused) demo_client background demo_http) (demo_world [])) = w'"
    by (simp only: run snd_conv)
  ultimately show ?thesis by (intro exI conjI) (simp_all only: nth_Cons_0)
qed

lemma canonical_twice: "k \<in> set file_headers \<Longrightarrow> canonical_header (canonical_header k) = canonical_header k"
  by (auto simp: file_headers_def)

lemma file_header_names:
  "canonical_header ` set file_headers = {''Content-Type'', ''Content-Length'', ''Content-Disposition'', ''Content-Range'',
     ''Etag'', ''Cache-Control'', ''Last-Modified'', ''Accept-Ranges''}"
  by (simp add: file_headers_def)

lemma file_header_keys: "inj_on canonical_header (set file_headers)"
  by (simp add: file_headers_def inj_on_def)

lemma proxy_stream_header:
  assumes "k \<in> set file_headers"
  shows "get_header k (out_headers (proxy_stream rs file_headers)) = get_header k (rs_headers rs)"
proof -
  have key: "canonical_header k = canonical_header a \<longleftrightarrow> k = a" if "a \<in> set file_headers" for a
    using inj_on_eq_iff [OF file_header_keys assms that] .
  have look: "map_of (map (\<lambda>k. (canonical_header k, f k)) (filter P names)) (canonical_header k) =
      (if k \<in> set names \<and> P k then Some (f k) else None)" if "set names \<subseteq> set file_headers" for f :: "string \<Rightarrow> string" and P names
    using that by (induction names) (auto simp: key)
  show ?thesis
    using assms by (simp add: proxy_stream_def proxy_headers_def get_header_def [of k "map _ _"] look)
qed

lemma proxy_stream_headers:
  assumes "(k, v) \<in> set (out_headers (proxy_stream rs file_headers))"
  shows "\<exists>name \<in> set file_headers. k = canonical_header name \<and> v = get_header k (rs_headers rs)"
  using assms
  by (auto simp: proxy_stream_def proxy_headers_def get_header_def canonical_twice split: if_splits)

lemma proxy_stream_simps:
  "out_status (proxy_stream rs names) = (if 100 \<le> rs_status rs \<and> rs_status rs \<le> 999 then rs_status rs else 500)"
  "out_body (proxy_stream rs names) = (if 100 \<le> rs_status rs \<and> rs_status rs \<le> 999 then rs_body rs else [])"
  by (auto simp: proxy_stream_def)

text \<open>C29: files are streamed through. A download asks the upstream once, with GET, for a path in which
  book and format are one escaped segment each, with the client's key and with the caller's range if
  there is one. The caller gets the generic 502 exactly when no answer came or its status is 400 or
  more and not 416. Every other answer is passed on: its status and body (a status below 100, with
  which \<open>WriteHeader\<close> panics, becomes an empty 500), and of its headers the eight of the list, each
  with the upstream's value, and no other.\<close>

theorem file_download_transparent:
  assumes "run_state (catalog_file e c cx md5 r) w = (out, w')"
  shows "\<exists>q s1 s2. rq_method q = ''GET'' \<and>
    rq_url q = cl_base c @ ''/api/v1/books/'' @ s1 @ ''/files/'' @ s2 \<and>
    path_unescape s1 = Some md5 \<and>
    path_unescape s2 = Some (if url_query r ''format'' = [] then ''epub'' else url_query r ''format'') \<and>
    (\<forall>x \<in> set (s1 @ s2). x \<notin> {CHR ''/'', CHR ''?'', CHR ''#''}) \<and>
    get_header ''X-API-Key'' (rq_headers q) = cl_key c \<and>
    get_header ''Range'' (rq_headers q) = get_header ''Range'' (in_headers r) \<and>
    (case e_http e (length (w_http w)) q of
       ReqInvalid m \<Rightarrow> w_http w' = w_http w \<and> out = upstream_error
     | ReqFailed m \<Rightarrow> w_http w' = w_http w @ [q] \<and> out = upstream_error
     | ReqDone rs \<Rightarrow> w_http w' = w_http w @ [q] \<and>
         (if 400 \<le> rs_status rs \<and> rs_status rs \<noteq> 416 then out = upstream_error
          else out_status out = (if 100 \<le> rs_status rs then rs_status rs else 500) \<and>
            out_body out = (if 100 \<le> rs_status rs then rs_body rs else []) \<and>
            (\<forall>k \<in> {''Content-Type'', ''Content-Length'', ''Content-Disposition'', ''Content-Range'', ''ETag'',
                ''Cache-Control'', ''Last-Modified'', ''Accept-Ranges''}.
               get_header k (out_headers out) = get_header k (rs_headers rs)) \<and>
            fst ` set (out_headers out) \<subseteq> {''Content-Type'', ''Content-Length'', ''Content-Disposition'', ''Content-Range'',
                ''Etag'', ''Cache-Control'', ''Last-Modified'', ''Accept-Ranges''}))"
proof -
  define fmt where "fmt = (if url_query r ''format'' = [] then ''epub'' else url_query r ''format'')"
  define rng where "rng = get_header ''Range'' (in_headers r)"
  let ?q = "\<lparr>rq_method = ''GET'', rq_url = cl_base c @ ''/api/v1/books/'' @ path_escape md5 @ ''/files/'' @ path_escape fmt,
              rq_headers = (canonical_header ''X-API-Key'', cl_key c) # (if rng = [] then [] else [(''Range'', rng)]),
              rq_body = [], rq_deadline = cx_deadline cx, rq_timeout = cl_timeout c\<rparr>"
  have run: "run_state (catalog_file e c cx md5 r) w =
    (case e_http e (length (w_http w)) ?q of
       ReqInvalid m \<Rightarrow> (upstream_error, w)
     | ReqFailed m \<Rightarrow> (upstream_error, w\<lparr>w_http := w_http w @ [?q]\<rparr>)
     | ReqDone rs \<Rightarrow> ((if rs_status rs \<ge> 400 \<and> rs_status rs \<noteq> 416 then upstream_error else proxy_stream rs file_headers),
                      w\<lparr>w_http := w_http w @ [?q]\<rparr>))"
    unfolding catalog_file_def Let_def fmt_def [symmetric] rng_def [symmetric] get_stream_with_range_def
    by (simp add: http_do_def split: http_result.splits)
  have passed: "out_status (proxy_stream rs file_headers) = (if 100 \<le> rs_status rs then rs_status rs else 500) \<and>
      out_body (proxy_stream rs file_headers) = (if 100 \<le> rs_status rs then rs_body rs else [])"
    if "\<not> (400 \<le> rs_status rs \<and> rs_status rs \<noteq> 416)" for rs
    using that unfolding proxy_stream_simps by auto
  have listed: "get_header k (out_headers (proxy_stream rs file_headers)) = get_header k (rs_headers rs)"
    if "k \<in> {''Content-Type'', ''Content-Length'', ''Content-Disposition'', ''Content-Range'', ''ETag'',
                ''Cache-Control'', ''Last-Modified'', ''Accept-Ranges''}" for k rs
    by (rule proxy_stream_header) (use that in \<open>simp add: file_headers_def\<close>)
  have only: "fst ` set (out_headers (proxy_stream rs file_headers)) \<subseteq> {''Content-Type'', ''Content-Length'',
      ''Content-Disposition'', ''Content-Range'', ''Etag'', ''Cache-Control'', ''Last-Modified'', ''Accept-Ranges''}" for rs
    unfolding file_header_names [symmetric] by (auto dest: proxy_stream_headers)
  show ?thesis
  proof (rule exI [of _ ?q], rule exI [of _ "path_escape md5"], rule exI [of _ "path_escape fmt"], intro conjI)
    show "\<forall>x \<in> set (path_escape md5 @ path_escape fmt). x \<notin> {CHR ''/'', CHR ''?'', CHR ''#''}"
      using set_path_escape path_separators_not_plain by fastforce
    show "path_unescape (path_escape fmt) = Some (if url_query r ''format'' = [] then ''epub'' else url_query r ''format'')"
      unfolding path_unescape_escape fmt_def ..
    have "get_header ''Range'' (rq_headers ?q) = rng" by (simp add: get_header_def)
    then show "get_header ''Range'' (rq_headers ?q) = get_header ''Range'' (in_headers r)" by (rule trans) (rule rng_def)
    show "case e_http e (length (w_http w)) ?q of
       ReqInvalid m \<Rightarrow> w_http w' = w_http w \<and> out = upstream_error
     | ReqFailed m \<Rightarrow> w_http w' = w_http w @ [?q] \<and> out = upstream_error
     | ReqDone rs \<Rightarrow> w_http w' = w_http w @ [?q] \<and>
         (if 400 \<le> rs_status rs \<and> rs_status rs \<noteq> 416 then out = upstream_error
          else out_status out = (if 100 \<le> rs_status rs then rs_status rs else 500) \<and>
            out_body out = (if 100 \<le> rs_status rs then rs_body rs else []) \<and>
            (\<forall>k \<in> {''Content-Type'', ''Content-Length'', ''Content-Disposition'', ''Content-Range'', ''ETag'',
                ''Cache-Control'', ''Last-Modified'', ''Accept-Ranges''}.
               get_header k (out_headers out) = get_header k (rs_headers rs)) \<and>
            fst ` set (out_headers out) \<subseteq> {''Content-Type'', ''Content-Length'', ''Content-Disposition'', ''Content-Range'',
                ''Etag'', ''Cache-Control'', ''Last-Modified'', ''Accept-Ranges''})"
    proof (cases "e_http e (length (w_http w)) ?q")
      case (ReqDone rs)
      show ?thesis
      proof (cases "400 \<le> rs_status rs \<and> rs_status rs \<noteq> 416")
        case True
        with run assms ReqDone show ?thesis by simp
      next
        case False
        from run assms ReqDone False have res: "out = proxy_stream rs file_headers" "w_http w' = w_http w @ [?q]" by auto
        show ?thesis
          unfolding ReqDone http_result.case if_not_P [OF False] res(1)
          by (intro conjI ballI passed [OF False, THEN conjunct1] passed [OF False, THEN conjunct2] res(2) only) (rule listed)
      qed
    qed (use run assms in simp_all)
  qed (simp_all add: get_header_def path_unescape_escape)
qed

definition partial_file :: "nat \<Rightarrow> http_request \<Rightarrow> http_result" where
  "partial_file k q = ReqDone \<lparr>rs_status = 206,
     rs_headers = [(''Content-Range'', ''bytes 0-3/10''), (''Set-Cookie'', ''session=1'')], rs_body = ''PK34'', rs_read_error = None\<rparr>"

theorem file_download_transparent_witness:
  "\<exists>out w'. run_state (catalog_file (demo_env partial_file) demo_client background ''a/b'' (demo_http\<lparr>in_headers := [(''Range'', ''bytes=0-3'')]\<rparr>))
       (demo_world []) = (out, w') \<and>
     out_status out = 206 \<and> out_body out = ''PK34'' \<and> get_header ''Content-Range'' (out_headers out) = ''bytes 0-3/10'' \<and>
     ''Set-Cookie'' \<notin> fst ` set (out_headers out)"
proof -
  let ?r = "demo_http\<lparr>in_headers := [(''Range'', ''bytes=0-3'')]\<rparr>"
  obtain out w' where run: "run_state (catalog_file (demo_env partial_file) demo_client background ''a/b'' ?r) (demo_world []) = (out, w')"
    by fastforce
  have "get_header ''Content-Range'' [(''Content-Range'', ''bytes 0-3/10''), (''Set-Cookie'', ''session=1'')] = ''bytes 0-3/10''"
    by code_simp
  with file_download_transparent [OF run] run show ?thesis by (auto simp: partial_file_def)
qed

end
