(* ===== verification/Admin_Server.thy ===== *)
theory Admin_Server
  imports App_Config Catalog
begin

text \<open>
  The handlers of the plugin's HTTP server: \<open>internal/server/server.go\<close>, \<open>capabilities.go\<close> and
  \<open>health.go\<close>. The style sheet and the body of the admin page are the parameter \<open>page\<close>. The routes are in \<open>Admin_Routes\<close>.
\<close>

section \<open>Times and texts of the standard library\<close>

text \<open>
  \<open>t.UTC().Format(time.RFC3339)\<close>: the civil date of a day number, counted in cycles of 400
  years that start in March.
\<close>

definition civil :: "int \<Rightarrow> int \<times> int \<times> int" where
  "civil day =
     (let z = day + 306; era = z div 146097; doe = z mod 146097;
          yoe = (doe - doe div 1460 + doe div 36524 - doe div 146096) div 365;
          doy = doe - (365 * yoe + yoe div 4 - yoe div 100);
          mp = (5 * doy + 2) div 153;
          m = (if mp < 10 then mp + 3 else mp - 9)
      in (yoe + 400 * era + (if m \<le> 2 then 1 else 0), m, doy - (153 * mp + 2) div 5 + 1))"

definition pad :: "nat \<Rightarrow> int \<Rightarrow> string" where
  "pad n v = (let ds = digits10 \<bar>v\<bar> in (if v < 0 then ''-'' else []) @ replicate (n - length ds) (CHR ''0'') @ ds)"

definition rfc3339 :: "gotime \<Rightarrow> string" where
  "rfc3339 t =
     (let s = t div second; (y, m, d) = civil (s div 86400); r = s mod 86400
      in pad 4 y @ ''-'' @ pad 2 m @ ''-'' @ pad 2 d @ ''T'' @ pad 2 (r div 3600) @ '':'' @ pad 2 (r div 60 mod 60) @
         '':'' @ pad 2 (r mod 60) @ ''Z'')"

definition year_of :: "gotime \<Rightarrow> int" where
  "year_of t = fst (civil (t div second div 86400))"

text \<open>Integer division of Go, towards zero.\<close>

definition quot :: "int \<Rightarrow> int \<Rightarrow> int" where
  "quot a b = sgn a * sgn b * (\<bar>a\<bar> div \<bar>b\<bar>)"

text \<open>\<open>html.EscapeString\<close>.\<close>

definition html_char :: "char \<Rightarrow> string" where
  "html_char c =
     (if c = CHR ''&'' then ''&amp;'' else if c = CHR 0x27 then ''&#39;'' else if c = CHR ''<'' then ''&lt;''
      else if c = CHR ''>'' then ''&gt;'' else if c = CHR 0x22 then ''&#34;'' else [c])"

definition html_escape :: "string \<Rightarrow> string" where
  "html_escape s = concat (map html_char s)"

section \<open>The server\<close>

definition stuck_threshold :: duration where "stuck_threshold = 24 * hour"

record server_deps =
  sd_client :: "client option"
  sd_store :: bool
  sd_reconciler :: "reconciler_deps option"
  sd_config :: config

definition write_json :: "int \<Rightarrow> json \<Rightarrow> http_out" where
  "write_json st j = json_out st j"

definition error_json :: "string \<Rightarrow> json" where
  "error_json m = go_map [(''error'', JStr m)]"

definition no_store :: http_out where
  "no_store = write_json 503 (error_json ''store not configured'')"

definition internal_error :: "goerr \<Rightarrow> http_out" where
  "internal_error err = write_json 500 (error_json (err_text err))"

definition ok_json :: json where "ok_json = go_map [(''ok'', JBool True)]"

definition json_int :: "int \<Rightarrow> json" where "json_int n = JNum (itoa n)"

definition atoi_or :: "string \<Rightarrow> int \<Rightarrow> int" where
  "atoi_or s def =
     (if s = [] then def
      else case atoi s of None \<Rightarrow> def | Some n \<Rightarrow> if n < 0 then def else n)"

section \<open>Health and capabilities\<close>

definition handle_health :: http_out where
  "handle_health = json_out 200 (go_map [(''ok'', JBool True)])"

definition handle_capabilities :: http_out where
  "handle_capabilities = json_out 200 (JObj
     [(''formats'', JArr (map JStr [''epub'', ''pdf'', ''mobi'', ''azw3'', ''azw'', ''djvu'', ''fb2'', ''cbz'', ''cbr''])),
      (''features'', JArr (map JStr [''download_provider'', ''external_search'', ''request_snapshot'',
         ''admin_diagnostics'', ''provider_test_search'', ''supports_comics''])),
      (''max_concurrent_downloads'', json_int 2),
      (''supports_range_requests'', JBool False)])"

section \<open>The request queue\<close>

record request_row =
  rr_request_id :: string
  rr_external_id :: string
  rr_status :: string
  rr_error_text :: string
  rr_last_polled :: string
  rr_created :: string
  rr_updated :: string
  rr_stuck :: string

definition to_request_row :: "forwarded_request \<Rightarrow> request_row" where
  "to_request_row r =
     \<lparr>rr_request_id = request_id r, rr_external_id = external_id r, rr_status = status r, rr_error_text = error_text r,
      rr_last_polled = (if last_polled r \<noteq> 0 \<and> year_of (last_polled r) > 1 then rfc3339 (last_polled r) else []),
      rr_created = rfc3339 (created_at r), rr_updated = rfc3339 (updated_at r), rr_stuck = []\<rparr>"

definition row_json :: "request_row \<Rightarrow> json" where
  "row_json r =
     JObj ([(''requestId'', JStr (rr_request_id r))] @
       omit_if (rr_external_id r = []) ''externalId'' (JStr (rr_external_id r)) @
       [(''status'', JStr (rr_status r))] @
       omit_if (rr_error_text r = []) ''errorText'' (JStr (rr_error_text r)) @
       omit_if (rr_last_polled r = []) ''lastPolledAt'' (JStr (rr_last_polled r)) @
       [(''createdAt'', JStr (rr_created r)), (''updatedAt'', JStr (rr_updated r))] @
       omit_if (rr_stuck r = []) ''stuckDuration'' (JStr (rr_stuck r)))"

definition page_of :: "http_in \<Rightarrow> int" where
  "page_of r = (let p = atoi_or (url_query r ''page'') 1 in if p < 1 then 1 else p)"

definition limit_of :: "http_in \<Rightarrow> int" where
  "limit_of r = atoi_or (url_query r ''limit'') 50"

text \<open>\<open>offset := (page - 1) * limit\<close>, in 64 bits.\<close>

definition offset_of :: "http_in \<Rightarrow> int" where
  "offset_of r = i64 (i64 (page_of r - 1) * limit_of r)"

definition handle_list_requests :: "env \<Rightarrow> server_deps \<Rightarrow> http_in \<Rightarrow> ('z, http_out) io" where
  "handle_list_requests e d r =
     (if \<not> sd_store d then State_Monad.return no_store
      else do {
        res \<leftarrow> list_requests e (url_query r ''status'') (url_query r ''q'') (limit_of r) (offset_of r);
        State_Monad.return (case res of
            Inl err \<Rightarrow> internal_error err
          | Inr (rows, n) \<Rightarrow> write_json 200 (go_map
              [(''rows'', JArr (map (\<lambda>x. row_json (to_request_row x)) rows)), (''total'', json_int (int n)),
               (''limit'', json_int (limit_of r)), (''page'', json_int (page_of r))]))
      })"

text \<open>\<open>now.Sub(ref).Round(time.Minute).String()\<close>.\<close>

definition stuck_for :: "gotime \<Rightarrow> forwarded_request \<Rightarrow> string" where
  "stuck_for t r =
     (let ref = (if last_polled r = 0 \<or> year_of (last_polled r) \<le> 1 then created_at r else last_polled r)
      in duration_string (saturate (round_to (saturate (t - ref)) minute)))"

definition handle_list_stuck_requests :: "env \<Rightarrow> server_deps \<Rightarrow> ('z, http_out) io" where
  "handle_list_stuck_requests e d =
     (if \<not> sd_store d then State_Monad.return no_store
      else do {
        res \<leftarrow> list_stuck e stuck_threshold 50;
        (case res of
           Inl err \<Rightarrow> State_Monad.return (internal_error err)
         | Inr rows \<Rightarrow> do {
             t \<leftarrow> now e;
             State_Monad.return (write_json 200 (go_map
               [(''rows'', JArr (map (\<lambda>x. row_json ((to_request_row x)\<lparr>rr_stuck := stuck_for t x\<rparr>)) rows)),
                (''thresholdHours'', json_int (quot stuck_threshold hour)), (''reconcilerCadence'', JStr ''1m'')]))
           })
      })"

definition handle_retry_request :: "env \<Rightarrow> server_deps \<Rightarrow> string \<Rightarrow> ('z, http_out) io" where
  "handle_retry_request e d i =
     (if \<not> sd_store d then State_Monad.return no_store
      else do {
        res \<leftarrow> retry_request e i;
        State_Monad.return (case res of
            Inl err \<Rightarrow>
              if is_not_found err then write_json 404 (error_json ''request not found or has no upstream id'')
              else internal_error err
          | Inr _ \<Rightarrow> write_json 200 ok_json)
      })"

definition handle_mark_failed_request :: "env \<Rightarrow> server_deps \<Rightarrow> string \<Rightarrow> http_in \<Rightarrow> ('z, http_out) io" where
  "handle_mark_failed_request e d i r =
     (if \<not> sd_store d then State_Monad.return no_store
      else do {
        res \<leftarrow> mark_failed_manually e i (lenient_field dec_string [] ''reason'' (body_members (in_body r)));
        State_Monad.return (case res of
            Inl err \<Rightarrow>
              if is_not_found err then write_json 404 (error_json ''request not found'')
              else internal_error err
          | Inr _ \<Rightarrow> write_json 200 ok_json)
      })"

section \<open>The reconciler\<close>

definition handle_reconciler_status :: "env \<Rightarrow> server_deps \<Rightarrow> ('z, http_out) rio" where
  "handle_reconciler_status e d =
     (if sd_reconciler d = None then
        State_Monad.return (write_json 200 (go_map [(''available'', JBool False), (''reason'', JStr ''plugin not configured'')]))
      else do {
        st \<leftarrow> last_status;
        run \<leftarrow> (if ts_last_run st = 0 then State_Monad.return [] else do {
           u \<leftarrow> since e (ts_last_run st);
           State_Monad.return [(''lastRunAt'', JStr (rfc3339 (ts_last_run st))),
             (''lastDurationMs'', json_int (quot (ts_duration st) 1000000)),
             (''secondsSinceRun'', json_int (quot u second))]
         });
        stuck \<leftarrow> (if \<not> sd_store d then State_Monad.return [] else do {
           res \<leftarrow> list_stuck e stuck_threshold 200;
           State_Monad.return (case res of Inl _ \<Rightarrow> [] | Inr rows \<Rightarrow> [(''stuckCount'', json_int (int (length rows)))])
         });
        State_Monad.return (write_json 200 (go_map
          ([(''available'', JBool True), (''rowsProcessed'', json_int (ts_rows st)), (''skipped'', JBool (ts_skipped st))] @
           run @ omit_if (ts_error st = []) ''lastError'' (JStr (ts_error st)) @ stuck)))
      })"

definition handle_reconciler_run :: "env \<Rightarrow> server_deps \<Rightarrow> ('z, http_out) rio" where
  "handle_reconciler_run e d =
     (case sd_reconciler d of
        None \<Rightarrow> State_Monad.return (write_json 503 (error_json ''reconciler not configured''))
      | Some rc \<Rightarrow> do {
          cx \<leftarrow> with_timeout e background (60 * second);
          err \<leftarrow> tick e rc cx;
          State_Monad.return (case err of
              Some x \<Rightarrow> write_json 200 (go_map [(''ok'', JBool False), (''error'', JStr (err_text x))])
            | None \<Rightarrow> write_json 200 ok_json)
        })"

section \<open>The configuration\<close>

definition handle_get_config :: "env \<Rightarrow> server_deps \<Rightarrow> ('z, http_out) aio" where
  "handle_get_config e d =
     (if \<not> sd_store d then State_Monad.return no_store
      else do {
        res \<leftarrow> get_app_config e;
        State_Monad.return (case res of
            Inl err \<Rightarrow> internal_error err
          | Inr cfg \<Rightarrow> write_json 200 (config_json (cfg\<lparr>cf_api_key := []\<rparr>)))
      })"

definition handle_update_config :: "env \<Rightarrow> server_deps \<Rightarrow> http_in \<Rightarrow> ('z, http_out) aio" where
  "handle_update_config e d r =
     (if \<not> sd_store d then State_Monad.return no_store
      else do {
        res \<leftarrow> get_app_config e;
        (case res of
           Inl err \<Rightarrow> State_Monad.return (internal_error err)
         | Inr cur \<Rightarrow>
             (case Option.bind (json_decode_first (in_body r)) (decode_config zero_config) of
                None \<Rightarrow> State_Monad.return (write_json 400 (error_json ''invalid JSON body''))
              | Some body \<Rightarrow>
                  (let next = (if cf_api_key body = [] then body\<lparr>cf_api_key := cf_api_key cur\<rparr> else body)
                   in do {
                     err \<leftarrow> update_app_config e next;
                     State_Monad.return (case err of
                         Some x \<Rightarrow> write_json 400 (error_json (err_text x))
                       | None \<Rightarrow> write_json 200 ok_json)
                   })))
      })"

section \<open>The admin page, diagnostics and the test search\<close>

definition admin_theme :: "http_in \<Rightarrow> string" where
  "admin_theme r =
     (let h = get_header ''X-Silo-Theme'' (in_headers r);
          t = (if h = [] then url_query r ''theme'' else h)
      in html_escape (if t = [] then ''default'' else t))"

text \<open>The literals of the page: up to the value of \<open>data-theme\<close>, and up to the style sheet. The style
  sheet of \<open>adminThemeCSS\<close> and the rest (the body and the script) are a parameter.\<close>

definition page_open :: string where
  "page_open = ''<!doctype html>'' @ newline @ ''<html lang=\"en\" data-theme=\"''"

definition page_head :: string where
  "page_head = ''\">'' @ newline @
     ''<head><meta charset=\"utf-8\"><meta name=\"viewport\" content=\"width=device-width,initial-scale=1\">'' @
     ''<title>Ebook Requests</title><style>''"

record admin_page =
  hp_css :: string
  hp_tail :: string

definition handle_admin_home :: "admin_page \<Rightarrow> http_in \<Rightarrow> http_out" where
  "handle_admin_home page r =
     \<lparr>out_status = 200, out_headers = [(''Content-Type'', ''text/html; charset=utf-8'')],
      out_body = page_open @ admin_theme r @ page_head @ hp_css page @ hp_tail page\<rparr>"

definition stats_json :: "request_stats \<Rightarrow> json" where
  "stats_json s = JObj
     [(''total'', json_int (int (total s))), (''active'', json_int (int (active s))), (''failed'', json_int (int (failed s))),
      (''imported'', json_int (int (imported s))), (''with_errors'', json_int (int (with_errors s))),
      (''unsubmitted'', json_int (int (unsubmitted s)))]"

text \<open>\<open>Pool().Ping\<close>.\<close>

definition ping_pool :: "env \<Rightarrow> ('z, string option) io" where
  "ping_pool e = State (\<lambda>w. (e_ping e (length (w_db w)), w))"

definition handle_diagnostics :: "env \<Rightarrow> server_deps \<Rightarrow> ctx \<Rightarrow> ('z, http_out) io" where
  "handle_diagnostics e d cx0 = do {
     cx \<leftarrow> with_timeout e cx0 (5 * second);
     up \<leftarrow> (case sd_client d of
        None \<Rightarrow> State_Monad.return (False, ''not configured'')
      | Some c \<Rightarrow> do {
          err \<leftarrow> ping e c cx;
          State_Monad.return (case err of Some x \<Rightarrow> (False, err_text x) | None \<Rightarrow> (True, ''upstream reachable''))
        });
     (db, stats) \<leftarrow> (if \<not> sd_store d then State_Monad.return ((False, ''not configured''), JObj [])
       else do {
         p \<leftarrow> ping_pool e;
         res \<leftarrow> request_stats_of e;
         State_Monad.return ((case p of Some m \<Rightarrow> (False, m) | None \<Rightarrow> (True, ''database reachable'')),
            (case res of Inl _ \<Rightarrow> JObj [] | Inr s \<Rightarrow> stats_json s))
       });
     State_Monad.return (write_json 200 (go_map
       [(''plugin_id'', JStr ''silo.ebook-requests''), (''role'', JStr ''download_provider''),
        (''configured'', JBool (provider_configured (sd_config d))), (''base_url'', JStr (cf_base_url (sd_config d))),
        (''features'', JArr (map JStr [''external_search'', ''request_snapshot'', ''admin_diagnostics'', ''provider_test_search''])),
        (''upstream'', go_map [(''ok'', JBool (fst up)), (''message'', JStr (snd up))]),
        (''database'', go_map [(''ok'', JBool (fst db)), (''message'', JStr (snd db))]),
        (''requests'', stats)]))
   }"

definition handle_test_search :: "env \<Rightarrow> server_deps \<Rightarrow> ctx \<Rightarrow> http_in \<Rightarrow> ('z, http_out) io" where
  "handle_test_search e d cx0 r =
     (case sd_client d of
        None \<Rightarrow> State_Monad.return (write_json 200 (go_map
          [(''ok'', JBool False), (''message'', JStr ''not configured''), (''items'', JArr [])]))
      | Some c \<Rightarrow>
          (let query = (if url_query r ''q'' = [] then ''foundation'' else url_query r ''q'')
           in do {
             cx \<leftarrow> with_timeout e cx0 (8 * second);
             res \<leftarrow> external_search e c cx query 5;
             State_Monad.return (case res of
                 Inl err \<Rightarrow> write_json 200 (go_map
                   [(''ok'', JBool False), (''message'', JStr (err_text err)), (''items'', JArr [])])
               | Inr hits \<Rightarrow> write_json 200 (go_map
                   [(''ok'', JBool True), (''message'', JStr ''search completed''), (''items'', JArr (map hit_json hits))]))
           }))"

section \<open>Properties\<close>


lemma get_app_config_pure:
  "config_quiet e \<Longrightarrow> aw_config w = Some j \<Longrightarrow>
   snd (run_state (get_app_config e) w) = w\<lparr>aw_config_calls := Suc (aw_config_calls w)\<rparr>"
  using get_app_config_quiet by fastforce

lemma config_keys: "kv \<in> set kvs \<Longrightarrow> JObj kvs = config_json c \<Longrightarrow> fst kv = ''api_key'' \<Longrightarrow> cf_api_key c \<noteq> []"
  by (auto simp: config_json_def omit_if_def split: if_splits)

text \<open>C10: the admin configuration. A \<open>PATCH\<close> is answered with 400 and changes nothing that is read, or with
  200 and stores exactly what its body decodes to: with the old API key when the body has none,
  without a database URL, and with the defaults for an empty cover size and priority list; what the
  body leaves out is reset, not kept. The row reads back as that configuration, \<open>GET\<close> answers with it
  less the key, and the answer of \<open>GET\<close> is the same whatever the key is.\<close>

theorem config_patch_then_get:
  assumes quiet: "config_quiet e" and "sd_store d" and row: "aw_config w = Some (config_json cur)"
    and cur: "cf_database_url cur = []" "normalize cur = cur"
    and run: "run_state (handle_update_config e d r) w = (out, w')"
  shows "(out_status out = 400 \<and> aw_config w' = aw_config w \<and> fst (run_state (get_app_config e) w') = Inr cur) \<or>
    (out_status out = 200 \<and>
     (\<exists>body new. Option.bind (json_decode_first (in_body r)) (decode_config zero_config) = Some body \<and>
       new = normalize (body\<lparr>cf_database_url := [], cf_api_key := (if cf_api_key body = [] then cf_api_key cur else cf_api_key body)\<rparr>) \<and>
       aw_config w' = Some (config_json new) \<and>
       fst (run_state (get_app_config e) w') = Inr new \<and>
       fst (run_state (handle_get_config e d) w') = json_out 200 (config_json (new\<lparr>cf_api_key := []\<rparr>)) \<and>
       (\<forall>key. fst (run_state (handle_get_config e d) (w'\<lparr>aw_config := Some (config_json (new\<lparr>cf_api_key := key\<rparr>))\<rparr>)) =
          fst (run_state (handle_get_config e d) w'))))"
proof -
  let ?w = "w\<lparr>aw_config_calls := Suc (aw_config_calls w)\<rparr>"
  have holds: "row_holds w cur" "row_holds ?w cur" using row written_same [OF cur] by (simp_all add: row_holds_def)
  note get = row_holds_reads [OF quiet holds(1)]
  show ?thesis
  proof (cases "Option.bind (json_decode_first (in_body r)) (decode_config zero_config)")
    case None
    with run assms(2) get have "out_status out = 400" "w' = ?w"
      by (auto simp: handle_update_config_def write_json_def)
    with row_holds_reads [OF quiet holds(2)] show ?thesis by simp
  next
    case (Some body)
    define next0 where "next0 = (if cf_api_key body = [] then body\<lparr>cf_api_key := cf_api_key cur\<rparr> else body)"
    obtain err w1 where upd: "run_state (update_app_config e next0) ?w = (err, w1)" by fastforce
    have out: "w' = w1" "out_status out = (if err = None then 200 else 400)"
      using run assms(2) get Some upd
      by (auto simp: handle_update_config_def Let_def next0_def [symmetric] write_json_def split: option.splits)
    show ?thesis
    proof (cases err)
      case (Some x)
      with config_rows.refused_holds [OF quiet _ holds(2)] upd out have "row_holds w' cur" by simp
      with row_holds_reads [OF quiet this] row out \<open>err = Some x\<close> show ?thesis by (simp add: row_holds_def)
    next
      case None
      have stored: "row_holds w' (written next0)"
        using config_rows.update_holds [OF quiet] upd out None by simp
      have answer: "fst (run_state (handle_get_config e d) v) = json_out 200 (config_json (c\<lparr>cf_api_key := []\<rparr>))"
        if "row_holds v c" for v c
        using row_holds_reads [OF quiet that] assms(2) by (simp add: handle_get_config_def write_json_def)
      have "row_holds (w'\<lparr>aw_config := Some (config_json ((written next0)\<lparr>cf_api_key := key\<rparr>))\<rparr>) ((written next0)\<lparr>cf_api_key := key\<rparr>)" for key
        by (simp add: row_holds_def written_key)
      note keyed = answer [OF this]
      have "written next0 = normalize (body\<lparr>cf_database_url := [], cf_api_key := (if cf_api_key body = [] then cf_api_key cur else cf_api_key body)\<rparr>)"
        by (simp add: next0_def written_def normalize_def)
      moreover have "aw_config w' = Some (config_json (written next0))" using stored by (simp add: row_holds_def)
      ultimately show ?thesis
        using out None \<open>_ = Some body\<close> row_holds_reads [OF quiet stored] answer [OF stored] keyed
        by (intro disjI2 conjI exI [of _ body] exI [of _ "written next0"]) simp_all
    qed
  qed
qed

definition demo_config :: config where
  "demo_config = default_app_config\<lparr>cf_base_url := ''https://books'', cf_api_key := ''s3cret''\<rparr>"

definition demo_app :: "table \<Rightarrow> app_world" where
  "demo_app t = rworld.extend (new_reconciler (demo_world t))
     \<lparr>aw_config = Some (config_json demo_config), aw_config_calls = 0, aw_runtime = zero_config\<rparr>"

definition demo_server :: server_deps where
  "demo_server = \<lparr>sd_client = None, sd_store = True, sd_reconciler = None, sd_config = zero_config\<rparr>"

lemma config_quiet_demo [simp]: "config_quiet (demo_env up)"
  by (simp add: config_quiet_def)

text \<open>A body that only sets the cover size.\<close>

definition demo_patch :: json where
  "demo_patch = JObj [(''default_cover_size'', JStr ''small'')]"

lemma demo_patch_decodes: "decode_config zero_config demo_patch = Some (zero_config\<lparr>cf_cover_size := ''small''\<rparr>)"
  by (simp add: demo_patch_def decode_config_def struct_members_def read_field_def members_simps config_names
      dec_string_def zero_config_def)

theorem config_patch_then_get_witness:
  "\<exists>out w'. run_state (handle_update_config (demo_env refused) demo_server (demo_http\<lparr>in_body := json_encode demo_patch\<rparr>)) (demo_app []) = (out, w') \<and>
     aw_config w' = Some (config_json (demo_config\<lparr>cf_base_url := [], cf_cover_size := ''small''\<rparr>))"
proof -
  let ?r = "demo_http\<lparr>in_body := json_encode demo_patch\<rparr>" and ?b = "zero_config\<lparr>cf_cover_size := ''small''\<rparr>"
  have "int_json demo_patch" by (simp add: demo_patch_def)
  from decode_encoded_document [OF this]
  have body: "Option.bind (json_decode_first (in_body ?r)) (decode_config zero_config) = Some ?b"
    using demo_patch_decodes by simp
  have cur: "cf_database_url demo_config = []" "normalize demo_config = demo_config"
    "aw_config (demo_app []) = Some (config_json demo_config)"
    by (simp_all add: demo_config_def default_app_config_def zero_config_def normalize_def demo_app_def rworld.extend_def)
  obtain out w' where run: "run_state (handle_update_config (demo_env refused) demo_server ?r) (demo_app []) = (out, w')" by fastforce
  have get: "run_state (get_app_config (demo_env refused)) (demo_app []) =
      (Inr demo_config, (demo_app [])\<lparr>aw_config_calls := Suc (aw_config_calls (demo_app []))\<rparr>)"
    by (rule stored_config_reads [OF config_quiet_demo cur(3) cur(1,2)])
  have "\<not> has_nul (config_json (normalize (?b\<lparr>cf_api_key := cf_api_key demo_config, cf_database_url := []\<rparr>)))"
    by (subst has_nul_config) (simp_all add: config_strings_def demo_config_def default_app_config_def zero_config_def normalize_def)
  then have "out_status out = 200"
    using run body get
    by (auto simp: handle_update_config_def demo_server_def Let_def update_app_config_def run_simps jsonb_in_config
        write_json_def zero_config_def)
  moreover have "sd_store demo_server" by (simp add: demo_server_def)
  ultimately obtain new where
    "new = normalize (?b\<lparr>cf_database_url := [], cf_api_key := (if cf_api_key ?b = [] then cf_api_key demo_config else cf_api_key ?b)\<rparr>)"
    "aw_config w' = Some (config_json new)"
    using config_patch_then_get [OF config_quiet_demo _ cur(3,1,2) run] body by fastforce
  then show ?thesis
    by (simp add: run demo_config_def default_app_config_def zero_config_def normalize_def)
qed

text \<open>C30: pages of the admin queue. With a limit between 1 and 200 page \<open>p\<close> of the answer holds the
  rows \<open>(p - 1) * limit\<close> up to \<open>p * limit\<close> of the matching ones, newest first, and reports limit,
  page and total. With a larger limit, or 0, a page holds at most 50 rows but the next one still
  starts \<open>limit\<close> rows later: every row whose position leaves a remainder of 50 or more modulo the
  limit is on no page, and with 0 every page is the first one.\<close>

theorem admin_queue_pages:
  assumes "quiet e" and "sd_store d" and L: "url_query r ''limit'' = itoa limit" "0 \<le> limit" "limit < 2 ^ 63"
    and p: "url_query r ''page'' = itoa page" "1 \<le> page" "page < 2 ^ 63" and range: "(page - 1) * limit < 2 ^ 63"
  shows "fst (run_state (handle_list_requests e d r) w) = json_out 200 (go_map
      [(''rows'', JArr (map (\<lambda>x. row_json (to_request_row (scan_row (e_null_time e) x)))
          (take (if 1 \<le> limit \<and> limit \<le> 200 then nat limit else 50)
             (drop (nat ((page - 1) * limit)) (newest_first (e_fold e) (url_query r ''status'') (url_query r ''q'') (w_table w)))))),
       (''total'', json_int (int (length (newest_first (e_fold e) (url_query r ''status'') (url_query r ''q'') (w_table w))))),
       (''limit'', json_int limit), (''page'', json_int page)])"
proof -
  have atoi: "atoi_or (itoa n) def = n" if "0 \<le> n" "n < 2 ^ 63" for n def
    using that atoi_itoa [of n] itoa_head [of n] by (auto simp: atoi_or_def)
  have pos: "0 \<le> (page - 1) * limit" using p(2) L(2) by (intro mult_nonneg_nonneg) simp_all
  have "page_of r = page" "limit_of r = limit"
    using atoi L p by (simp_all add: page_of_def limit_of_def)
  moreover have "i64 (page - 1) = page - 1" using p by (intro i64_id) simp_all
  moreover have "i64 ((page - 1) * limit) = (page - 1) * limit"
    using range pos by (intro i64_id) linarith+
  ultimately have args: "page_of r = page" "limit_of r = limit" "offset_of r = (page - 1) * limit"
    by (simp_all add: offset_of_def)
  obtain res w' where run: "run_state (list_requests e (url_query r ''status'') (url_query r ''q'') limit ((page - 1) * limit)) w = (res, w')"
    by fastforce
  have "res = Inr (map (scan_row (e_null_time e))
      (take (if 1 \<le> limit \<and> limit \<le> 200 then nat limit else 50)
         (drop (nat ((page - 1) * limit)) (newest_first (e_fold e) (url_query r ''status'') (url_query r ''q'') (w_table w)))),
      length (newest_first (e_fold e) (url_query r ''status'') (url_query r ''q'') (w_table w)))"
    using list_requests_quiet [OF assms(1), of "url_query r ''status''" "url_query r ''q''" limit "(page - 1) * limit" w] run L(2) pos
    by (auto simp: select_page_def clamp_limit_def max_def length_newest_first)
  then show ?thesis
    using run assms(2) by (simp add: handle_list_requests_def args write_json_def o_def)
qed

theorem admin_queue_pages_witness:
  "\<exists>r. fst (run_state (handle_list_requests (demo_env refused) demo_server r) (demo_world [demo_row])) = json_out 200 (go_map
      [(''rows'', JArr []), (''total'', json_int 1), (''limit'', json_int 500), (''page'', json_int 2)])"
proof -
  let ?r = "demo_http\<lparr>in_query := values_encode [(''limit'', itoa 500), (''page'', itoa 2)]\<rparr>"
  have q: "url_query ?r ''limit'' = itoa 500" "url_query ?r ''page'' = itoa 2" "url_query ?r ''status'' = []" "url_query ?r ''q'' = []"
    unfolding url_query_def demo_http_def http_in.simps by (subst query_get_encode; simp)+
  have "newest_first (e_fold (demo_env refused)) [] [] [demo_row] = [demo_row]"
    by (simp add: newest_first_def matches_def)
  with admin_queue_pages [OF quiet_demo _ q(1) _ _ q(2), of demo_server refused "demo_world [demo_row]"] q
  show ?thesis by (intro exI [of _ ?r]) (simp add: demo_server_def)
qed


end
