(* ===== verification/Admin_Routes.thy ===== *)
theory Admin_Routes
  imports Admin_Server
begin

text \<open>
  The routes of the plugin's HTTP server (\<open>Handler\<close> in \<open>internal/server/server.go\<close> and \<open>Mount\<close> in
  \<open>internal/catalog/handler.go\<close>), and the form of what the routes answer.
\<close>

section \<open>Routing\<close>

text \<open>The handlers, with the path parameters they read.\<close>

datatype route =
    AdminHome | Health | Capabilities | Diagnostics | GetConfig | UpdateConfig | TestSearch
  | ListRequests | ListStuck | RetryRoute string | MarkFailedRoute string
  | ReconcilerStatus | ReconcilerRun
  | CatList | CatSearch | CatDetail string | CatCover string string | CatFile string
  | CatExternalSearch | CatSnapshot string

text \<open>The handlers of the catalog need a client.\<close>

definition catalog_route :: "env \<Rightarrow> client \<Rightarrow> ctx \<Rightarrow> route \<Rightarrow> http_in \<Rightarrow> ('z, http_out) io option" where
  "catalog_route e c cx rt r =
     (case rt of
        CatList \<Rightarrow> Some (catalog_list e c cx r)
      | CatSearch \<Rightarrow> Some (catalog_search e c cx r)
      | CatDetail i \<Rightarrow> Some (catalog_detail e c cx i)
      | CatCover b s \<Rightarrow> Some (catalog_cover e c cx b s)
      | CatFile b \<Rightarrow> Some (catalog_file e c cx b r)
      | CatExternalSearch \<Rightarrow> Some (catalog_external_search e c cx r)
      | CatSnapshot i \<Rightarrow> Some (request_snapshot e c cx i)
      | _ \<Rightarrow> None)"

definition not_found_page :: http_out where
  "not_found_page = http_error ''404 page not found'' 404"

definition serve_route ::
  "env \<Rightarrow> admin_page \<Rightarrow> server_deps \<Rightarrow> ctx \<Rightarrow> route \<Rightarrow> http_in \<Rightarrow> ('z, http_out) aio" where
  "serve_route e page d cx rt r =
     (case rt of
        AdminHome \<Rightarrow> State_Monad.return (handle_admin_home page r)
      | Health \<Rightarrow> State_Monad.return handle_health
      | Capabilities \<Rightarrow> State_Monad.return handle_capabilities
      | Diagnostics \<Rightarrow> handle_diagnostics e d cx
      | GetConfig \<Rightarrow> handle_get_config e d
      | UpdateConfig \<Rightarrow> handle_update_config e d r
      | TestSearch \<Rightarrow> handle_test_search e d cx r
      | ListRequests \<Rightarrow> handle_list_requests e d r
      | ListStuck \<Rightarrow> handle_list_stuck_requests e d
      | RetryRoute i \<Rightarrow> handle_retry_request e d i
      | MarkFailedRoute i \<Rightarrow> handle_mark_failed_request e d i r
      | ReconcilerStatus \<Rightarrow> handle_reconciler_status e d
      | ReconcilerRun \<Rightarrow> handle_reconciler_run e d
      | _ \<Rightarrow>
          (case sd_client d of
             None \<Rightarrow> State_Monad.return not_found_page
           | Some c \<Rightarrow> (case catalog_route e c cx rt r of None \<Rightarrow> State_Monad.return not_found_page | Some m \<Rightarrow> m)))"

text \<open>
  What is registered with the router: methods and patterns, each with the handler and the path
  parameters the handler reads with \<open>chi.URLParam\<close>.
\<close>

type_synonym url_params = "string \<Rightarrow> string"

definition catalog_table :: "((string \<times> string) \<times> (url_params \<Rightarrow> route)) list" where
  "catalog_table =
     [((''GET'', ''/api/v1/catalog''), \<lambda>p. CatList),
      ((''GET'', ''/api/v1/catalog/search''), \<lambda>p. CatSearch),
      ((''GET'', ''/api/v1/catalog/{id}''), \<lambda>p. CatDetail (p ''id'')),
      ((''GET'', ''/api/v1/cover/{book_id}/{size}''), \<lambda>p. CatCover (p ''book_id'') (p ''size'')),
      ((''GET'', ''/api/v1/file/{book_id}''), \<lambda>p. CatFile (p ''book_id'')),
      ((''POST'', ''/api/v1/external_search''), \<lambda>p. CatExternalSearch),
      ((''GET'', ''/api/v1/requests/{external_id}''), \<lambda>p. CatSnapshot (p ''external_id''))]"

definition route_table :: "server_deps \<Rightarrow> ((string \<times> string) \<times> (url_params \<Rightarrow> route)) list" where
  "route_table d =
     [((''GET'', ''/admin''), \<lambda>p. AdminHome),
      ((''GET'', ''/admin/''), \<lambda>p. AdminHome),
      ((''GET'', ''/api/v1/health''), \<lambda>p. Health),
      ((''GET'', ''/api/v1/capabilities''), \<lambda>p. Capabilities),
      ((''GET'', ''/api/v1/admin/diagnostics''), \<lambda>p. Diagnostics),
      ((''GET'', ''/api/v1/admin/config''), \<lambda>p. GetConfig),
      ((''PATCH'', ''/api/v1/admin/config''), \<lambda>p. UpdateConfig),
      ((''GET'', ''/api/v1/admin/test-search''), \<lambda>p. TestSearch),
      ((''GET'', ''/api/v1/admin/requests''), \<lambda>p. ListRequests),
      ((''GET'', ''/api/v1/admin/requests/stuck''), \<lambda>p. ListStuck),
      ((''POST'', ''/api/v1/admin/requests/{id}/retry''), \<lambda>p. RetryRoute (p ''id'')),
      ((''POST'', ''/api/v1/admin/requests/{id}/mark-failed''), \<lambda>p. MarkFailedRoute (p ''id'')),
      ((''GET'', ''/api/v1/admin/reconciler/status''), \<lambda>p. ReconcilerStatus),
      ((''POST'', ''/api/v1/admin/reconciler/run''), \<lambda>p. ReconcilerRun)] @
     (if sd_client d \<noteq> None then catalog_table else [])"

text \<open>
  chi itself is a parameter: from the registered pairs and a request it gives an answer of its own
  (404 or 405) or one of the pairs and the path parameters. \<open>chi_lawful\<close> is what its documentation
  promises and the properties use: only what was registered is served, for its own method.
\<close>

type_synonym chi = "(string \<times> string) list \<Rightarrow> http_in \<Rightarrow> http_out + ((string \<times> string) \<times> url_params)"

definition chi_lawful :: "chi \<Rightarrow> bool" where
  "chi_lawful chi \<longleftrightarrow> (\<forall>pats r pat ps. chi pats r = Inr (pat, ps) \<longrightarrow> pat \<in> set pats \<and> fst pat = in_method r)"

definition serve_http ::
  "env \<Rightarrow> admin_page \<Rightarrow> chi \<Rightarrow> server_deps \<Rightarrow> ctx \<Rightarrow> http_in \<Rightarrow> ('z, http_out) aio" where
  "serve_http e page chi d cx r =
     (case chi (map fst (route_table d)) r of
        Inl out \<Rightarrow> State_Monad.return out
      | Inr (pat, ps) \<Rightarrow>
          (case map_of (route_table d) pat of
             None \<Rightarrow> State_Monad.return not_found_page
           | Some f \<Rightarrow> serve_route e page d cx (f ps) r))"

text \<open>Which handlers are registered under \<open>GET\<close>, and where the two that act on a request are.\<close>

definition get_route :: "route \<Rightarrow> bool" where
  "get_route rt \<longleftrightarrow> rt \<notin> {UpdateConfig, ReconcilerRun, CatExternalSearch} \<and> (\<forall>i. rt \<noteq> RetryRoute i \<and> rt \<noteq> MarkFailedRoute i)"

lemma route_table_get: "((''GET'', pat), f) \<in> set (route_table d) \<Longrightarrow> get_route (f ps)"
  by (auto simp: route_table_def catalog_table_def get_route_def split: if_splits)

lemma route_table_admin:
  "((m, pat), f) \<in> set (route_table d) \<Longrightarrow> f ps = RetryRoute i \<or> f ps = MarkFailedRoute i \<Longrightarrow>
   (m, pat) \<in> {(''POST'', ''/api/v1/admin/requests/{id}/retry''), (''POST'', ''/api/v1/admin/requests/{id}/mark-failed'')}"
  by (auto simp: route_table_def catalog_table_def split: if_splits)

section \<open>The form of the answers\<close>

text \<open>A JSON object on a line of its own, with integers for numbers; an answer that is not a 200 has
  one member, the error text.\<close>

definition api_answer :: "http_out \<Rightarrow> bool" where
  "api_answer out \<longleftrightarrow>
     out_headers out = [(''Content-Type'', ''application/json'')] \<and> out_status out \<in> {200, 400, 404, 500, 503} \<and>
     (\<exists>kvs. out_body out = json_encode (JObj kvs) @ newline \<and> int_json (JObj kvs) \<and>
        (out_status out \<noteq> 200 \<longrightarrow> (\<exists>m. kvs = [(''error'', JStr m)])))"

lemma int_go_map: "int_json (go_map kvs) \<longleftrightarrow> list_all (\<lambda>kv. int_json (snd kv)) kvs"
  by (simp add: go_map_def list_all_iff)

lemma int_json_int [simp]: "int_json (json_int n)"
  by (auto simp: json_int_def)

lemma api_answer_ok: "int_json (go_map kvs) \<Longrightarrow> api_answer (write_json 200 (go_map kvs))"
  by (auto simp: api_answer_def write_json_def json_out_def go_map_def)

lemma api_answer_obj: "int_json (JObj kvs) \<Longrightarrow> api_answer (json_out 200 (JObj kvs))"
  by (auto simp: api_answer_def json_out_def)

lemma api_answer_error: "st \<in> {400, 404, 500, 503} \<Longrightarrow> api_answer (write_json st (error_json m))"
  by (auto simp: api_answer_def write_json_def json_out_def error_json_def go_map_def intro!: exI [of _ "[(''error'', JStr m)]"])

lemma api_answer_fixed: "api_answer no_store" "api_answer (internal_error err)" "api_answer (write_json 200 ok_json)"
    "api_answer handle_health"
  by (auto simp: no_store_def internal_error_def ok_json_def handle_health_def api_answer_error write_json_def [symmetric]
      int_go_map intro!: api_answer_ok)

lemma int_json_strings [simp]: "int_json (json_strings x)"
  by (auto simp: json_strings_def list_all_iff split: option.splits)

lemma int_row_json [simp]: "int_json (row_json x)"
  by (simp add: row_json_def omit_if_def)

lemma int_hit_json [simp]: "int_json (hit_json x)"
  by (auto simp: hit_json_def omit_if_def)

lemma config_json_answer: "api_answer (write_json 200 (config_json c))"
  using int_json_config [of c] api_answer_obj [of "case config_json c of JObj kvs \<Rightarrow> kvs"]
  by (simp add: write_json_def config_json_def)

lemma int_stats_json [simp]: "int_json (stats_json s)"
  by (simp add: stats_json_def)

definition api_route :: "route \<Rightarrow> bool" where
  "api_route rt \<longleftrightarrow> rt \<in> {Health, Capabilities, Diagnostics, GetConfig, UpdateConfig, TestSearch, ListRequests, ListStuck,
     ReconcilerStatus, ReconcilerRun} \<or> (\<exists>i. rt = RetryRoute i \<or> rt = MarkFailedRoute i)"

lemma yields_api:
  "yields api_answer (handle_list_requests e d r)" "yields api_answer (handle_list_stuck_requests e d)"
  "yields api_answer (handle_retry_request e d i)" "yields api_answer (handle_mark_failed_request e d i r)"
  "yields api_answer (handle_reconciler_run e d)" "yields api_answer (handle_get_config e d)"
  "yields api_answer (handle_update_config e d r)" "yields api_answer (handle_test_search e d cx r)"
  unfolding handle_list_requests_def handle_list_stuck_requests_def handle_retry_request_def handle_mark_failed_request_def
    handle_reconciler_run_def handle_get_config_def handle_update_config_def handle_test_search_def Let_def
  by (intro yields_rules; auto split: sum.splits option.splits prod.splits
        simp: api_answer_fixed api_answer_error int_go_map list_all_iff config_json_answer intro!: api_answer_ok)+

definition int_members :: "(string \<times> json) list \<Rightarrow> bool" where
  "int_members kvs \<longleftrightarrow> list_all (\<lambda>kv. int_json (snd kv)) kvs"

lemma int_members_simps [simp]:
  "int_members []" "int_members (kv # kvs) \<longleftrightarrow> int_json (snd kv) \<and> int_members kvs"
  "int_members (kvs @ kvs') \<longleftrightarrow> int_members kvs \<and> int_members kvs'" "int_members (omit_if b k j) \<longleftrightarrow> b \<or> int_json j"
  by (auto simp: int_members_def omit_if_def)

lemma yields_status: "yields api_answer (handle_reconciler_status e d)"
proof -
  have ok: "api_answer (write_json 200 (go_map kvs))" if "int_members kvs" for kvs
    using that by (intro api_answer_ok) (simp add: int_go_map int_members_def)
  show ?thesis
    unfolding handle_reconciler_status_def Let_def
    by (intro yields_if yields_bind yields_bind_with [where Q = int_members] yields_return ok; (rule yields_rules; simp)?)
      (auto intro!: yields_rules split: sum.splits)
qed

lemma yields_diagnostics: "yields api_answer (handle_diagnostics e d cx)"
  unfolding handle_diagnostics_def Let_def
  by (rule yields_bind, rule yields_bind, rule yields_bind_with [where Q = "\<lambda>x. int_json (snd x)"])
    (auto intro!: yields_rules api_answer_ok simp: int_go_map split: sum.splits option.splits prod.splits)

section \<open>Properties\<close>

text \<open>C11: every answer of the admin API is one JSON object. Whatever the request, the database, the
  upstream and the other goroutines do, an API route answers 200, 400, 404, 500 or 503 with the
  JSON content type and a body that parses as one object; an answer other than 200 has one
  member, the error text.\<close>

theorem api_answers_typed:
  assumes "api_route rt" and "run_state (serve_route e page d cx rt r) w = (out, w')"
  shows "out_headers out = [(''Content-Type'', ''application/json'')] \<and> out_status out \<in> {200, 400, 404, 500, 503} \<and>
    (\<exists>kvs. json_parse (out_body out) = Some (JObj kvs) \<and> (out_status out \<noteq> 200 \<longrightarrow> (\<exists>m. kvs = [(''error'', JStr m)])))"
proof -
  have "api_answer handle_capabilities" unfolding handle_capabilities_def by (rule api_answer_obj) simp
  then have "yields api_answer (serve_route e page d cx rt r)"
    using assms(1) by (auto simp: api_route_def serve_route_def api_answer_fixed
        intro!: yields_return yields_api yields_status yields_diagnostics)
  from yieldsD [OF this assms(2)] show ?thesis
    by (auto simp: api_answer_def newline_def parse_encoded_line simp del: json_encode.simps)
qed

definition demo_page :: admin_page where
  "demo_page = \<lparr>hp_css = ''p{}'', hp_tail = ''</style>''\<rparr>"

theorem api_answers_typed_witness:
  "\<exists>out w' m. run_state (serve_route (demo_env refused) demo_page demo_server background (RetryRoute ''r9'') demo_http) (demo_app []) = (out, w') \<and>
     out_status out = 404 \<and> json_parse (out_body out) = Some (JObj [(''error'', JStr m)])"
proof -
  obtain out w' where run: "run_state (serve_route (demo_env refused) demo_page demo_server background (RetryRoute ''r9'') demo_http) (demo_app []) = (out, w')"
    by fastforce
  have "api_route (RetryRoute ''r9'')" by (simp add: api_route_def)
  note typed = api_answers_typed [OF this run]
  have "run_state (retry_request (demo_env refused) ''r9'') (demo_app []) =
      (Inl ErrNotFound, snd (run_state (retry_request (demo_env refused) ''r9'') (demo_app [])))"
    by (simp add: retry_request_def run_simps demo_app_def rworld.extend_def new_reconciler_def world.defs update_where_def split: prod.splits)
  then have "out_status out = 404"
    using run by (auto simp: serve_route_def handle_retry_request_def demo_server_def write_json_def split: prod.splits)
  with typed run show ?thesis by auto
qed

section \<open>The admin page\<close>

lemma html_escape_Cons: "html_escape (c # s) = html_char c @ html_escape s" "html_escape [] = []"
  by (simp_all add: html_escape_def)

lemma html_escape_inert: "c \<in> {CHR ''<'', CHR ''>'', CHR 0x22, CHR 0x27} \<Longrightarrow> c \<notin> set (html_escape s)"
  by (induction s) (auto simp: html_escape_Cons html_char_def split: if_splits)

text \<open>No code of a character is the beginning of the code of another one.\<close>

lemma html_char_prefix: "html_char c @ s = html_char d @ t \<Longrightarrow> c = d \<and> s = t"
  by (auto simp: html_char_def split: if_splits)

lemma html_char_neq: "html_char c \<noteq> []"
  by (simp add: html_char_def)

lemma html_escape_inj: "html_escape s = html_escape t \<Longrightarrow> s = t"
proof (induction s arbitrary: t)
  case Nil
  then show ?case by (cases t) (auto simp: html_escape_Cons html_char_neq)
next
  case (Cons c s)
  then show ?case
    by (cases t) (auto simp: html_escape_Cons html_char_neq dest!: html_char_prefix)
qed

lemma takeWhile_quote: "CHR 0x22 \<notin> set s \<Longrightarrow> takeWhile (\<lambda>c. c \<noteq> CHR 0x22) (s @ CHR 0x22 # t) = s"
  by (induction s) auto

text \<open>The theme a request asks for: the header, or the query, or the default one.\<close>

definition chosen_theme :: "http_in \<Rightarrow> string" where
  "chosen_theme r =
     (case filter (\<lambda>t. t \<noteq> []) [get_header ''X-Silo-Theme'' (in_headers r), url_query r ''theme''] of
        [] \<Rightarrow> ''default'' | t # _ \<Rightarrow> t)"

lemma admin_theme_chosen: "admin_theme r = html_escape (chosen_theme r)"
  by (simp add: admin_theme_def chosen_theme_def Let_def)

text \<open>C12: the theme cannot leave its attribute. Whatever header or query chose the theme, the page
  begins with its first literal, the escaped theme and its second one, the attribute \<open>data-theme\<close> ends
  at the quote of the second literal, its text holds no angle bracket and no quote, and two requests get the same
  page only for the same theme.\<close>

theorem theme_stays_in_attribute:
  "has_prefix (out_body (handle_admin_home page r)) (page_open @ admin_theme r @ page_head) \<and>
    takeWhile (\<lambda>c. c \<noteq> CHR 0x22) (drop (length page_open) (out_body (handle_admin_home page r))) = admin_theme r \<and>
    set (admin_theme r) \<inter> {CHR ''<'', CHR ''>'', CHR 0x22, CHR 0x27} = {} \<and>
    (out_body (handle_admin_home page r) = out_body (handle_admin_home page r') \<longleftrightarrow> chosen_theme r = chosen_theme r')"
proof -
  have inert: "c \<notin> set (admin_theme q)" if "c \<in> {CHR ''<'', CHR ''>'', CHR 0x22, CHR 0x27}" for c q
    using that by (simp add: admin_theme_chosen html_escape_inert)
  have attr: "takeWhile (\<lambda>c. c \<noteq> CHR 0x22) (drop (length page_open) (out_body (handle_admin_home page q))) = admin_theme q" for q
    using takeWhile_quote [of "admin_theme q"] inert [of "CHR 0x22" q] by (simp add: handle_admin_home_def page_head_def)
  then have "out_body (handle_admin_home page r) = out_body (handle_admin_home page r') \<Longrightarrow> chosen_theme r = chosen_theme r'"
    using html_escape_inj unfolding admin_theme_chosen by metis
  moreover have "has_prefix (out_body (handle_admin_home page r)) (page_open @ admin_theme r @ page_head)"
    by (simp add: handle_admin_home_def has_prefix_def)
  ultimately show ?thesis using attr inert by (auto simp: handle_admin_home_def admin_theme_chosen)
qed

end
