(* ===== verification/Http_Routes.thy ===== *)
theory Http_Routes
  imports Http_Messages
begin

text \<open>
  \<open>internal/httproutes/server.go\<close>: the adapter from the host's RPC to the plugin's HTTP handler.
  The handler is a parameter; \<open>None\<close> is a panic. A number of the query keeps the text that
  \<open>strconv.FormatFloat(v, 'f', -1, 64)\<close> prints for it, and the map of headers is the list of its
  entries in the order of the iteration.
\<close>

section \<open>Messages\<close>

datatype query_value = QString string | QBool bool | QNumber string | QOther

record rpc_request =
  rpc_method :: string
  rpc_path :: string
  rpc_query :: "(string \<times> query_value) list option"
  rpc_headers :: "(string \<times> string) list"
  rpc_body :: string

record rpc_response =
  rpc_status :: int
  rpc_out_headers :: "(string \<times> string) list"
  rpc_out_body :: string

definition max_body_bytes :: int where "max_body_bytes = 8 * 2 ^ 20"

section \<open>The parts of Handle\<close>

definition is_http_token :: "string \<Rightarrow> bool" where
  "is_http_token s \<longleftrightarrow>
     s \<noteq> [] \<and>
     list_all (\<lambda>c. CHR 0x21 \<le> c \<and> c \<le> CHR 0x7E \<and>
       c \<notin> set ''()<>@,;:/[]?={} '' \<and> c \<noteq> CHR 0x5C \<and> c \<noteq> CHR 0x22 \<and> c \<noteq> CHR 0x09) s"

definition err_response :: "int \<Rightarrow> string \<Rightarrow> rpc_response" where
  "err_response code msg =
     \<lparr>rpc_status = code, rpc_out_headers = [(''Content-Type'', ''application/json'')],
      rpc_out_body = [CHR 0x7B, CHR 0x22] @ ''error'' @ [CHR 0x22, CHR '':'', CHR 0x7B, CHR 0x22] @ ''message'' @
        [CHR 0x22, CHR '':'', CHR 0x22] @ msg @ [CHR 0x22, CHR 0x7D, CHR 0x7D]\<rparr>"

definition not_ready :: rpc_response where
  "not_ready =
     \<lparr>rpc_status = 503, rpc_out_headers = [(''Content-Type'', ''application/json'')],
      rpc_out_body = json_encode (JObj [(''error'', JObj [(''code'', JStr ''not_ready''), (''message'', JStr ''plugin not configured'')])])\<rparr>"

fun scalar_text :: "query_value \<Rightarrow> string option" where
  "scalar_text (QString s) = Some s"
| "scalar_text (QBool b) = Some (if b then ''true'' else ''false'')"
| "scalar_text (QNumber s) = Some s"
| "scalar_text QOther = None"

definition query_values :: "(string \<times> query_value) list \<Rightarrow> (string \<times> string) list" where
  "query_values kvs = List.map_filter (\<lambda>(k, v). map_option (Pair k) (scalar_text v)) kvs"

definition raw_query :: "rpc_request \<Rightarrow> string" where
  "raw_query req = (case rpc_query req of None \<Rightarrow> [] | Some kvs \<Rightarrow> values_encode (query_values kvs))"

text \<open>\<open>Header.Set\<close>.\<close>

definition set_header :: "(string \<times> string) list \<Rightarrow> string \<times> string \<Rightarrow> (string \<times> string) list" where
  "set_header hs kv = (canonical_header (fst kv), snd kv) # filter (\<lambda>h. fst h \<noteq> canonical_header (fst kv)) hs"

definition get_first :: "string \<Rightarrow> (string \<times> string) list \<Rightarrow> string" where
  "get_first k hs = (case map_of hs k of None \<Rightarrow> [] | Some v \<Rightarrow> v)"

text \<open>\<open>http.NewRequestWithContext\<close> and what is set on the request afterwards.\<close>

definition rpc_method_of :: "rpc_request \<Rightarrow> string" where
  "rpc_method_of req = (if rpc_method req = [] then ''GET'' else rpc_method req)"

definition http_request_of :: "(string \<Rightarrow> bool) \<Rightarrow> rpc_request \<Rightarrow> http_in option" where
  "http_request_of ip6 req =
     (case parse_url ip6 (url_string (rpc_path req) (raw_query req)) of
        None \<Rightarrow> None
      | Some u \<Rightarrow> Some
          \<lparr>in_method = rpc_method_of req, in_path = u_path u, in_query = u_query u,
           in_uri = request_uri (rpc_path req) (raw_query req),
           in_headers = foldl set_header [] (rpc_headers req), in_body = rpc_body req\<rparr>)"

definition rpc_response_of :: "http_out \<Rightarrow> rpc_response" where
  "rpc_response_of out =
     \<lparr>rpc_status = sint (word_of_int (out_status out) :: 32 word),
      rpc_out_headers = map (\<lambda>k. (k, get_first k (out_headers out))) (remdups (map fst (out_headers out))),
      rpc_out_body = out_body out\<rparr>"

text \<open>\<open>Handle\<close>; the handler is absent until \<open>SetHandler\<close> stored one.\<close>

definition handle :: "(string \<Rightarrow> bool) \<Rightarrow> (http_in \<Rightarrow> ('w, http_out option) state) option \<Rightarrow> rpc_request \<Rightarrow> ('w, rpc_response) state" where
  "handle ip6 h req =
     (case h of
        None \<Rightarrow> State_Monad.return not_ready
      | Some f \<Rightarrow>
          if int (length (rpc_body req)) > max_body_bytes then
            State_Monad.return (err_response 413 ''request body too large'')
          else if \<not> is_http_token (rpc_method_of req) then
            State_Monad.return (err_response 400 ''invalid method'')
          else (case http_request_of ip6 req of
              None \<Rightarrow> State_Monad.return (err_response 400 ''invalid request'')
            | Some r \<Rightarrow> do {
                out \<leftarrow> f r;
                State_Monad.return (case out of None \<Rightarrow> err_response 500 ''internal error'' | Some x \<Rightarrow> rpc_response_of x)
              }))"

section \<open>What the handler is given\<close>

lemma raw_query_safe: "url_safe (raw_query req)"
  by (cases "rpc_query req") (simp_all add: raw_query_def url_safe_values, simp add: url_safe_def has_control_def)

lemma map_of_query_values:
  "distinct (map fst kvs) \<Longrightarrow> map_of (query_values kvs) k = Option.bind (map_of kvs k) scalar_text"
proof (induction kvs)
  case (Cons kv kvs)
  obtain k' v where kv: "kv = (k', v)" by (cases kv)
  have "map_of kvs k' = None" using Cons.prems by (auto simp: kv map_of_eq_None_iff)
  with Cons show ?case
    by (cases "scalar_text v") (auto simp: kv query_values_def List.map_filter_simps)
qed (simp add: query_values_def List.map_filter_simps)

lemma distinct_query_values: "distinct (map fst kvs) \<Longrightarrow> distinct (map fst (query_values kvs))"
proof (induction kvs)
  case (Cons kv kvs)
  obtain k v where kv: "kv = (k, v)" by (cases kv)
  have "fst ` set (query_values kvs) \<subseteq> fst ` set kvs"
    by (auto simp: query_values_def List.map_filter_def split: prod.splits) force
  with Cons show ?case
    by (cases "scalar_text v") (auto simp: kv query_values_def List.map_filter_simps)
qed (simp add: query_values_def List.map_filter_simps)

lemma query_get_scalar:
  assumes "rpc_query req = Some kvs" and "distinct (map fst kvs)"
  shows "query_get (raw_query req) k = (case map_of kvs k of None \<Rightarrow> [] | Some v \<Rightarrow> (case scalar_text v of None \<Rightarrow> [] | Some s \<Rightarrow> s))"
  using assms distinct_query_values [OF assms(2)]
  by (simp add: raw_query_def query_get_def parse_query_encode map_of_sort_key map_of_query_values split: option.splits)

lemma canonical_set_header:
  "map_of (set_header hs (k, v)) (canonical_header k) = Some v"
  by (simp add: set_header_def)

lemma handle_served:
  assumes "int (length (rpc_body req)) \<le> max_body_bytes" and "is_http_token (rpc_method_of req)"
    and "http_request_of ip6 req = Some r"
  shows "run_state (handle ip6 (Some f) req) w =
    (case run_state (f r) w of (out, w') \<Rightarrow>
       (case out of None \<Rightarrow> err_response 500 ''internal error'' | Some x \<Rightarrow> rpc_response_of x, w'))"
  using assms by (auto simp: handle_def split: prod.splits)

lemma http_request_of_path:
  assumes "parse_url ip6 (url_string (rpc_path req) (raw_query req)) = Some \<lparr>u_scheme = [], u_host = h, u_path = p, u_query = raw_query req\<rparr>"
  shows "\<exists>r. http_request_of ip6 req = Some r \<and> in_path r = p \<and> in_method r = rpc_method_of req \<and>
     in_body r = rpc_body req \<and> in_query r = raw_query req"
  using assms by (simp add: http_request_of_def)

text \<open>What the handler may do is what \<open>Handle\<close> may do.\<close>

context effect
begin

lemma effect_handle:
  "(\<And>f r. h = Some f \<Longrightarrow> http_request_of ip6 req = Some r \<Longrightarrow> effect_of R (f r)) \<Longrightarrow> effect_of R (handle ip6 h req)"
  unfolding handle_def by (intro effect_rules; (simp; fail)?)

end

section \<open>Properties\<close>

text \<open>C9: what \<open>Handle\<close> does with a request. As long as \<open>SetHandler\<close> has stored no handler it answers
  503 (the plugin stores one before it serves, so that before the configuration it is the
  unconfigured router that answers); a body of more than 8 MiB is a 413, and a method that is no token
  or a URL that does not parse a 400, and in these cases the handler does not run. Otherwise, for a
  path that starts with a slash but not with exactly two, the handler runs once on a request with the
  same path, method and body, whose query gives each string, boolean and number of the message under
  its key; the answer is the handler's, and a panic becomes a 500. But a path that starts with exactly
  two slashes and a segment of letters and digits reaches the handler without that segment:
  \<open>//x/admin\<close> is served as \<open>/admin\<close>.\<close>

theorem handle_contract:
  fixes f :: "http_in \<Rightarrow> ('w, http_out option) state"
  shows "run_state (handle ip6 (None :: (http_in \<Rightarrow> ('w, http_out option) state) option) req) w = (not_ready, w) \<and>
    (8 * 2 ^ 20 < int (length (rpc_body req)) \<longrightarrow>
       run_state (handle ip6 (Some f) req) w = (err_response 413 ''request body too large'', w)) \<and>
    (int (length (rpc_body req)) \<le> 8 * 2 ^ 20 \<and> \<not> is_http_token (rpc_method_of req) \<longrightarrow>
       run_state (handle ip6 (Some f) req) w = (err_response 400 ''invalid method'', w)) \<and>
    (int (length (rpc_body req)) \<le> 8 * 2 ^ 20 \<and> is_http_token (rpc_method_of req) \<and> http_request_of ip6 req = None \<longrightarrow>
       run_state (handle ip6 (Some f) req) w = (err_response 400 ''invalid request'', w)) \<and>
    (int (length (rpc_body req)) \<le> 8 * 2 ^ 20 \<and> is_http_token (rpc_method_of req) \<and>
     has_prefix (rpc_path req) ''/'' \<and> (has_prefix (rpc_path req) ''//'' \<longrightarrow> has_prefix (rpc_path req) ''///'') \<longrightarrow>
       (\<exists>r. in_path r = rpc_path req \<and> in_method r = rpc_method_of req \<and> in_body r = rpc_body req \<and>
          (\<forall>kvs k. rpc_query req = Some kvs \<and> distinct (map fst kvs) \<longrightarrow>
             url_query r k = (case map_of kvs k of None \<Rightarrow> [] | Some v \<Rightarrow> (case scalar_text v of None \<Rightarrow> [] | Some s \<Rightarrow> s))) \<and>
          run_state (handle ip6 (Some f) req) w =
            (case run_state (f r) w of (out, w') \<Rightarrow>
               (case out of None \<Rightarrow> err_response 500 ''internal error'' | Some x \<Rightarrow> rpc_response_of x, w')))) \<and>
    (\<forall>h rest. int (length (rpc_body req)) \<le> 8 * 2 ^ 20 \<and> is_http_token (rpc_method_of req) \<and>
       rpc_path req = ''//'' @ h @ ''/'' @ rest \<and> h \<noteq> [] \<and> list_all is_alnum h \<longrightarrow>
       (\<exists>r. in_path r = ''/'' @ rest \<and> in_method r = rpc_method_of req \<and>
          run_state (handle ip6 (Some f) req) w =
            (case run_state (f r) w of (out, w') \<Rightarrow>
               (case out of None \<Rightarrow> err_response 500 ''internal error'' | Some x \<Rightarrow> rpc_response_of x, w'))))"
proof (intro conjI allI impI)
  assume a: "int (length (rpc_body req)) \<le> 8 * 2 ^ 20 \<and> is_http_token (rpc_method_of req) \<and>
     has_prefix (rpc_path req) ''/'' \<and> (has_prefix (rpc_path req) ''//'' \<longrightarrow> has_prefix (rpc_path req) ''///'')"
  then obtain r where r: "http_request_of ip6 req = Some r" "in_path r = rpc_path req" "in_method r = rpc_method_of req"
      "in_body r = rpc_body req" "in_query r = raw_query req"
    using http_request_of_path [OF parse_url_string [OF _ _ raw_query_safe]] by metis
  have "run_state (handle ip6 (Some f) req) w =
      (case run_state (f r) w of (out, w') \<Rightarrow>
         (case out of None \<Rightarrow> err_response 500 ''internal error'' | Some x \<Rightarrow> rpc_response_of x, w'))"
    using a by (intro handle_served r(1)) (simp_all add: max_body_bytes_def)
  with r query_get_scalar [of req] show "\<exists>r. in_path r = rpc_path req \<and> in_method r = rpc_method_of req \<and> in_body r = rpc_body req \<and>
          (\<forall>kvs k. rpc_query req = Some kvs \<and> distinct (map fst kvs) \<longrightarrow>
             url_query r k = (case map_of kvs k of None \<Rightarrow> [] | Some v \<Rightarrow> (case scalar_text v of None \<Rightarrow> [] | Some s \<Rightarrow> s))) \<and>
          run_state (handle ip6 (Some f) req) w =
            (case run_state (f r) w of (out, w') \<Rightarrow>
               (case out of None \<Rightarrow> err_response 500 ''internal error'' | Some x \<Rightarrow> rpc_response_of x, w'))"
    by (intro exI [of _ r]) (simp add: url_query_def)
next
  fix h rest
  assume a: "int (length (rpc_body req)) \<le> 8 * 2 ^ 20 \<and> is_http_token (rpc_method_of req) \<and>
       rpc_path req = ''//'' @ h @ ''/'' @ rest \<and> h \<noteq> [] \<and> list_all is_alnum h"
  then obtain r where r: "http_request_of ip6 req = Some r" "in_path r = ''/'' @ rest" "in_method r = rpc_method_of req"
    using http_request_of_path [of ip6 req h "''/'' @ rest"] parse_url_string_slashes [OF _ _ raw_query_safe, of h ip6 rest req] by metis
  have "run_state (handle ip6 (Some f) req) w =
      (case run_state (f r) w of (out, w') \<Rightarrow>
         (case out of None \<Rightarrow> err_response 500 ''internal error'' | Some x \<Rightarrow> rpc_response_of x, w'))"
    using a by (intro handle_served r(1)) (simp_all add: max_body_bytes_def)
  with r show "\<exists>r. in_path r = ''/'' @ rest \<and> in_method r = rpc_method_of req \<and>
          run_state (handle ip6 (Some f) req) w =
            (case run_state (f r) w of (out, w') \<Rightarrow>
               (case out of None \<Rightarrow> err_response 500 ''internal error'' | Some x \<Rightarrow> rpc_response_of x, w'))"
    by (intro exI [of _ r]) simp
qed (simp_all add: handle_def max_body_bytes_def)

text \<open>A handler that answers with the path it was given, and counts its runs.\<close>

definition echo_path :: "http_in \<Rightarrow> (nat, http_out option) state" where
  "echo_path r = State (\<lambda>n. (Some \<lparr>out_status = 200, out_headers = [], out_body = in_path r\<rparr>, Suc n))"

theorem handle_contract_witness:
  "run_state (handle (\<lambda>_. False) (Some echo_path)
      \<lparr>rpc_method = ''GET'', rpc_path = ''//x/admin'', rpc_query = None, rpc_headers = [], rpc_body = []\<rparr>) 0 =
     (\<lparr>rpc_status = 200, rpc_out_headers = [], rpc_out_body = ''/admin''\<rparr>, 1)"
proof -
  let ?req = "\<lparr>rpc_method = ''GET'', rpc_path = ''//x/admin'', rpc_query = None, rpc_headers = [], rpc_body = []\<rparr>"
  have "int (length (rpc_body ?req)) \<le> 8 * 2 ^ 20 \<and> is_http_token (rpc_method_of ?req) \<and>
     rpc_path ?req = ''//'' @ ''x'' @ ''/'' @ ''admin'' \<and> ''x'' \<noteq> [] \<and> list_all is_alnum ''x''"
    by (simp add: rpc_method_of_def is_http_token_def is_alnum_def less_eq_char_def)
  then obtain r where "in_path r = ''/'' @ ''admin''"
    "run_state (handle (\<lambda>_. False) (Some echo_path) ?req) 0 =
            (case run_state (echo_path r) 0 of (out, w') \<Rightarrow>
               (case out of None \<Rightarrow> err_response 500 ''internal error'' | Some x \<Rightarrow> rpc_response_of x, w'))"
    using handle_contract [of "\<lambda>_. False" ?req 0 echo_path] by blast
  then show ?thesis by (simp add: echo_path_def rpc_response_of_def)
qed

end
