(* ===== verification/Plugin_Main.thy ===== *)
theory Plugin_Main
  imports Plugin_Manifest Admin_Routes Http_Routes Event_Consumer Task_Scheduler
begin

text \<open>
  \<open>cmd/silo-plugin-ebook-requests/main.go\<close> and \<open>internal/migrate/runner.go\<close>: the callback of
  \<open>Configure\<close> that connects the database, migrates it, imports the configuration and replaces
  the services, and the wiring of the services to the host. pgx and golang-migrate are the
  parameters of \<open>platform\<close>. The model has one database: a new DSN names the same tables. A
  reconciler that is replaced while its tick runs goes on beside the new one; its statements
  are those of another goroutine.
\<close>

section \<open>Migrations (runner.go)\<close>

datatype up_result = UpDone | ErrNoChange | UpFailed string

text \<open>
  \<open>p_source\<close>: opening the embedded files; \<open>p_init\<close> and \<open>p_up\<close>: golang-migrate with a DSN;
  \<open>p_dsn\<close>: \<open>pgxpool.ParseConfig\<close>, which gives the maximal number of connections; \<open>p_pool\<close>:
  \<open>pgxpool.NewWithConfig\<close> with that number.
\<close>

record platform =
  p_source :: "string option"
  p_init :: "string \<Rightarrow> string option"
  p_up :: "string \<Rightarrow> up_result"
  p_dsn :: "string \<Rightarrow> string + int"
  p_pool :: "string \<Rightarrow> int \<Rightarrow> string option"

definition driver_dsn :: "string \<Rightarrow> string" where
  "driver_dsn dsn =
     (case List.find (has_prefix dsn) [''postgres://'', ''postgresql://''] of
        Some p \<Rightarrow> ''pgx5://'' @ drop (length p) dsn
      | None \<Rightarrow> dsn)"

definition migrate_run :: "platform \<Rightarrow> string \<Rightarrow> goerr option" where
  "migrate_run pf dsn =
     (case p_source pf of
        Some m \<Rightarrow> Some (Wrapf ''load migrations: '' (Err m) [])
      | None \<Rightarrow>
          (case p_init pf (driver_dsn dsn) of
             Some m \<Rightarrow> Some (Wrapf ''init migrate: '' (Err m) [])
           | None \<Rightarrow>
               (case p_up pf (driver_dsn dsn) of
                  UpFailed m \<Rightarrow> Some (Wrapf ''apply migrations: '' (Err m) [])
                | _ \<Rightarrow> None)))"

section \<open>The state\<close>

text \<open>
  The pointers \<open>main\<close> shares with its services. A pool is named by its DSN and its number of
  connections; \<open>pl_closed\<close> lists the pools that were closed.
\<close>

record plugin_world = app_world +
  pl_pool :: "(string \<times> int) option"
  pl_closed :: "(string \<times> int) list"
  pl_consumer :: "consumer_deps option"
  pl_reconciler :: "reconciler_deps option"
  pl_server :: server_deps

type_synonym ('z, 'a) pio = "('z plugin_world_scheme, 'a) state"

definition plugin_id :: string where "plugin_id = ''silo.ebook-requests''"

definition unconfigured_server :: server_deps where
  "unconfigured_server = \<lparr>sd_client = None, sd_store = False, sd_reconciler = None, sd_config = zero_config\<rparr>"

definition close_pool :: "string \<times> int \<Rightarrow> ('z, unit) pio" where
  "close_pool p = State (\<lambda>w. ((), w\<lparr>pl_closed := pl_closed w @ [p]\<rparr>))"

text \<open>\<open>reconciler.New\<close> gives a reconciler with an empty memory.\<close>

definition forget_reconciler :: "('z, unit) rio" where
  "forget_reconciler = State (\<lambda>w. ((), w\<lparr>rc_locked := False, rc_status := no_status, rc_last_error := Map.empty, rc_backoff := 0\<rparr>))"

text \<open>\<open>consumerDepsP.Store\<close>, \<open>reconcilerPtr.Store\<close> and \<open>httpSrv.SetHandler\<close>.\<close>

definition store_consumer :: "consumer_deps option \<Rightarrow> ('z, unit) pio" where
  "store_consumer c = State (\<lambda>w. ((), w\<lparr>pl_consumer := c\<rparr>))"

definition store_reconciler :: "reconciler_deps option \<Rightarrow> ('z, unit) pio" where
  "store_reconciler r = State (\<lambda>w. ((), w\<lparr>pl_reconciler := r\<rparr>))"

definition set_handler :: "server_deps \<Rightarrow> ('z, unit) pio" where
  "set_handler s = State (\<lambda>w. ((), w\<lparr>pl_server := s\<rparr>))"

text \<open>\<open>poolPtr.Swap(p)\<close> and closing the old pool.\<close>

definition swap_pool :: "string \<times> int \<Rightarrow> ('z, unit) pio" where
  "swap_pool p = State (\<lambda>w. ((), w\<lparr>pl_pool := Some p,
     pl_closed := pl_closed w @ (case pl_pool w of None \<Rightarrow> [] | Some old \<Rightarrow> [old])\<rparr>))"

text \<open>
  What applying the migrations does to the modelled tables. They are applied in order and the last
  one (\<open>0002_app_config.up.sql\<close>) ends by inserting the empty configuration unless there is one;
  \<open>ErrNoChange\<close> says that this happened before; a migration that fails is rolled back. The tables
  they create are those of the model.
\<close>

definition migrated_row :: "json option \<Rightarrow> json option" where
  "migrated_row cur = (case cur of None \<Rightarrow> Some (JObj []) | Some j \<Rightarrow> Some j)"

definition apply_migrations :: "platform \<Rightarrow> string \<Rightarrow> ('z, goerr option) aio" where
  "apply_migrations pf dsn = State (\<lambda>w.
     (migrate_run pf dsn,
      if migrate_run pf dsn = None \<and> p_up pf (driver_dsn dsn) = UpDone then w\<lparr>aw_config := migrated_row (aw_config w)\<rparr> else w))"

section \<open>The callback\<close>

text \<open>
  The services are replaced one after the other, in the order of the code: the consumer, the
  reconciler, the routes, and at the end the pool, so that no service is left on a closed pool once
  the callback is done. The host's calls are steps of their own (\<open>Plugin_System\<close>); a call that
  arrives between two of these stores is not modelled.
\<close>

definition install :: "publisher \<Rightarrow> config \<Rightarrow> string \<times> int \<Rightarrow> ('z, unit) pio" where
  "install pub cfg pool =
     (let ebk = (if provider_configured cfg then Some (new_client (cf_base_url cfg) (cf_api_key cfg)) else None);
          rc = map_option (\<lambda>c. \<lparr>rd_pub = pub, rd_ebk = c, rd_plugin = plugin_id\<rparr>) ebk
      in do {
        (case ebk of
           Some c \<Rightarrow> do {
             store_consumer (Some \<lparr>cd_store = True, cd_pub = Some pub, cd_ebk = Some c, cd_plugin = plugin_id\<rparr>);
             forget_reconciler;
             store_reconciler rc
           }
         | None \<Rightarrow> do {
             store_consumer None;
             store_reconciler None
           });
        set_handler \<lparr>sd_client = ebk, sd_store = True, sd_reconciler = rc, sd_config = cfg\<rparr>;
        swap_pool pool
      })"

definition on_config :: "env \<Rightarrow> platform \<Rightarrow> publisher \<Rightarrow> config \<Rightarrow> ('z, goerr option) pio" where
  "on_config e pf pub cfg =
     (case p_dsn pf (cf_database_url cfg) of
        Inl m \<Rightarrow> State_Monad.return (Some (Wrapf ''parse db: '' (Err m) []))
      | Inr conns0 \<Rightarrow>
          (let conns = (if conns0 < 16 then 16 else conns0); pool = (cf_database_url cfg, conns)
           in case p_pool pf (cf_database_url cfg) conns of
                Some m \<Rightarrow> State_Monad.return (Some (Wrapf ''pgxpool: '' (Err m) []))
              | None \<Rightarrow> do {
                  mig \<leftarrow> apply_migrations pf (cf_database_url cfg);
                  (case mig of
                     Some err \<Rightarrow> do {
                       close_pool pool;
                       State_Monad.return (Some (Wrapf ''migrate: '' err []))
                     }
                   | None \<Rightarrow> do {
                       res \<leftarrow> import_legacy_app_config e cfg;
                       (case res of
                          Inl err \<Rightarrow> do {
                            close_pool pool;
                            State_Monad.return (Some (Wrapf ''import app config: '' err []))
                          }
                        | Inr app \<Rightarrow> do {
                            install pub (app\<lparr>cf_database_url := cf_database_url cfg\<rparr>) pool;
                            State_Monad.return None
                          })
                     })
                }))"

text \<open>The fields of the extended world the callback may use are not those \<open>configure\<close> knows.\<close>

definition configure_plugin ::
  "env \<Rightarrow> platform \<Rightarrow> publisher \<Rightarrow> (string \<times> payload option) list \<Rightarrow> ('z, goerr option) pio" where
  "configure_plugin e pf pub entries = configure e (Some (on_config e pf pub)) entries"

section \<open>The services of the host\<close>

definition host_event :: "env \<Rightarrow> ctx \<Rightarrow> event \<Rightarrow> ('z, goerr + unit) pio" where
  "host_event e cx ev = do {
     deps \<leftarrow> State (\<lambda>w. (pl_consumer w, w));
     handle_event e (Some deps) cx ev
   }"

definition host_task :: "env \<Rightarrow> ctx \<Rightarrow> string \<Rightarrow> ('z, task_error + unit) pio" where
  "host_task e cx key = do {
     rc \<leftarrow> State (\<lambda>w. (pl_reconciler w, w));
     run_task e rc cx key
   }"

definition host_http ::
  "env \<Rightarrow> admin_page \<Rightarrow> chi \<Rightarrow> ctx \<Rightarrow> rpc_request \<Rightarrow> ('z, rpc_response) pio" where
  "host_http e page chi cx req = do {
     d \<leftarrow> State (\<lambda>w. (pl_server w, w));
     handle (e_ip6 e)
       (Some (\<lambda>r. do { out \<leftarrow> serve_http e page chi d cx r; State_Monad.return (Some out) })) req
   }"

definition start :: "world \<Rightarrow> plugin_world" where
  "start w = app_world.extend (rworld.extend (new_reconciler w)
       \<lparr>aw_config = None, aw_config_calls = 0, aw_runtime = zero_config\<rparr>)
     \<lparr>pl_pool = None, pl_closed = [], pl_consumer = None, pl_reconciler = None, pl_server = unconfigured_server\<rparr>"

text \<open>\<open>main\<close>: without a manifest the process ends, otherwise it serves, unconfigured at first.
  \<open>GetManifest\<close> hands the manifest out.\<close>

definition plugin_main :: "'m process \<Rightarrow> world \<Rightarrow> manifest_error + 'm manifest \<times> plugin_world" where
  "plugin_main p w = (case load_manifest p of Inl err \<Rightarrow> Inl err | Inr mf \<Rightarrow> Inr (mf, start w))"

definition get_manifest :: "'m manifest \<times> plugin_world \<Rightarrow> 'm manifest" where
  "get_manifest srv = fst srv"

lemma plugin_main_serves:
  assumes "plugin_main p w = Inr srv"
  shows "length (mf_checksum (get_manifest srv)) = 64 \<and> mf_platforms (get_manifest srv) \<noteq> [] \<and> snd srv = start w"
proof -
  obtain mf where mf: "load_manifest p = Inr mf" "srv = (mf, start w)"
    using assms by (auto simp: plugin_main_def split: sum.splits)
  from load_manifest_done [OF mf(1)] show ?thesis unfolding mf(2) get_manifest_def fst_conv snd_conv by metis
qed

section \<open>What a configuration leads to\<close>

text \<open>Everything a running plugin uses is as before; only the admin configuration and the list of
  closed pools may differ.\<close>

definition services_kept :: "'z plugin_world_scheme \<Rightarrow> 'z plugin_world_scheme \<Rightarrow> bool" where
  "services_kept w w' \<longleftrightarrow>
     w_table w' = w_table w \<and> w_http w' = w_http w \<and> w_events w' = w_events w \<and>
     rc_locked w' = rc_locked w \<and> rc_status w' = rc_status w \<and> rc_last_error w' = rc_last_error w \<and>
     rc_backoff w' = rc_backoff w \<and> aw_runtime w' = aw_runtime w \<and> pl_pool w' = pl_pool w \<and>
     pl_consumer w' = pl_consumer w \<and> pl_reconciler w' = pl_reconciler w \<and> pl_server w' = pl_server w"

lemma config_only_services:
  fixes w w' :: "'z plugin_world_scheme"
  assumes "config_only w w'"
  shows "services_kept w w'" and "pl_closed w' = pl_closed w"
proof -
  have "app_world.more w' = app_world.more w" using assms by (simp add: config_only_def)
  then have "pl_pool w' = pl_pool w \<and> pl_closed w' = pl_closed w \<and> pl_consumer w' = pl_consumer w \<and>
      pl_reconciler w' = pl_reconciler w \<and> pl_server w' = pl_server w"
    by (cases w; cases w') simp
  with assms show "services_kept w w'" "pl_closed w' = pl_closed w"
    by (simp_all add: services_kept_def config_only_def)
qed

text \<open>The services built from one configuration.\<close>

definition ready_for :: "publisher \<Rightarrow> config \<Rightarrow> 'z plugin_world_scheme \<Rightarrow> bool" where
  "ready_for pub cfg w \<longleftrightarrow>
     (let c = new_client (cf_base_url cfg) (cf_api_key cfg); up = provider_configured cfg
      in pl_consumer w = (if up then Some \<lparr>cd_store = True, cd_pub = Some pub, cd_ebk = Some c, cd_plugin = plugin_id\<rparr> else None) \<and>
         pl_reconciler w = (if up then Some \<lparr>rd_pub = pub, rd_ebk = c, rd_plugin = plugin_id\<rparr> else None) \<and>
         sd_client (pl_server w) = (if up then Some c else None) \<and> sd_store (pl_server w) \<and>
         sd_reconciler (pl_server w) = pl_reconciler w \<and> sd_config (pl_server w) = cfg \<and>
         (up \<longrightarrow> \<not> rc_locked w \<and> rc_backoff w = 0 \<and> rc_last_error w = Map.empty))"

lemma install_ready:
  assumes "run_state (install pub cfg pool) w = (u, w')"
  shows "ready_for pub cfg w'" and "pl_pool w' = Some pool" and "aw_runtime w' = aw_runtime w"
    and "w_table w' = w_table w" and "w_http w' = w_http w" and "w_events w' = w_events w"
    and "pl_closed w' = pl_closed w @ (case pl_pool w of None \<Rightarrow> [] | Some old \<Rightarrow> [old])"
  using assms
  by (auto simp: install_def ready_for_def Let_def store_consumer_def store_reconciler_def set_handler_def swap_pool_def forget_reconciler_def split: if_splits)

text \<open>The world after the migrations: they reach the row of \<open>app_config\<close> at most.\<close>

definition migrated :: "platform \<Rightarrow> string \<Rightarrow> 'z app_world_scheme \<Rightarrow> 'z app_world_scheme" where
  "migrated pf db w = snd (run_state (apply_migrations pf db) w)"

lemma apply_migrations_run: "run_state (apply_migrations pf db) w = (migrate_run pf db, migrated pf db w)"
  by (simp add: migrated_def apply_migrations_def)

lemma migrated_failed: "migrate_run pf db = Some err \<Longrightarrow> migrated pf db w = w"
  by (simp add: migrated_def apply_migrations_def)

lemma migrated_config_only: "config_only w (migrated pf db w)"
  by (simp add: migrated_def apply_migrations_def config_only_def)

lemma migrated_config:
  shows "aw_config w = Some j \<Longrightarrow> aw_config (migrated pf db w) = Some j"
    and "aw_config w = None \<Longrightarrow> aw_config (migrated pf db w) \<in> {None, Some (JObj [])}"
  by (simp_all add: migrated_def apply_migrations_def migrated_row_def)

lemma on_config_cases:
  assumes run: "run_state (on_config e pf pub cfg) w = (res, w')"
  obtains (failed) err where "res = Some err" "services_kept w w'"
  | (success) app conns w1 where "res = None" "16 \<le> conns"
      "run_state (import_legacy_app_config e cfg) (migrated pf (cf_database_url cfg) w) = (Inr app, w1)"
      "run_state (install pub (app\<lparr>cf_database_url := cf_database_url cfg\<rparr>) (cf_database_url cfg, conns)) w1 = ((), w')"
proof (cases "p_dsn pf (cf_database_url cfg)")
  case (Inl m)
  with run show ?thesis by (intro failed) (auto simp: on_config_def services_kept_def)
next
  case dsn: (Inr n)
  define conns where "conns = (if n < 16 then 16 else n)"
  have conns: "16 \<le> conns" by (simp add: conns_def)
  show ?thesis
  proof (cases "p_pool pf (cf_database_url cfg) conns")
    case (Some m)
    with run dsn show ?thesis
      by (intro failed) (auto simp: on_config_def services_kept_def Let_def conns_def)
  next
    case pool: None
    show ?thesis
    proof (cases "migrate_run pf (cf_database_url cfg)")
      case (Some err)
      with run dsn pool show ?thesis
        by (intro failed) (auto simp: on_config_def services_kept_def close_pool_def Let_def conns_def apply_migrations_run migrated_failed)
    next
      case migrated: None
      let ?w = "migrated pf (cf_database_url cfg) w"
      obtain imp w1 where imp: "run_state (import_legacy_app_config e cfg) ?w = (imp, w1)" by fastforce
      have kept: "services_kept w w1"
        using config_only_services(1) [OF effect_ofD [OF config_only_store(3) imp]]
          config_only_services(1) [OF migrated_config_only [of w pf "cf_database_url cfg"]] by (simp add: services_kept_def)
      have step: "run_state (on_config e pf pub cfg) w =
        run_state (case imp of
            Inl err \<Rightarrow> do { close_pool (cf_database_url cfg, conns); State_Monad.return (Some (Wrapf ''import app config: '' err [])) }
          | Inr app \<Rightarrow> do { install pub (app\<lparr>cf_database_url := cf_database_url cfg\<rparr>) (cf_database_url cfg, conns); State_Monad.return None }) w1"
        using dsn pool migrated imp unfolding conns_def
        by (simp add: on_config_def Let_def apply_migrations_run split del: if_split)
      show ?thesis
      proof (cases imp)
        case (Inl err)
        with run step kept show ?thesis by (intro failed) (auto simp: services_kept_def close_pool_def)
      next
        case (Inr app)
        obtain u w2 where inst: "run_state (install pub (app\<lparr>cf_database_url := cf_database_url cfg\<rparr>) (cf_database_url cfg, conns)) w1 = (u, w2)"
          by (rule prod.exhaust)
        with run step Inr have "res = None" "w2 = w'" by auto
        with inst imp Inr conns show ?thesis by (intro success) auto
      qed
    qed
  qed
qed

text \<open>The ways \<open>Configure\<close> ends, with the configuration the entries give.\<close>

lemma configure_plugin_cases:
  assumes run: "run_state (configure_plugin e pf pub entries) w = (res, w')"
    and cfg: "cfg = foldl apply_entry zero_config entries"
  obtains (no_database) "cf_database_url cfg = []" "res = None" "w' = w\<lparr>aw_runtime := cfg\<rparr>"
  | (failed) err where "cf_database_url cfg \<noteq> []" "res = Some err" "services_kept w w'"
  | (success) app conns w0 where "cf_database_url cfg \<noteq> []" "res = None" "16 \<le> conns"
      "cf_base_url cfg = [] \<or> validate_base_url (e_ip6 e) (cf_base_url cfg) = None"
      "run_state (import_legacy_app_config e cfg) (migrated pf (cf_database_url cfg) w) = (Inr app, w0)"
      "ready_for pub (app\<lparr>cf_database_url := cf_database_url cfg\<rparr>) w'"
      "pl_pool w' = Some (cf_database_url cfg, conns)" "aw_runtime w' = cfg"
      "pl_closed w' = pl_closed w @ (case pl_pool w of None \<Rightarrow> [] | Some old \<Rightarrow> [old])"
      "w_table w' = w_table w" "w_http w' = w_http w" "w_events w' = w_events w"
proof -
  let ?valid = "if cf_base_url cfg \<noteq> [] then validate_base_url (e_ip6 e) (cf_base_url cfg) else None"
  consider (no_db) "cf_database_url cfg = []"
    | (bad_url) err where "cf_database_url cfg \<noteq> []" "?valid = Some err"
    | (call) "cf_database_url cfg \<noteq> []" "?valid = None"
    by (cases ?valid) auto
  then show thesis
  proof cases
    case no_db
    with run show ?thesis
      by (intro no_database) (simp_all add: configure_plugin_def configure_def cfg [symmetric] Let_def set_runtime_def)
  next
    case bad_url
    then have "res = Some (Wrapf ''base_url: '' err [])" "w' = w"
      using run unfolding configure_plugin_def configure_def cfg [symmetric] Let_def by (auto simp del: if_split)
    then show ?thesis using bad_url(1) by (intro failed) (auto simp: services_kept_def)
  next
    case call
    obtain r1 w1 where cb: "run_state (on_config e pf pub cfg) w = (r1, w1)" by fastforce
    with call have step: "res = r1" "w' = (case r1 of Some err \<Rightarrow> w1 | None \<Rightarrow> w1\<lparr>aw_runtime := cfg\<rparr>)"
      using run unfolding configure_plugin_def configure_def cfg [symmetric] Let_def
      by (auto simp: set_runtime_def simp del: if_split split: option.splits)
    from cb show ?thesis
    proof (cases rule: on_config_cases)
      case (failed err)
      with step call show ?thesis by (intro that(2)) auto
    next
      case (success app conns w0)
      note inst = install_ready [OF success(4)]
      note kept = config_only_services [OF effect_ofD [OF config_only_store(3) success(3)]]
        config_only_services [OF migrated_config_only [of w pf "cf_database_url cfg"]]
      have w': "w' = w1\<lparr>aw_runtime := cfg\<rparr>" using step success(1) by simp
      have res: "res = None" using step success(1) by simp
      have valid: "cf_base_url cfg = [] \<or> validate_base_url (e_ip6 e) (cf_base_url cfg) = None"
        using call(2) by (simp split: if_splits)
      have "ready_for pub (app\<lparr>cf_database_url := cf_database_url cfg\<rparr>) w'"
        using inst(1) unfolding w' by (simp add: ready_for_def)
      moreover have "pl_pool w' = Some (cf_database_url cfg, conns)" "aw_runtime w' = cfg"
        "pl_closed w' = pl_closed w @ (case pl_pool w of None \<Rightarrow> [] | Some old \<Rightarrow> [old])"
        "w_table w' = w_table w" "w_http w' = w_http w" "w_events w' = w_events w"
        using inst kept unfolding w' by (simp_all add: services_kept_def)
      ultimately show ?thesis by (rule that(3) [OF call(1) res success(2) valid success(3)])
    qed
  qed
qed

section \<open>Properties\<close>

text \<open>C4: a configuration is taken over as a whole or not at all. Without a database URL only the
  runtime's copy changes: the services keep running as they were. An error leaves every service,
  the pool and the reconciler's memory as they were. A success, whatever the platform and the
  database did, opened a pool of at least 16 connections, closed the old one, kept a base URL
  that is empty or valid, and put consumer, reconciler, catalog and admin routes on one client
  for one configuration \<open>app\<close> (or none of them, when URL or key is missing) with a reconciler that
  has forgotten back-off and errors. When the calls to the database succeed, \<open>app\<close> is the stored
  configuration, unless that is still the default and the host's is imported.\<close>

theorem configure_all_or_nothing:
  assumes run: "run_state (configure_plugin e pf pub entries) w = (res, w')"
    and cfg: "cfg = foldl apply_entry zero_config entries"
  shows "(cf_database_url cfg = [] \<longrightarrow> res = None \<and> w' = w\<lparr>aw_runtime := cfg\<rparr>) \<and>
    (\<forall>err. res = Some err \<longrightarrow> services_kept w w') \<and>
    (res = None \<and> cf_database_url cfg \<noteq> [] \<longrightarrow>
      (\<exists>app conns. pl_pool w' = Some (cf_database_url cfg, conns) \<and> 16 \<le> conns \<and>
         pl_closed w' = pl_closed w @ (case pl_pool w of None \<Rightarrow> [] | Some old \<Rightarrow> [old]) \<and>
         (cf_base_url cfg = [] \<or> validate_base_url (e_ip6 e) (cf_base_url cfg) = None) \<and>
         aw_runtime w' = cfg \<and> ready_for pub (app\<lparr>cf_database_url := cf_database_url cfg\<rparr>) w' \<and>
         w_table w' = w_table w \<and> w_http w' = w_http w \<and> w_events w' = w_events w \<and>
         (\<forall>c. config_quiet e \<and> aw_config w = Some (config_json c) \<and> cf_database_url c = [] \<and> normalize c = c \<longrightarrow>
            app = (if c = default_app_config then normalize (cfg\<lparr>cf_database_url := []\<rparr>) else c))))"
  using run cfg
proof (rule configure_plugin_cases)
  fix app conns w0
  assume ok: "16 \<le> conns" "cf_base_url cfg = [] \<or> validate_base_url (e_ip6 e) (cf_base_url cfg) = None"
    "ready_for pub (app\<lparr>cf_database_url := cf_database_url cfg\<rparr>) w'" "pl_pool w' = Some (cf_database_url cfg, conns)"
    "aw_runtime w' = cfg" "pl_closed w' = pl_closed w @ (case pl_pool w of None \<Rightarrow> [] | Some old \<Rightarrow> [old])"
    "w_table w' = w_table w" "w_http w' = w_http w" "w_events w' = w_events w"
    and res: "cf_database_url cfg \<noteq> []" "res = None" 
    and imp: "run_state (import_legacy_app_config e cfg) (migrated pf (cf_database_url cfg) w) = (Inr app, w0)"
  have "app = (if c = default_app_config then normalize (cfg\<lparr>cf_database_url := []\<rparr>) else c)"
    if "config_quiet e" "aw_config w = Some (config_json c)" "cf_database_url c = []" "normalize c = c" for c
    by (rule import_legacy_quiet [OF that(1) migrated_config(1) [OF that(2)] that(3,4) imp])
  with ok res show ?thesis by (intro conjI impI exI [of _ app] exI [of _ conns]) auto
qed auto

definition demo_platform :: platform where
  "demo_platform = \<lparr>p_source = None, p_init = (\<lambda>_. None), p_up = (\<lambda>_. ErrNoChange), p_dsn = (\<lambda>_. Inr 4), p_pool = (\<lambda>_ _. None)\<rparr>"

definition demo_entries :: "(string \<times> payload option) list" where
  "demo_entries = [(''database_url'', Some [(''value'', JStr ''postgres://db'')]), (''base_url'', None)]"

lemma demo_entries_config: "foldl apply_entry zero_config demo_entries = zero_config\<lparr>cf_database_url := ''postgres://db''\<rparr>"
  by (simp add: demo_entries_def apply_entry_def string_from_value_def)

theorem configure_all_or_nothing_witness:
  "\<exists>w'. run_state (configure_plugin (demo_env refused) demo_platform \<lparr>pub_host = True\<rparr> demo_entries) (start (demo_world [])) = (None, w') \<and>
     (\<exists>conns. pl_pool w' = Some (''postgres://db'', conns) \<and> 16 \<le> conns)"
proof -
  let ?cfg = "zero_config\<lparr>cf_database_url := ''postgres://db''\<rparr>" and ?w = "start (demo_world [])"
  obtain res w' where run: "run_state (configure_plugin (demo_env refused) demo_platform \<lparr>pub_host = True\<rparr> demo_entries) ?w = (res, w')"
    by fastforce
  have norm: "normalize default_app_config = default_app_config" "normalize zero_config = default_app_config"
    by (simp_all add: normalize_def default_app_config_def zero_config_def)
  have row: "aw_config ?w = None" by (simp add: start_def app_world.extend_def rworld.extend_def)
  have "\<exists>w1. run_state (import_legacy_app_config (demo_env refused) ?cfg) ?w = (Inr default_app_config, w1)"
    using norm row by (simp add: import_legacy_app_config_def get_app_config_def numeral_2_eq_2 run_simps decode_empty_object
        Let_def) (simp add: zero_config_def)
  then have "\<exists>w1. run_state (on_config (demo_env refused) demo_platform \<lparr>pub_host = True\<rparr> ?cfg) ?w = (None, w1)"
    by (auto simp: on_config_def demo_platform_def migrate_run_def apply_migrations_def Let_def split: prod.splits)
  then have "res = None"
    using run unfolding configure_plugin_def configure_def demo_entries_config Let_def
    by (auto simp: zero_config_def set_runtime_def)
  with configure_all_or_nothing [OF run refl] run show ?thesis
    unfolding demo_entries_config by auto
qed

text \<open>Below an accepted base URL no path leads to another host.\<close>

lemma base_url_keeps_requests:
  assumes valid: "validate_base_url ip6 base = None" and path: "has_prefix path ''/''"
    and url: "url = cl_base (new_client base key) @ path"
  shows "\<exists>u. parse_url ip6 base = Some u \<and> u_scheme u \<in> {''http'', ''https''} \<and> u_host u \<noteq> [] \<and>
     (\<forall>v. parse_url ip6 url = Some v \<longrightarrow> u_scheme v = u_scheme u \<and> u_host v = u_host u)"
proof -
  from valid obtain u where u: "parse_url ip6 base = Some u" "u_scheme u \<in> {''http'', ''https''}" "u_host u \<noteq> []"
    by (auto simp: validate_base_url_def split: option.splits if_splits)
  have url: "url = trim_right_char (CHR ''/'') base @ path" using url by (simp add: new_client_def)
  have "u_scheme u \<noteq> []" using u(2) by auto
  note same = base_url_keeps_host [OF u(1,3) this path, folded url]
  have "\<forall>v. parse_url ip6 url = Some v \<longrightarrow> u_scheme v = u_scheme u \<and> u_host v = u_host u"
    by (intro allI impI conjI) (erule same(2), erule same(1))
  with u show ?thesis by blast
qed

end
