(* ===== verification/Handler_Effects.thy ===== *)
theory Handler_Effects
  imports Admin_Routes Http_Routes
begin

text \<open>
  What the HTTP handlers have in common. They read the clock and the database and send requests
  to the upstream; a relation on worlds that allows those steps holds across every handler that
  does nothing else, and what remains are the few handlers that write. The relations are the
  arguments of two locales; the interpretations follow where the relations are defined.
\<close>

section \<open>Requests to the upstream\<close>

definition to_client :: "client \<Rightarrow> http_request \<Rightarrow> bool" where
  "to_client c q \<longleftrightarrow>
     (\<exists>path. has_prefix path ''/'' \<and> rq_url q = cl_base c @ path) \<and> map_of (rq_headers q) (canonical_header ''X-API-Key'') = Some (cl_key c)"

text \<open>Whether \<open>ok\<close> holds of what the client sends with a method.\<close>

definition client_may :: "(http_request \<Rightarrow> bool) \<Rightarrow> string \<Rightarrow> client \<Rightarrow> bool" where
  "client_may ok m c \<longleftrightarrow> (\<forall>q. to_client c q \<and> rq_method q = m \<longrightarrow> ok q)"

lemma rooted [simp]: "has_prefix (CHR ''/'' # s) ''/''"
  by (simp add: has_prefix_def)

lemma rworld_more_of: "world.more w' = world.more w \<Longrightarrow> rworld.more w' = rworld.more w"
  by (cases w; cases w') simp

section \<open>Steps of a handler\<close>

text \<open>
  \<open>reads\<close>: a step that at most lets the other goroutines write; \<open>sends\<close>: a request for which \<open>ok\<close>
  holds. \<open>lawful\<close> is what the relation needs of the environment.
\<close>

locale handler_effect = effect R
  for R :: "'z rworld_scheme \<Rightarrow> 'z rworld_scheme \<Rightarrow> bool" +
  fixes lawful :: "env \<Rightarrow> bool" and ok :: "http_request \<Rightarrow> bool"
  assumes reads: "w_table w' = w_table w \<or> (\<exists>e k. lawful e \<and> w_table w' = run_stmts (e_others e k) (w_table w)) \<Longrightarrow>
      backend_only w w' \<Longrightarrow> R w w'"
    and sends: "ok q \<Longrightarrow> w_table w' = w_table w \<Longrightarrow> w_events w' = w_events w \<Longrightarrow> world.more w' = world.more w \<Longrightarrow>
      w_http w' = w_http w @ [q] \<Longrightarrow> R w w'"
begin

lemma reads_clock [effect_intros]:
  "effect_of R (now e)" "effect_of R (with_timeout e cx d)" "effect_of R (ctx_done e cx)"
proof -
  show now: "effect_of R (now e)" by (rule effect_ofI) (auto simp: now_def backend_only_def intro: reads)
  show "effect_of R (with_timeout e cx d)" unfolding with_timeout_def by (intro effect_rules now)
  have ctx: "effect_of R (State (\<lambda>w. (f w, w\<lparr>w_ctx := Suc (w_ctx w)\<rparr>)))" for f :: "'z rworld_scheme \<Rightarrow> 'b"
    by (rule effect_ofI) (auto simp: backend_only_def intro: reads)
  show "effect_of R (ctx_done e cx)" unfolding ctx_done_def by (intro effect_rules now ctx)
qed

lemma reads_db [effect_intros]:
  assumes "lawful e"
  shows "effect_of R (db_query e q)" and "effect_of R (db_query_row e f)"
  by (rule effect_ofI, rule reads,
      use assms in \<open>auto simp: db_query_def db_query_row_def Let_def backend_only_def split: db_outcome.splits\<close>)+

lemma sends_http_do: "ok r \<Longrightarrow> effect_of R (http_do e r)"
  by (rule effect_ofI)
    (auto simp: http_do_def backend_only_def split: http_result.splits intro: reads sends)

lemma reads_response [effect_intros]: "effect_of R (read_response e res)"
  unfolding read_response_def parse_retry_after_def
  by (cases res) (auto simp: Let_def split: option.splits intro!: effect_rules effect_intros)

lemma sends_client [effect_intros]:
  assumes "has_prefix path ''/''"
  shows "client_may ok ''GET'' c \<Longrightarrow> effect_of R (client_get e c cx path)"
    and "client_may ok ''GET'' c \<Longrightarrow> effect_of R (get_stream_with_range e c cx path rng)"
    and "client_may ok ''POST'' c \<Longrightarrow> effect_of R (post_json e c cx path b)"
proof -
  have good: "ok r" if "client_may ok m c" "rq_method r = m" "rq_url r = cl_base c @ path"
      "map_of (rq_headers r) (canonical_header ''X-API-Key'') = Some (cl_key c)" for r m
    using assms that by (auto simp: client_may_def to_client_def)
  show "effect_of R (client_get e c cx path)" if "client_may ok ''GET'' c"
    unfolding client_get_def by (intro effect_rules effect_intros sends_http_do good [OF that]) simp_all
  show "effect_of R (get_stream_with_range e c cx path rng)" if "client_may ok ''GET'' c"
    unfolding get_stream_with_range_def by (intro effect_rules effect_intros sends_http_do good [OF that]) simp_all
  show "effect_of R (post_json e c cx path b)" if "client_may ok ''POST'' c"
    unfolding post_json_def by (intro effect_rules effect_intros sends_http_do good [OF that]) simp_all
qed

lemma sends_gets [effect_intros]:
  assumes "client_may ok ''GET'' c"
  shows "effect_of R (ping e c cx)" and "effect_of R (get_monitoring e c cx i)" and "effect_of R (list_books e c cx p)"
    and "effect_of R (get_book e c cx i)" and "effect_of R (external_search e c cx q n)"
    and "has_prefix path ''/'' \<Longrightarrow> effect_of R (get_stream e c cx path)"
  unfolding ping_def get_monitoring_def list_books_def get_book_def external_search_def get_stream_def
  by ((intro effect_rules effect_intros assms); simp add: list_path_def search_path_def)+

lemma sends_add [effect_intros]: "client_may ok ''POST'' c \<Longrightarrow> effect_of R (add_monitoring e c cx r)"
  unfolding add_monitoring_def by ((intro effect_rules effect_intros); simp)

section \<open>The catalog\<close>

lemma catalog_handlers [effect_intros]:
  assumes "client_may ok ''GET'' c"
  shows "effect_of R (catalog_list e c cx r)" and "effect_of R (catalog_search e c cx r)"
    and "effect_of R (catalog_detail e c cx i)" and "effect_of R (catalog_cover e c cx i s)"
    and "effect_of R (catalog_file e c cx i r)" and "effect_of R (catalog_external_search e c cx r)"
    and "effect_of R (request_snapshot e c cx i)"
  unfolding catalog_list_def catalog_search_def catalog_detail_def catalog_cover_def catalog_file_def
    catalog_external_search_def request_snapshot_def Let_def
  by ((intro effect_rules effect_intros assms); simp)+

lemma catalog_route_effect:
  "catalog_route e c cx rt r = Some m \<Longrightarrow> client_may ok ''GET'' c \<Longrightarrow> effect_of R m"
  by (auto simp: catalog_route_def split: route.splits intro: effect_intros)

section \<open>The admin routes that only look\<close>

lemma store_reads [effect_intros]:
  assumes "lawful e"
  shows "effect_of R (list_requests e st s n k)" and "effect_of R (list_stuck e th n)"
    and "effect_of R (request_stats_of e)" and "effect_of R (list_non_terminal e n)"
  unfolding list_requests_def list_stuck_def request_stats_of_def list_non_terminal_def
  by (intro effect_rules effect_intros assms)+

lemma admin_reads [effect_intros]:
  assumes "lawful e" and "\<And>c. sd_client d = Some c \<Longrightarrow> client_may ok ''GET'' c"
  shows "effect_of R (handle_list_requests e d r)" and "effect_of R (handle_list_stuck_requests e d)"
    and "effect_of R (handle_reconciler_status e d)" and "effect_of R (handle_diagnostics e d cx)"
    and "effect_of R (handle_test_search e d cx r)"
proof -
  have fetch: "effect_of R last_status" by (rule effect_ofI) (auto simp: last_status_def effect_refl)
  have ping: "effect_of R (ping_pool e)" by (rule effect_ofI) (auto simp: ping_pool_def backend_only_def intro: reads)
  note rules = effect_rules effect_intros assms fetch ping
  show "effect_of R (handle_list_requests e d r)" "effect_of R (handle_list_stuck_requests e d)"
    "effect_of R (handle_reconciler_status e d)" "effect_of R (handle_diagnostics e d cx)"
    "effect_of R (handle_test_search e d cx r)"
    unfolding handle_list_requests_def handle_list_stuck_requests_def handle_reconciler_status_def handle_diagnostics_def
      handle_test_search_def since_def
    by (intro rules; assumption?)+
qed

end

section \<open>Routes\<close>

text \<open>On a world with a configuration: what reading the configuration does is a law of its own.\<close>

locale route_effect = handler_effect R lawful ok
  for R :: "'z app_world_scheme \<Rightarrow> 'z app_world_scheme \<Rightarrow> bool" and lawful ok +
  assumes config_read: "lawful e \<Longrightarrow> effect_of R (get_app_config e)"
begin

text \<open>The handlers that write are the premises.\<close>

lemma serve_route_effect:
  assumes "lawful e" and clients: "\<And>c. sd_client d = Some c \<Longrightarrow> client_may ok ''GET'' c"
    and "rt = UpdateConfig \<Longrightarrow> effect_of R (handle_update_config e d r)"
    and "\<And>i. rt = RetryRoute i \<Longrightarrow> effect_of R (handle_retry_request e d i)"
    and "\<And>i. rt = MarkFailedRoute i \<Longrightarrow> effect_of R (handle_mark_failed_request e d i r)"
    and "rt = ReconcilerRun \<Longrightarrow> effect_of R (handle_reconciler_run e d)"
  shows "effect_of R (serve_route e page d cx rt r)"
proof -
  have config: "effect_of R (handle_get_config e d)"
    unfolding handle_get_config_def by (intro effect_rules config_read assms(1))
  have mounted: "effect_of R
      (case sd_client d of None \<Rightarrow> State_Monad.return not_found_page
       | Some c \<Rightarrow> (case catalog_route e c cx rt r of None \<Rightarrow> State_Monad.return not_found_page | Some m \<Rightarrow> m))"
    by (intro effect_rules) (blast intro: catalog_route_effect clients)
  show ?thesis
    using mounted assms(3-)
    by (cases rt) (auto simp: serve_route_def intro!: effect_return config admin_reads [OF assms(1) clients])
qed

lemma serve_http_effect:
  assumes "\<And>pat ps f. chi (map fst (route_table d)) r = Inr (pat, ps) \<Longrightarrow> map_of (route_table d) pat = Some f \<Longrightarrow>
      effect_of R (serve_route e page d cx (f ps) r)"
  shows "effect_of R (serve_http e page chi d cx r)"
  unfolding serve_http_def by (intro effect_rules) (use assms in auto)

text \<open>The route adapter around the router.\<close>

lemma handle_http_effect:
  assumes "\<And>r. http_request_of ip6 req = Some r \<Longrightarrow> effect_of R (serve_http e page chi d cx r)"
  shows "effect_of R (handle ip6 (Some (\<lambda>r. do { out \<leftarrow> serve_http e page chi d cx r; State_Monad.return (Some out) })) req)"
  by (intro effect_handle) (auto intro!: effect_bind effect_return assms)

end

end
