(* ===== verification/Plugin_System.thy ===== *)
theory Plugin_System
  imports Lifecycle Plugin_Main Handler_Effects
begin

text \<open>
  The plugin as the host sees it: configuration, events, scheduled tasks and HTTP requests in any
  order, each against the services that are in force when it arrives. What every call may do is
  one effect, carried through all handlers: statements of the life cycle on the table, requests
  to the client in force only, and no change of the services.
\<close>

section \<open>What a call may do\<close>

definition served :: "bool \<Rightarrow> (http_request \<Rightarrow> bool) \<Rightarrow> 'z rworld_scheme \<Rightarrow> 'z rworld_scheme \<Rightarrow> bool" where
  "served a ok w w' \<longleftrightarrow>
     (sane_table (w_table w) \<longrightarrow> table_path (allowed a) (w_table w) (w_table w')) \<and>
     (\<exists>qs. w_http w' = w_http w @ qs \<and> list_all ok qs) \<and> rworld.more w' = rworld.more w"

interpretation served_effect: handler_effect "served a ok" "others_do (allowed a)" ok
proof
  fix u v w :: "'z rworld_scheme"
  show "served a ok w w" by (auto simp: served_def)
  assume "served a ok u v" "served a ok v w"
  then show "served a ok u w"
    unfolding served_def by (fastforce intro: table_path_trans path_sane)
next
  fix w w' :: "'z rworld_scheme"
  assume "w_table w' = w_table w \<or> (\<exists>e k. others_do (allowed a) e \<and> w_table w' = run_stmts (e_others e k) (w_table w))" "backend_only w w'"
  then show "served a ok w w'"
    by (auto simp: served_def backend_only_def intro: rworld_more_of table_path_others)
next
  fix w w' :: "'z rworld_scheme" and q
  assume "ok q" "w_table w' = w_table w" "world.more w' = world.more w" "w_http w' = w_http w @ [q]"
  then show "served a ok w w'" by (auto simp: served_def intro: rworld_more_of)
qed

lemma served_emit [effect_intros]: "effect_of (served a ok) (emit name pl)"
  by (rule effect_ofI) (auto simp: served_def emit_def intro: rworld_more_of)

lemma served_exec [effect_intros]:
  "others_do (allowed a) e \<Longrightarrow> allowed a s \<Longrightarrow> effect_of (served a ok) (db_exec e s)"
  by (rule effect_ofI, auto simp: served_def db_exec_def Let_def split: db_outcome.splits prod.splits
      intro: rworld_more_of table_path_others table_path_trans table_path_exec_eq)

text \<open>All calls of a client.\<close>

definition client_allowed :: "client \<Rightarrow> (http_request \<Rightarrow> bool) \<Rightarrow> bool" where
  "client_allowed c ok \<longleftrightarrow> (\<forall>q. to_client c q \<longrightarrow> ok q)"

lemma client_allowed_may: "client_allowed c ok \<Longrightarrow> client_may ok m c"
  by (simp add: client_allowed_def client_may_def)

text \<open>The store, for the admin routes.\<close>

lemma served_store [effect_intros]:
  assumes "others_do (allowed a) e" and a
  shows "effect_of (served a ok) (retry_request e rid)" and "effect_of (served a ok) (mark_failed_manually e rid reason)"
  unfolding retry_request_def mark_failed_manually_def
  by ((intro served_effect.effect_rules effect_intros assms); simp add: allowed_def assms)+

lemma served_write:
  assumes "others_do (allowed a) e"
  shows "(\<And>upd. request_id r \<noteq> [] \<Longrightarrow> allowed a (upsert_stmt r upd)) \<Longrightarrow> effect_of (served a ok) (upsert_forwarded_request e r)"
    and "(\<And>t'. rid \<noteq> [] \<Longrightarrow> allowed a (MarkPolled rid (opt_string ext) st t')) \<Longrightarrow> effect_of (served a ok) (mark_polled e rid ext st t)"
  unfolding upsert_forwarded_request_def mark_polled_def stamp_def
  by (intro served_effect.effect_rules effect_intros assms; simp)+

text \<open>The consumer.\<close>

lemma served_publish [effect_intros]:
  "effect_of (served a ok) (publish_event p name pl)" "effect_of (served a ok) (publish pub name pl)"
  unfolding publish_def publish_event_def by (intro served_effect.effect_rules effect_intros)+

lemma served_handle_event:
  assumes "others_do (allowed a) e" and "\<And>d c. df = Some (Some d) \<Longrightarrow> cd_ebk d = Some c \<Longrightarrow> client_allowed c ok"
  shows "effect_of (served a ok) (handle_event e df cx ev)"
  unfolding handle_event_def forward_request_def reject_request_def record_failure_def record_acknowledged_def
  by (intro served_effect.effect_rules effect_intros served_write allowed_upsert_record client_allowed_may;
      (simp add: assms split: if_splits)?)

text \<open>The reconciler. What it writes is read from the table first, so the table part is the path of
  the whole tick.\<close>

definition memory_only :: "(http_request \<Rightarrow> bool) \<Rightarrow> 'z rworld_scheme \<Rightarrow> 'z rworld_scheme \<Rightarrow> bool" where
  "memory_only ok w w' \<longleftrightarrow> (\<exists>qs. w_http w' = w_http w @ qs \<and> list_all ok qs) \<and> rworld.more w' = rworld.more w"

interpretation memory_only_effect: effect "memory_only ok"
  by unfold_locales (fastforce simp: memory_only_def)+

lemma served_memory_only: "effect_of (served a ok) m \<Longrightarrow> effect_of (memory_only ok) m"
  by (erule effect_of_mono) (simp add: served_def memory_only_def)

lemma memory_only_backend: "effect_of backend_only m \<Longrightarrow> effect_of (memory_only ok) m"
  by (erule effect_of_mono) (auto simp: backend_only_def memory_only_def intro: rworld_more_of)

lemma memory_only_reconciler [effect_intros]:
  "effect_of (memory_only ok) (set_status s)" "effect_of (memory_only ok) (record_error_changed rid msg)"
  "effect_of (memory_only ok) (clear_error rid)" "effect_of (memory_only ok) (set_backoff e dur)"
  "effect_of (memory_only ok) (backoff_remaining e)" "effect_of (memory_only ok) try_lock" "effect_of (memory_only ok) unlock"
  "effect_of (memory_only ok) (since e t)"
  by (rule effect_ofI, auto simp: set_status_def record_error_changed_def clear_error_def set_backoff_def
      backoff_remaining_def try_lock_def unlock_def since_def now_run Let_def memory_only_def intro: rworld_more_of)+

lemmas memory_only_parts = backend_only_store [THEN memory_only_backend]
  served_effect.reads_clock [where a = True, THEN served_memory_only] served_publish [where a = True, THEN served_memory_only]

lemma memory_only_tick_rows:
  assumes "client_allowed (rd_ebk d) ok"
  shows "effect_of (memory_only ok) (tick_rows e d cx fe rows)"
proof (induction rows arbitrary: fe)
  case (Cons row rows)
  have get: "effect_of (memory_only ok) (get_monitoring e (rd_ebk d) rcx i)" for rcx i
    by (rule served_memory_only [where a = True]) (intro effect_intros client_allowed_may assms)
  show ?case
    unfolding tick_rows.simps poll_row_def poll_failed_def poll_answered_def save_error_def Let_def
    by (intro memory_only_effect.effect_rules effect_intros memory_only_parts get Cons)
qed (simp add: memory_only_effect.effect_return)

lemma memory_only_tick: "client_allowed (rd_ebk d) ok \<Longrightarrow> effect_of (memory_only ok) (tick e d cx)"
  unfolding tick_def tick_locked_def
  by (intro memory_only_effect.effect_rules effect_intros memory_only_parts memory_only_tick_rows)

lemma served_tick [effect_intros]:
  assumes "others_do (allowed a) e" and "client_allowed (rd_ebk d) ok"
  shows "effect_of (served a ok) (tick e d cx)"
proof -
  note memory_only_tick [OF assms(2), of e cx]
  with tick_path [OF assms(1), of _ d cx] show ?thesis
    by (intro effect_ofI) (auto simp: effect_of_def served_def memory_only_def)
qed

section \<open>The admin routes\<close>

text \<open>The calls on the configuration row are not those of the world below it; a call of the host
  may use both.\<close>

definition hosted :: "bool \<Rightarrow> (http_request \<Rightarrow> bool) \<Rightarrow> 'z plugin_world_scheme \<Rightarrow> 'z plugin_world_scheme \<Rightarrow> bool" where
  "hosted a ok w w' \<longleftrightarrow>
     (sane_table (w_table w) \<longrightarrow> table_path (allowed a) (w_table w) (w_table w')) \<and>
     (\<exists>qs. w_http w' = w_http w @ qs \<and> list_all ok qs) \<and> aw_runtime w' = aw_runtime w \<and> plugin_world.more w' = plugin_world.more w \<and>
     pl_pool w' = pl_pool w \<and> pl_closed w' = pl_closed w \<and> pl_consumer w' = pl_consumer w \<and>
     pl_reconciler w' = pl_reconciler w \<and> pl_server w' = pl_server w"

interpretation hosted_effect: effect "hosted a ok"
proof
  fix u v w :: "'z plugin_world_scheme"
  show "hosted a ok w w" by (auto simp: hosted_def)
  assume "hosted a ok u v" "hosted a ok v w"
  then show "hosted a ok u w"
    unfolding hosted_def by (fastforce intro: table_path_trans path_sane)
qed

lemma served_hosted_world:
  fixes w w' :: "'z plugin_world_scheme"
  assumes "served a ok w w'"
  shows "hosted a ok w w'"
proof -
  from assms have "rworld.more w' = rworld.more w" by (simp add: served_def)
  then have "aw_runtime w' = aw_runtime w \<and> plugin_world.more w' = plugin_world.more w \<and>
     pl_pool w' = pl_pool w \<and> pl_closed w' = pl_closed w \<and> pl_consumer w' = pl_consumer w \<and>
     pl_reconciler w' = pl_reconciler w \<and> pl_server w' = pl_server w"
    by (cases w; cases w') simp
  with assms show ?thesis by (simp add: served_def hosted_def)
qed

lemma served_hosted: "effect_of (served a ok) m \<Longrightarrow> effect_of (hosted a ok) m"
  by (erule effect_of_mono) (rule served_hosted_world)

lemma config_hosted: "effect_of config_only m \<Longrightarrow> effect_of (hosted a ok) m"
proof (erule effect_of_mono)
  fix w w' :: "'z plugin_world_scheme"
  assume s: "config_only w w'"
  then have "app_world.more w' = app_world.more w" by (simp add: config_only_def)
  then have "plugin_world.more w' = plugin_world.more w" by (cases w; cases w') simp
  with s config_only_services [OF s] show "hosted a ok w w'" by (simp add: config_only_def hosted_def services_kept_def)
qed


interpretation hosted_routes: route_effect "hosted a ok" "others_do (allowed a)" ok
proof
  fix w w' :: "'z plugin_world_scheme"
  assume "w_table w' = w_table w \<or> (\<exists>e k. others_do (allowed a) e \<and> w_table w' = run_stmts (e_others e k) (w_table w))" "backend_only w w'"
  then show "hosted a ok w w'" by (intro served_hosted_world served_effect.reads)
next
  fix w w' :: "'z plugin_world_scheme" and q
  assume "ok q" "w_table w' = w_table w" "w_events w' = w_events w" "world.more w' = world.more w" "w_http w' = w_http w @ [q]"
  then show "hosted a ok w w'" by (intro served_hosted_world served_effect.sends)
next
  fix e :: env
  show "effect_of (hosted a ok) (get_app_config e)" by (intro config_hosted config_only_store)
qed

text \<open>The host keeps the two routes that act on a request from being called.\<close>

definition no_admin_routes :: "chi \<Rightarrow> bool" where
  "no_admin_routes chi \<longleftrightarrow>
     (\<forall>pats r pat ps. chi pats r = Inr (pat, ps) \<longrightarrow>
        pat \<notin> {(''POST'', ''/api/v1/admin/requests/{id}/retry''), (''POST'', ''/api/v1/admin/requests/{id}/mark-failed'')})"

lemma hosted_serve_route:
  assumes "others_do (allowed a) e" and "a \<or> (\<forall>i. rt \<noteq> RetryRoute i \<and> rt \<noteq> MarkFailedRoute i)"
    and "\<And>c. sd_client d = Some c \<Longrightarrow> client_allowed c ok" "\<And>rc. sd_reconciler d = Some rc \<Longrightarrow> client_allowed (rd_ebk rc) ok"
  shows "effect_of (hosted a ok) (serve_route e page d cx rt r)"
proof (rule hosted_routes.serve_route_effect [OF assms(1)])
  show "client_may ok ''GET'' c" if "sd_client d = Some c" for c by (intro client_allowed_may assms(3) that)
  show "effect_of (hosted a ok) (handle_update_config e d r)"
    unfolding handle_update_config_def Let_def
    by (intro hosted_effect.effect_rules config_only_store [THEN config_hosted])
  show "effect_of (hosted a ok) (handle_reconciler_run e d)"
    unfolding handle_reconciler_run_def
    by (intro served_hosted served_effect.effect_rules effect_intros assms(1,4); assumption?)
  show "effect_of (hosted a ok) (handle_retry_request e d i)" if "rt = RetryRoute i" for i
    unfolding handle_retry_request_def
    by (intro served_hosted served_effect.effect_rules effect_intros assms(1)) (use that assms(2) in auto)
  show "effect_of (hosted a ok) (handle_mark_failed_request e d i r)" if "rt = MarkFailedRoute i" for i
    unfolding handle_mark_failed_request_def
    by (intro served_hosted served_effect.effect_rules effect_intros assms(1)) (use that assms(2) in auto)
qed

lemma hosted_serve_http:
  assumes "others_do (allowed a) e" and "a \<or> no_admin_routes chi"
    and "\<And>c. sd_client d = Some c \<Longrightarrow> client_allowed c ok" "\<And>rc. sd_reconciler d = Some rc \<Longrightarrow> client_allowed (rd_ebk rc) ok"
  shows "effect_of (hosted a ok) (serve_http e page chi d cx r)"
proof -
  have route: "a \<or> (\<forall>i. f ps \<noteq> RetryRoute i \<and> f ps \<noteq> MarkFailedRoute i)"
    if "chi (map fst (route_table d)) r = Inr (pat, ps)" "map_of (route_table d) pat = Some f" for pat ps f
  proof (cases a)
    case False
    with assms(2) that(1) have "pat \<notin> {(''POST'', ''/api/v1/admin/requests/{id}/retry''), (''POST'', ''/api/v1/admin/requests/{id}/mark-failed'')}"
      unfolding no_admin_routes_def by blast
    moreover have "((fst pat, snd pat), f) \<in> set (route_table d)" using map_of_SomeD [OF that(2)] by simp
    ultimately show ?thesis using route_table_admin by (metis prod.collapse)
  qed simp
  show ?thesis
    by (intro hosted_routes.serve_http_effect hosted_serve_route assms(1,3,4)) (use route in auto)
qed

section \<open>The calls of the host\<close>

text \<open>Whether the services are those of one configuration.\<close>

definition services_agree :: "'z plugin_world_scheme \<Rightarrow> bool" where
  "services_agree w \<longleftrightarrow>
     (pl_pool w = None \<longleftrightarrow> \<not> sd_store (pl_server w)) \<and>
     sd_reconciler (pl_server w) = pl_reconciler w \<and>
     (case sd_client (pl_server w) of
        None \<Rightarrow> pl_consumer w = None \<and> pl_reconciler w = None
      | Some c \<Rightarrow>
          provider_configured (sd_config (pl_server w)) \<and> pl_pool w \<noteq> None \<and>
          c = new_client (cf_base_url (sd_config (pl_server w))) (cf_api_key (sd_config (pl_server w))) \<and>
          (\<exists>pub. pl_consumer w = Some \<lparr>cd_store = True, cd_pub = Some pub, cd_ebk = Some c, cd_plugin = plugin_id\<rparr> \<and>
             pl_reconciler w = Some \<lparr>rd_pub = pub, rd_ebk = c, rd_plugin = plugin_id\<rparr>))"

text \<open>The requests a call may send: those to the client in force.\<close>

definition to_service :: "'z plugin_world_scheme \<Rightarrow> http_request \<Rightarrow> bool" where
  "to_service w q \<longleftrightarrow> (\<exists>c. sd_client (pl_server w) = Some c \<and> to_client c q)"

lemma agreeing_clients:
  assumes "services_agree w"
  shows "sd_client (pl_server w) = Some c \<Longrightarrow> client_allowed c (to_service w)"
    and "sd_reconciler (pl_server w) = Some rc \<Longrightarrow> client_allowed (rd_ebk rc) (to_service w)"
    and "pl_reconciler w = Some rc \<Longrightarrow> client_allowed (rd_ebk rc) (to_service w)"
    and "pl_consumer w = Some d \<Longrightarrow> cd_ebk d = Some c \<Longrightarrow> client_allowed c (to_service w)"
  using assms by (auto simp: services_agree_def to_service_def client_allowed_def split: option.splits)

lemma hosted_calls:
  fixes w :: "'z plugin_world_scheme"
  assumes "others_do (allowed a) e" and "services_agree w"
  shows "hosted a (to_service w) w (snd (run_state (host_event e cx ev) w))"
    and "hosted a (to_service w) w (snd (run_state (host_task e cx key) w))"
    and "a \<or> no_admin_routes chi \<Longrightarrow> hosted a (to_service w) w (snd (run_state (host_http e page chi cx req) w))"
proof -
  note clients = agreeing_clients [OF assms(2)]
  have "effect_of (hosted a (to_service w) :: 'z plugin_world_scheme \<Rightarrow> _) (handle_event e (Some (pl_consumer w)) cx ev)"
    by (intro served_hosted served_handle_event assms(1)) (use clients(4) in auto)
  then show "hosted a (to_service w) w (snd (run_state (host_event e cx ev) w))"
    by (simp add: host_event_def effect_of_def)
  have "effect_of (hosted a (to_service w) :: 'z plugin_world_scheme \<Rightarrow> _) (run_task e (pl_reconciler w) cx key)"
    unfolding run_task_def
    by (intro served_hosted served_effect.effect_rules effect_intros assms(1)) (use clients(3) in auto)
  then show "hosted a (to_service w) w (snd (run_state (host_task e cx key) w))"
    by (simp add: host_task_def effect_of_def)
  assume "a \<or> no_admin_routes chi"
  then have "effect_of (hosted a (to_service w) :: 'z plugin_world_scheme \<Rightarrow> _) (handle (e_ip6 e)
       (Some (\<lambda>r. do { out \<leftarrow> serve_http e page chi (pl_server w) cx r; State_Monad.return (Some out) })) req)"
    by (intro hosted_routes.handle_http_effect hosted_serve_http assms(1)) (use clients in auto)
  then show "hosted a (to_service w) w (snd (run_state (host_http e page chi cx req) w))"
    by (simp add: host_http_def effect_of_def)
qed


section \<open>The system\<close>

text \<open>A new process: what was in memory is gone, the database is as it was.\<close>

definition restart :: "plugin_world \<Rightarrow> plugin_world" where
  "restart w = (start (world.truncate w))\<lparr>aw_config := aw_config w\<rparr>"

text \<open>
  One step is a new process or one call of the host, in any environment whose other statements
  are of the same kind. The flag says whether the router serves the admin actions, and \<open>law\<close> what
  is known of the environments.
\<close>

inductive plugin_step :: "bool \<Rightarrow> (env \<Rightarrow> bool) \<Rightarrow> plugin_world \<Rightarrow> plugin_world \<Rightarrow> bool" for admin law where
  restart: "plugin_step admin law w (restart w)"
| configure: "law e \<Longrightarrow> plugin_step admin law w (snd (run_state (configure_plugin e pf pub entries) w))"
| event: "law e \<Longrightarrow> others_do (allowed admin) e \<Longrightarrow> plugin_step admin law w (snd (run_state (host_event e cx ev) w))"
| task: "law e \<Longrightarrow> others_do (allowed admin) e \<Longrightarrow> plugin_step admin law w (snd (run_state (host_task e cx key) w))"
| http: "law e \<Longrightarrow> others_do (allowed admin) e \<Longrightarrow> admin \<or> no_admin_routes chi \<Longrightarrow>
    plugin_step admin law w (snd (run_state (host_http e page chi cx req) w))"

definition plugin_runs :: "bool \<Rightarrow> (env \<Rightarrow> bool) \<Rightarrow> plugin_world \<Rightarrow> plugin_world \<Rightarrow> bool" where
  "plugin_runs admin law = (plugin_step admin law)\<^sup>*\<^sup>*"

lemma services_agree_start [simp]: "services_agree (start w)"
  by (simp add: services_agree_def start_def app_world.extend_def rworld.extend_def unconfigured_server_def)

lemma start_world [simp]: "w_table (start w) = w_table w" "w_http (start w) = w_http w" "w_events (start w) = w_events w"
  by (simp_all add: start_def app_world.extend_def rworld.extend_def new_reconciler_def world.extend_def)

lemma agree_cong:
  "pl_pool w' = pl_pool w \<Longrightarrow> pl_consumer w' = pl_consumer w \<Longrightarrow> pl_reconciler w' = pl_reconciler w \<Longrightarrow>
   pl_server w' = pl_server w \<Longrightarrow> services_agree w' \<longleftrightarrow> services_agree w"
  by (simp add: services_agree_def cong: option.case_cong)

lemma restart_world [simp]: "w_table (restart w) = w_table w" "services_agree (restart w)"
proof -
  show "w_table (restart w) = w_table w" by (simp add: restart_def world.truncate_def)
  show "services_agree (restart w)"
    using agree_cong [of "restart w" "start (world.truncate w)"] by (simp add: restart_def)
qed

lemma ready_agree:
  assumes "ready_for pub cfg w" and "pl_pool w = Some pool"
  shows "services_agree w"
  using assms by (auto simp: ready_for_def services_agree_def Let_def split: if_splits)

lemma configure_plugin_step:
  fixes w :: "'z plugin_world_scheme"
  assumes run: "run_state (configure_plugin e pf pub entries) w = (res, w')" and agree: "services_agree w"
  shows "w_table w' = w_table w \<and> services_agree w'"
proof (rule configure_plugin_cases [OF run refl])
  assume "w' = w\<lparr>aw_runtime := foldl apply_entry zero_config entries\<rparr>"
  then show ?thesis using agree agree_cong [of w' w] by simp
next
  fix err assume "services_kept w w'"
  then show ?thesis using agree agree_cong [of w' w] by (simp add: services_kept_def)
qed (auto intro: ready_agree)

lemma hosted_agree: "hosted a ok w w' \<Longrightarrow> services_agree w' \<longleftrightarrow> services_agree w"
  by (rule agree_cong) (simp_all add: hosted_def)

lemma hosted_path:
  "hosted a ok w w' \<Longrightarrow> services_agree w \<Longrightarrow>
   services_agree w' \<and> (sane_table (w_table w) \<longrightarrow> table_path (allowed a) (w_table w) (w_table w'))"
  by (simp add: hosted_agree [of a ok w w']) (simp add: hosted_def)

lemma plugin_step_path:
  assumes "plugin_step admin law w w'" and "services_agree w"
  shows "services_agree w' \<and> (sane_table (w_table w) \<longrightarrow> table_path (allowed admin) (w_table w) (w_table w'))"
  using assms(1)
proof cases
  case restart
  then show ?thesis by simp
next
  case (configure e pf pub entries)
  then show ?thesis using configure_plugin_step [OF _ assms(2)] by (metis prod.collapse table_path_refl)
next
  case (event e cx ev)
  then show ?thesis using hosted_path [OF hosted_calls(1) assms(2)] assms(2) by simp
next
  case (task e cx key)
  then show ?thesis using hosted_path [OF hosted_calls(2) assms(2)] assms(2) by simp
next
  case (http e chi page cx req)
  then show ?thesis using hosted_path [OF hosted_calls(3) assms(2)] assms(2) by simp
qed

lemma plugin_runs_path:
  assumes "plugin_runs admin law w w'" and "services_agree w"
  shows "services_agree w' \<and> (sane_table (w_table w) \<longrightarrow> table_path (allowed admin) (w_table w) (w_table w'))"
  using assms(1) unfolding plugin_runs_def
proof (induction rule: rtranclp_induct)
  case (step u v)
  from plugin_step_path [OF step.hyps(2)] step.IH show ?case by (blast intro: table_path_trans path_sane)
qed (simp add: assms(2))


section \<open>Properties\<close>

text \<open>The first configuration of a fresh installation.\<close>

definition connects :: "platform \<Rightarrow> string \<Rightarrow> bool" where
  "connects pf db \<longleftrightarrow>
     (case p_dsn pf db of Inl _ \<Rightarrow> False | Inr n \<Rightarrow> p_pool pf db (if n < 16 then 16 else n) = None) \<and> migrate_run pf db = None"

definition plain_config :: "env \<Rightarrow> config \<Rightarrow> bool" where
  "plain_config e cfg \<longleftrightarrow>
     cf_database_url cfg \<noteq> [] \<and> provider_configured cfg \<and> validate_base_url (e_ip6 e) (cf_base_url cfg) = None \<and>
     (\<forall>s \<in> set (config_strings (normalize cfg)). CHR 0x00 \<notin> set s)"

lemma first_boot:
  fixes w :: "'z plugin_world_scheme"
  assumes quiet: "config_quiet e" and pf: "connects pf (cf_database_url cfg)"
    and cfg: "cfg = foldl apply_entry zero_config entries" "plain_config e cfg" and row: "aw_config w = None"
  obtains w' pool where "run_state (configure_plugin e pf pub entries) w = (None, w')" "ready_for pub (normalize cfg) w'"
    "pl_pool w' = Some pool" "w_table w' = w_table w" "w_http w' = w_http w" "w_events w' = w_events w"
proof -
  obtain res w' where run: "run_state (configure_plugin e pf pub entries) w = (res, w')" by fastforce
  have valid: "cf_base_url cfg \<noteq> []" "validate_base_url (e_ip6 e) (cf_base_url cfg) = None" "cf_database_url cfg \<noteq> []"
    "\<And>s. s \<in> set (config_strings (normalize cfg)) \<Longrightarrow> CHR 0x00 \<notin> set s"
    using cfg(2) by (auto simp: plain_config_def provider_configured_def)
  let ?w = "migrated pf (cf_database_url cfg) w"
  obtain w1 where imp: "run_state (import_legacy_app_config e cfg) ?w = (Inr (normalize (cfg\<lparr>cf_database_url := []\<rparr>)), w1)"
    using import_legacy_first [OF quiet migrated_config(2) [OF row] _ valid(4)] valid(2) by blast
  have "fst (run_state (on_config e pf pub cfg) w) = None"
    using pf imp by (auto simp: on_config_def connects_def Let_def apply_migrations_run split: sum.splits prod.splits)
  then have "res = None"
    using run valid unfolding configure_plugin_def configure_def cfg(1) [symmetric] Let_def
    by (auto simp: set_runtime_def split: prod.splits)
  with run cfg(1) show thesis
  proof (elim configure_plugin_cases)
    fix app conns w0
    assume "run_state (import_legacy_app_config e cfg) ?w = (Inr app, w0)" "ready_for pub (app\<lparr>cf_database_url := cf_database_url cfg\<rparr>) w'"
      and rest: "pl_pool w' = Some (cf_database_url cfg, conns)" "w_table w' = w_table w" "w_http w' = w_http w" "w_events w' = w_events w"
    moreover have "normalize (cfg\<lparr>cf_database_url := []\<rparr>)\<lparr>cf_database_url := cf_database_url cfg\<rparr> = normalize cfg"
      by (simp add: normalize_def)
    ultimately have "ready_for pub (normalize cfg) w'" using imp by simp
    from that [OF run [unfolded \<open>res = None\<close>] this rest] show thesis .
  qed (use valid in simp_all)
qed

lemma start_config [simp]: "aw_config (start w) = None"
  by (simp add: start_def app_world.extend_def rworld.extend_def)

text \<open>An installation for the witnesses.\<close>

definition demo_install :: "(string \<times> payload option) list" where
  "demo_install =
     [(''database_url'', Some [(''value'', JStr ''postgres://db'')]), (''base_url'', Some [(''value'', JStr ''https://books'')]),
      (''api_key'', Some [(''value'', JStr ''k'')])]"

definition installed_config :: config where
  "installed_config = zero_config\<lparr>cf_database_url := ''postgres://db'', cf_base_url := ''https://books'', cf_api_key := ''k''\<rparr>"

lemma demo_install_config: "installed_config = foldl apply_entry zero_config demo_install"
  by (simp add: demo_install_def installed_config_def apply_entry_def string_from_value_def)

lemma parse_books: "parse_url (\<lambda>_. False) ''https://books'' = Some \<lparr>u_scheme = ''https'', u_host = ''books'', u_path = [], u_query = []\<rparr>"
  by code_simp

lemma demo_boots: "connects demo_platform db" "e_ip6 e = (\<lambda>_. False) \<Longrightarrow> plain_config e installed_config" "config_quiet (demo_env up)"
  by (auto simp: connects_def demo_platform_def migrate_run_def plain_config_def installed_config_def provider_configured_def
      validate_base_url_def parse_books config_strings_def normalize_def zero_config_def config_quiet_def)

text \<open>A plugin that was installed and then given the request of \<open>demo_event\<close>.\<close>

lemma demo_plugin:
  assumes law: "law (demo_env refused)"
  obtains w1 w2 r pool where "run_state (configure_plugin (demo_env refused) demo_platform \<lparr>pub_host = True\<rparr> demo_install) (start (demo_world [])) = (None, w1)"
    "w2 = snd (run_state (host_event (demo_env refused) background demo_event) w1)" "ready_for \<lparr>pub_host = True\<rparr> (normalize installed_config) w1"
    "plugin_runs a law (start (demo_world [])) w1" "plugin_runs a law (start (demo_world [])) w2" "services_agree w1" "w_table w1 = []" "w_http w1 = []"
    "lookup (w_table w2) ''r1'' = Some r" "w_events w2 \<noteq> []"
proof -
  obtain w1 pool where boot: "run_state (configure_plugin (demo_env refused) demo_platform \<lparr>pub_host = True\<rparr> demo_install) (start (demo_world [])) = (None, w1)"
    "ready_for \<lparr>pub_host = True\<rparr> (normalize installed_config) w1" "pl_pool w1 = Some pool" "w_table w1 = []" "w_http w1 = []"
    by (rule first_boot [OF demo_boots(3) demo_boots(1) demo_install_config demo_boots(2), where w = "start (demo_world [])"]) auto
  obtain d c where d: "pl_consumer w1 = Some d" "cd_store d" "cd_ebk d = Some c" "cd_plugin d = plugin_id"
    and pub: "cd_pub d = Some \<lparr>pub_host = True\<rparr>"
    using boot(2) by (auto simp: ready_for_def Let_def provider_configured_def installed_config_def)
  have adr: "addressed d demo_event demo_payload"
    using d(4) by (simp add: addressed_def demo_event_def demo_event_facts plugin_id_def)
  obtain res w2 where ev: "run_state (forward_request (demo_env refused) d c background (request_id_of demo_payload) (monitoring_of demo_payload)) w1 = (res, w2)"
    by fastforce
  then have w2: "w2 = snd (run_state (host_event (demo_env refused) background demo_event) w1)"
    using d(1) by (simp add: host_event_def handle_event_addressed [OF adr d(2,3)])
  have rid: "request_id_of demo_payload \<noteq> []" by (simp add: demo_event_facts)
  obtain r where r: "lookup (w_table w2) ''r1'' = Some r" "w_events w2 \<noteq> []"
    by (rule forward_settles [OF quiet_demo rid ev]) (auto simp: settled_def demo_event_facts published_def pub)
  have runs: "plugin_runs a law (start (demo_world [])) w1"
    using plugin_step.configure [of law, OF law, of a "start (demo_world [])" demo_platform "\<lparr>pub_host = True\<rparr>" demo_install] boot(1)
    by (auto simp: plugin_runs_def)
  moreover have "plugin_step a law w1 w2"
    unfolding w2 by (rule plugin_step.event [of law, OF law]) simp
  ultimately have "plugin_runs a law (start (demo_world [])) w2" by (auto simp: plugin_runs_def)
  with that boot w2 runs r ready_agree [OF boot(2,3)] show thesis by blast
qed

text \<open>C3: what every reachable table looks like. From an empty table, after any sequence of starts,
  configurations, events, tasks and HTTP requests, with failures and interleavings anywhere, every
  request has one row, a known status, and, once it is past the acknowledgement without having
  failed, the id of its upstream job.\<close>

theorem reachable_requests_sane:
  assumes "plugin_runs admin law (start w) w'" and "w_table w = []" and "r \<in> set (w_table w')"
  shows "lookup (w_table w') (c_id r) = Some r \<and> c_id r \<noteq> [] \<and>
    c_status r \<in> {''submitted'', ''acknowledged'', ''searching'', ''found'', ''downloading'', ''imported'', ''failed''} \<and>
    (c_status r \<notin> {''submitted'', ''acknowledged'', ''failed''} \<longrightarrow> has_ext r)"
proof -
  have "sane_table (w_table (start w))" using assms(2) by (simp add: sane_table_def)
  then have "sane_table (w_table w')"
    using plugin_runs_path [OF assms(1) services_agree_start] path_sane by blast
  with assms(3) show ?thesis
    by (auto simp: sane_table_def list_all_iff sane_row_def wf_row_def early_def progress_def intro: lookup_distinct)
qed

theorem reachable_requests_sane_witness:
  "\<exists>w' r. plugin_runs False (\<lambda>_. True) (start (demo_world [])) w' \<and> r \<in> set (w_table w') \<and>
     lookup (w_table w') (c_id r) = Some r \<and> c_id r \<noteq> []"
proof (rule demo_plugin [where a = False and law = "\<lambda>_. True", OF TrueI])
  fix w1 w2 r assume runs: "plugin_runs False (\<lambda>_. True) (start (demo_world [])) w2" and "lookup (w_table w2) ''r1'' = Some r"
  then have "r \<in> set (w_table w2)" by (simp add: lookup_in)
  with reachable_requests_sane [OF runs _ this] runs show ?thesis by auto
qed

text \<open>C2: the plugin refines the life of a request. Whatever the host calls, seen through its phase,
  absent, open or done with an outcome, each request only takes steps of the abstract machine:
  created once, finished from open, revived or given up only by an admin. Without the admin
  routes, done is final, and a request never disappears, not even when the process is restarted.\<close>

theorem plugin_refines_lifecycle:
  assumes "plugin_runs admin law w w'" and "services_agree w" and "sane_table (w_table w)"
  shows "(phase_step admin)\<^sup>*\<^sup>* (phase_of (w_table w) rid) (phase_of (w_table w') rid) \<and>
    (\<not> admin \<longrightarrow>
       (phase_of (w_table w) rid = Done st \<longrightarrow> phase_of (w_table w') rid = Done st) \<and>
       (phase_of (w_table w) rid \<noteq> Absent \<longrightarrow> phase_of (w_table w') rid \<noteq> Absent))"
proof -
  have "table_path (allowed admin) (w_table w) (w_table w')"
    using plugin_runs_path [OF assms(1,2)] assms(3) by blast
  from path_refines [OF this, of rid] phase_final show ?thesis by (cases admin) auto
qed

theorem plugin_refines_lifecycle_witness:
  "phase_of (w_table (snd (run_state (host_task (demo_env refused) background ''reconciler'')
     (start (demo_world [demo_row\<lparr>c_status := ''imported''\<rparr>]))))) ''r1'' = Done ''imported''"
proof -
  let ?w = "start (demo_world [demo_row\<lparr>c_status := ''imported''\<rparr>])"
  let ?w' = "snd (run_state (host_task (demo_env refused) background ''reconciler'') ?w)"
  have runs: "plugin_runs False (\<lambda>_. True) ?w ?w'"
    using plugin_step.task [of "\<lambda>_. True" "demo_env refused" False ?w background "''reconciler''"] by (auto simp: plugin_runs_def)
  have sane: "sane_table (w_table ?w)" by (simp add: sane_table_def sane_row_def wf_row_def has_ext_def)
  have "phase_of (w_table ?w) ''r1'' = Done ''imported''" by (simp add: phase_of_def lookup_Cons)
  with plugin_refines_lifecycle [OF runs services_agree_start sane, of "''r1''" "''imported''"] show ?thesis by blast
qed

text \<open>C5: the services in force always belong together. In every state the host's calls lead to,
  there is a pool exactly when the routes have a store, the admin routes act on the reconciler
  the scheduler runs, and consumer, reconciler and catalog are either all absent or all on one
  client. That client is the one of the base URL and key of the configuration in force, which is what
  the routes were built with; a PATCH stores another one without putting it in force.\<close>

theorem reachable_services_agree:
  assumes "plugin_runs admin law (start w0) w"
  shows "(pl_pool w = None \<longleftrightarrow> \<not> sd_store (pl_server w)) \<and> sd_reconciler (pl_server w) = pl_reconciler w \<and>
    (case sd_client (pl_server w) of
       None \<Rightarrow> pl_consumer w = None \<and> pl_reconciler w = None
     | Some c \<Rightarrow>
         provider_configured (sd_config (pl_server w)) \<and> pl_pool w \<noteq> None \<and>
         c = new_client (cf_base_url (sd_config (pl_server w))) (cf_api_key (sd_config (pl_server w))) \<and>
         (\<exists>pub. pl_consumer w = Some \<lparr>cd_store = True, cd_pub = Some pub, cd_ebk = Some c, cd_plugin = plugin_id\<rparr> \<and>
            pl_reconciler w = Some \<lparr>rd_pub = pub, rd_ebk = c, rd_plugin = plugin_id\<rparr>))"
  using plugin_runs_path [OF assms services_agree_start] unfolding services_agree_def by blast

theorem reachable_services_agree_witness:
  "\<exists>w c. plugin_runs False (\<lambda>_. True) (start (demo_world [])) w \<and> sd_client (pl_server w) = Some c \<and>
     c = new_client ''https://books'' ''k''"
proof (rule demo_plugin [where a = False and law = "\<lambda>_. True", OF TrueI])
  fix w1 w2 assume runs: "plugin_runs False (\<lambda>_. True) (start (demo_world [])) w1" and ready: "ready_for \<lparr>pub_host = True\<rparr> (normalize installed_config) w1"
  from ready have "sd_client (pl_server w1) \<noteq> None" "sd_config (pl_server w1) = normalize installed_config"
    by (auto simp: ready_for_def Let_def provider_configured_def installed_config_def)
  with reachable_services_agree [OF runs] runs show ?thesis by (auto simp: installed_config_def)
qed

text \<open>C1: a request from installation to import. On an empty database the host's configuration is
  stored and taken; a submitted request with a title is acknowledged when the upstream accepts
  the job; when the upstream reports it completed, the next run of the scheduled task imports it
  under the job's id. The upstream is asked exactly twice, the second time for that job, and the
  portal receives the acknowledgement and the fulfilment with the book's id, in that order.\<close>

theorem request_end_to_end:
  assumes "quiet e" "config_quiet e" and "w_table w0 = []"
    and cfg: "cfg = foldl apply_entry zero_config entries" "plain_config e cfg" and pf: "connects pf (cf_database_url cfg)"
    and ev: "ev_name ev = ''plugin.silo.ebooks.request_submitted''" "ev_payload ev = Some p" "target_plugin_id p = (plugin_id, True)"
      "request_id_of p \<noteq> []" "mr_title (monitoring_of p) \<noteq> []"
    and up1: "\<And>r. e_http e (length (w_http w0)) r = ReqDone rs" "rs_read_error rs = None" "rs_status rs < 400"
      "decode_monitoring e (limit_read max_response_bytes (rs_body rs)) ''monitoring/add'' = Inr m" "ms_id m \<noteq> []"
    and up2: "\<And>r. e_http e (Suc (length (w_http w0))) r = ReqDone rs2" "rs_read_error rs2 = None" "rs_status rs2 < 400"
      "decode_monitoring e (limit_read max_response_bytes (rs_body rs2)) ''monitoring snapshot'' = Inr m2" "ms_status m2 = ''completed''"
    and steady: "\<And>k n. e_clock e n < e_clock e k + tick_timeout" "\<And>n. \<not> e_cancelled e n"
  shows "\<exists>w1 w2 w3 y q1 q2.
    run_state (configure_plugin e pf \<lparr>pub_host = True\<rparr> entries) (start w0) = (None, w1) \<and>
    run_state (host_event e cx ev) w1 = (Inr (), w2) \<and>
    run_state (host_task e background ''reconciler'') w2 = (Inr (), w3) \<and>
    lookup (w_table w3) (request_id_of p) = Some y \<and> c_status y = ''imported'' \<and> c_ext y = Some (ms_id m) \<and>
    w_http w3 = w_http w0 @ [q1, q2] \<and>
    rq_url q2 = trim_right_char (CHR ''/'') (cf_base_url cfg) @ ''/api/v1/monitoring/'' @ path_escape (ms_id m) \<and>
    (\<exists>pl1 pl2. w_events w3 = w_events w0 @ [(''request_acknowledged'', pl1), (''request_fulfilled'', pl2)] \<and>
       map_of pl1 ''external_id'' = Some (JStr (ms_id m)) \<and> map_of pl2 ''fulfilled_book_id'' = Some (JStr (ms_book m2)))"
proof -
  let ?pub = "\<lparr>pub_host = True\<rparr>" and ?c = "new_client (cf_base_url cfg) (cf_api_key cfg)"
  let ?d = "\<lparr>cd_store = True, cd_pub = Some ?pub, cd_ebk = Some ?c, cd_plugin = plugin_id\<rparr>"
  let ?rd = "\<lparr>rd_pub = ?pub, rd_ebk = ?c, rd_plugin = plugin_id\<rparr>"
  obtain w1 pool where boot: "run_state (configure_plugin e pf ?pub entries) (start w0) = (None, w1)" "ready_for ?pub (normalize cfg) w1"
    "pl_pool w1 = Some pool" "w_table w1 = []" "w_http w1 = w_http w0" "w_events w1 = w_events w0"
    by (rule first_boot [OF assms(2) pf cfg, of "start w0"]) (simp_all add: assms(3))
  have "provider_configured (normalize cfg)" using cfg(2) by (simp add: plain_config_def provider_configured_def)
  with boot(2) have svc: "pl_consumer w1 = Some ?d" "pl_reconciler w1 = Some ?rd" and free: "free w1"
    by (simp_all add: ready_for_def Let_def free_def)
  have adr: "addressed ?d ev p" using ev by (simp add: addressed_def)
  obtain res w2 where run: "run_state (handle_event e (Some (Some ?d)) cx ev) w1 = (res, w2)" by fastforce
  have "cd_store ?d" "cd_ebk ?d = Some ?c" by simp_all
  from first_event [OF assms(1) this adr ev(5) boot(4) free _ up1(2-4) run, unfolded boot(5), OF up1(1)]
  obtain y where y: "res = Inr ()" "w_table w2 = [y]" "c_id y = request_id_of p"
    "c_status y = ''acknowledged''" "c_ext y = opt_string (ms_id m)" "length (w_http w2) = Suc (length (w_http w0))" "free w2"
    "w_events w2 = w_events w1 @ published ?d ''request_acknowledged'' (acknowledged_payload (request_id_of p) (ms_id m) plugin_id)"
    by auto
  have event: "run_state (host_event e cx ev) w1 = (Inr (), w2)" using svc run y(1) by (simp add: host_event_def)
  have "pl_reconciler w2 = Some ?rd"
    using hosted_calls(1) [OF _ ready_agree [OF boot(2,3)], of True e cx ev] event svc assms(1) by (simp add: hosted_def)
  moreover obtain res2 w3 where tick: "run_state (tick e ?rd background) w2 = (res2, w3)" by fastforce
  moreover have row: "c_id y \<noteq> []" "c_ext y = Some (ms_id m)" using y(3,5) ev(4) up1(5) by simp_all
  have "e_http e (length (w_http w2)) r = ReqDone rs2" for r using y(6) up2(1) by simp
  from tick_completes [OF assms(1) y(7,2) row(1) y(4) row(2) up1(5) steady this up2(2-5) _ tick]
  have done3: "res2 = None" "\<exists>y'. lookup (w_table w3) (c_id y) = Some y' \<and> c_status y' = ''imported'' \<and> c_ext y' = Some (ms_id m)"
    "\<exists>r. w_http w3 = w_http w2 @ [r] \<and> rq_url r = cl_base ?c @ ''/api/v1/monitoring/'' @ path_escape (ms_id m)"
    "w_events w3 = w_events w2 @ [(''request_fulfilled'', ids_payload ?rd (scan_row (e_null_time e) y) @ [(''fulfilled_book_id'', JStr (ms_book m2))])]"
    by simp_all
  ultimately have task: "run_state (host_task e background ''reconciler'') w2 = (Inr (), w3)"
    using task_id_plain [of "''reconciler''"] by (simp add: host_task_def run_task_def)
  obtain q1 where "w_http w2 = w_http w1 @ [q1]" using first_event_http [OF run] y(6) boot(5) by auto
  with done3 y boot event task show ?thesis
    by (auto simp: published_def acknowledged_payload_def ids_payload_def new_client_def)
qed


theorem request_end_to_end_witness:
  "\<exists>w1 w2 w3 y.
    run_state (configure_plugin ((demo_env two_answers)\<lparr>e_clock := \<lambda>_. 5\<rparr>) demo_platform \<lparr>pub_host = True\<rparr> demo_install) (start (demo_world [])) = (None, w1) \<and>
    run_state (host_event ((demo_env two_answers)\<lparr>e_clock := \<lambda>_. 5\<rparr>) background demo_event) w1 = (Inr (), w2) \<and>
    run_state (host_task ((demo_env two_answers)\<lparr>e_clock := \<lambda>_. 5\<rparr>) background ''reconciler'') w2 = (Inr (), w3) \<and>
    lookup (w_table w3) ''r1'' = Some y \<and> c_status y = ''imported'' \<and> c_ext y = Some ''job-1''"
proof -
  let ?e = "(demo_env two_answers)\<lparr>e_clock := \<lambda>_. 5\<rparr>"
  let ?rs = "\<lambda>b. \<lparr>rs_status = 200, rs_headers = [], rs_body = b, rs_read_error = None\<rparr>"
  have q: "quiet ?e" "config_quiet ?e" using quiet_demo [of two_answers] by (simp_all add: quiet_def config_quiet_def)
  have "plain_config ?e installed_config" by (rule demo_boots(2)) auto
  note boot = demo_install_config this demo_boots(1)
  have ev: "ev_name demo_event = ''plugin.silo.ebooks.request_submitted''" "ev_payload demo_event = Some demo_payload"
    "target_plugin_id demo_payload = (plugin_id, True)" "request_id_of demo_payload \<noteq> []" "mr_title (monitoring_of demo_payload) \<noteq> []"
    by (simp_all add: demo_event_def demo_event_facts plugin_id_def)
  have up: "e_http ?e (length (w_http (demo_world []))) r = ReqDone (?rs job_body)"
    "e_http ?e (Suc (length (w_http (demo_world [])))) r = ReqDone (?rs done_body)" for r
    by (simp_all add: two_answers_def)
  have clock: "e_clock ?e n < e_clock ?e k + tick_timeout" "\<not> e_cancelled ?e n" for k n
    by (simp_all add: tick_timeout_def second_def)
  have "\<exists>w1 w2 w3 y q1 q2.
    run_state (configure_plugin ?e demo_platform \<lparr>pub_host = True\<rparr> demo_install) (start (demo_world [])) = (None, w1) \<and>
    run_state (host_event ?e background demo_event) w1 = (Inr (), w2) \<and>
    run_state (host_task ?e background ''reconciler'') w2 = (Inr (), w3) \<and>
    lookup (w_table w3) (request_id_of demo_payload) = Some y \<and> c_status y = ''imported'' \<and> c_ext y = Some ''job-1'' \<and>
    w_http w3 = w_http (demo_world []) @ [q1, q2] \<and>
    rq_url q2 = trim_right_char (CHR ''/'') (cf_base_url installed_config) @ ''/api/v1/monitoring/'' @ path_escape ''job-1'' \<and>
    (\<exists>pl1 pl2. w_events w3 = w_events (demo_world []) @ [(''request_acknowledged'', pl1), (''request_fulfilled'', pl2)] \<and>
       map_of pl1 ''external_id'' = Some (JStr ''job-1'') \<and> map_of pl2 ''fulfilled_book_id'' = Some (JStr ''b7''))"
    using request_end_to_end [OF q _ boot ev up(1) _ _ _ _ up(2) _ _ _ _ clock,
        of "\<lparr>ms_id = ''job-1'', ms_status = ''queued'', ms_book = []\<rparr>" "\<lparr>ms_id = ''job-1'', ms_status = ''completed'', ms_book = ''b7''\<rparr>" background]
    by (simp add: job_body_decodes done_body_decodes)
  then show ?thesis by (auto simp: demo_event_facts)
qed

end
