(* ===== verification/Announcements.thy ===== *)
theory Announcements
  imports Plugin_System
begin

text \<open>
  What the plugin publishes. Every event has the form the portal expects and is about a request
  whose row exists, whichever calls fail and whatever other goroutines write. The consumer and the
  reconciler publish for a fixed set of requests (\<open>told\<close>); that these have rows is known where the
  set is (\<open>tells\<close>).
\<close>

section \<open>The events\<close>

text \<open>An event of plugin \<open>p\<close> about one of the requests \<open>S\<close>: its name and the texts it carries.\<close>

definition announces :: "string \<Rightarrow> string set \<Rightarrow> string \<times> payload \<Rightarrow> bool" where
  "announces p S ev \<longleftrightarrow>
     (let field = map_of (snd ev)
      in (\<exists>rid \<in> S. field ''request_id'' = Some (JStr rid) \<and> field ''requestId'' = Some (JStr rid)) \<and>
         field ''provider_plugin_id'' = Some (JStr p) \<and>
         (fst ev = ''request_failed'' \<and> (\<exists>s. field ''reason'' = Some (JStr s)) \<or>
          (\<exists>x. field ''external_id'' = Some (JStr x)) \<and>
          (fst ev = ''request_acknowledged'' \<or>
           fst ev = ''request_fulfilled'' \<and> (\<exists>b. field ''fulfilled_book_id'' = Some (JStr b)) \<or>
           fst ev = ''request_status_changed'' \<and> (\<exists>st \<in> {''searching'', ''found'', ''downloading''}. field ''status'' = Some (JStr st)))))"

lemma announces_mono: "announces p S ev \<Longrightarrow> S \<subseteq> S' \<Longrightarrow> announces p S' ev"
  by (auto simp: announces_def Let_def)

lemma announces_consumer:
  "announces p {rid} (''request_failed'', failed_payload rid p reason)"
  "announces p {rid} (''request_acknowledged'', acknowledged_payload rid x p)"
  by (simp_all add: announces_def failed_payload_def acknowledged_payload_def)

lemma announces_transition:
  assumes "rd_plugin d = p" and "translate_status s \<noteq> []"
  shows "announces p {request_id row} (transition_event d row (translate_status s) book)"
  using assms
  by (auto simp: announces_def transition_event_def ids_payload_def translate_status_def split: if_splits)

section \<open>Publishing for given requests\<close>

definition told :: "string \<Rightarrow> string set \<Rightarrow> 'z world_scheme \<Rightarrow> 'z world_scheme \<Rightarrow> bool" where
  "told p S w w' \<longleftrightarrow>
     rows_kept (w_table w) (w_table w') \<and> (\<exists>es. w_events w' = w_events w @ es \<and> list_all (announces p S) es)"

lemma run_stmts_rows_kept: "rows_kept t (run_stmts ss t)"
  by (rule table_path_rows_kept [where P = "\<lambda>_. True"], rule table_path_run_stmts) simp

interpretation told_effect: handler_effect "told p S" "\<lambda>_. True" "\<lambda>_. True"
  by unfold_locales
    (auto simp: told_def backend_only_def rows_kept_refl run_stmts_rows_kept intro: rows_kept_trans)

lemma told_backend:
  "effect_of (on_table (\<lambda>_. True)) m \<Longrightarrow> effect_of backend_only m \<Longrightarrow> effect_of (told p S) m"
  by (auto simp: effect_of_def told_def on_table_def backend_only_def intro: table_path_rows_kept)

lemma told_store [effect_intros]:
  "effect_of (told p S) (upsert_forwarded_request e r)" "effect_of (told p S) (mark_polled e rid ext st t)"
  by (intro told_backend on_table_upsert on_table_mark_polled backend_only_store; simp add: others_do_def)+

lemma told_publish_event:
  "announces p S (name, pl) \<Longrightarrow> effect_of (told p S) (publish_event pub name pl)"
  by (intro effect_ofI) (simp add: publish_event_run told_def rows_kept_refl split: if_splits)

lemma told_publish:
  "announces p S (name, pl) \<Longrightarrow> effect_of (told p S) (publish mpub name pl :: ('z rworld_scheme, _) state)"
  unfolding publish_def by (intro told_effect.effect_rules told_publish_event)

text \<open>The consumer.\<close>

lemma told_forward:
  assumes "cd_plugin d = p"
  shows "effect_of (told p {rid}) (forward_request e d c cx rid mr :: ('z rworld_scheme, _) state)"
  unfolding forward_request_def reject_request_def record_failure_def record_acknowledged_def assms
  by (intro told_effect.effect_rules effect_intros told_publish announces_consumer; (simp add: client_may_def; fail)?)

text \<open>The reconciler.\<close>

lemma told_memory [effect_intros]:
  "effect_of (told p S) (set_status s)" "effect_of (told p S) (record_error_changed rid msg)"
  "effect_of (told p S) (clear_error rid)" "effect_of (told p S) (set_backoff e dur)"
  by (rule effect_ofI, auto simp: set_status_def record_error_changed_def clear_error_def set_backoff_def
      now_run Let_def told_def rows_kept_refl)+

lemma told_poll_row:
  assumes "rd_plugin d = p" and "request_id row \<in> S"
  shows "effect_of (told p S) (poll_row e d cx fe row)"
proof -
  have event: "announces p S (fst t, snd t)"
    if "t = transition_event d row (translate_status s) book" "translate_status s \<noteq> []" for t s book
    using announces_mono [OF announces_transition [OF assms(1) that(2)], of row S book] assms(2) that(1) by simp
  show ?thesis
    unfolding poll_row_def poll_failed_def poll_answered_def save_error_def Let_def
    by (intro told_effect.effect_rules effect_intros told_publish_event event refl; (simp add: client_may_def; fail)?) auto
qed

lemma told_tick_rows:
  assumes "rd_plugin d = p" and "request_id ` set rows \<subseteq> S"
  shows "effect_of (told p S) (tick_rows e d cx fe rows)"
  using assms(2)
proof (induction rows arbitrary: fe)
  case (Cons row rows)
  then show ?case
    unfolding tick_rows.simps
    by (intro told_effect.effect_rules effect_intros told_poll_row assms(1) Cons.IH) auto
qed (simp add: told_effect.effect_return)

section \<open>Publishing for known requests\<close>

definition known :: "table \<Rightarrow> string set" where
  "known t = {rid. lookup t rid \<noteq> None}"

definition tells :: "string \<Rightarrow> 'z world_scheme \<Rightarrow> 'z world_scheme \<Rightarrow> bool" where
  "tells p w w' \<longleftrightarrow>
     rows_kept (w_table w) (w_table w') \<and>
     (\<exists>es. w_events w' = w_events w @ es \<and> list_all (announces p (known (w_table w'))) es)"

lemma lookup_known: "r \<in> set t \<Longrightarrow> \<exists>y. lookup t (c_id r) = Some y"
  by (induction t) (auto simp: lookup_def)

lemma rows_kept_known: "rows_kept t t' \<Longrightarrow> known t \<subseteq> known t'"
  by (force simp: rows_kept_def known_def)

lemma list_announces_mono: "list_all (announces p S) es \<Longrightarrow> S \<subseteq> S' \<Longrightarrow> list_all (announces p S') es"
  by (auto simp: list_all_iff intro: announces_mono)

interpretation tells_effect: handler_effect "tells p" "\<lambda>_. True" "\<lambda>_. True"
proof
  fix u v w :: "'z rworld_scheme"
  show "tells p w w" by (simp add: tells_def rows_kept_refl)
  assume "tells p u v" "tells p v w"
  then obtain es fs where "rows_kept (w_table u) (w_table v)" "w_events v = w_events u @ es" "list_all (announces p (known (w_table v))) es"
    "rows_kept (w_table v) (w_table w)" "w_events w = w_events v @ fs" "list_all (announces p (known (w_table w))) fs"
    by (auto simp: tells_def)
  then show "tells p u w"
    using list_announces_mono [OF _ rows_kept_known, of p "w_table v" es "w_table w"]
    by (auto simp: tells_def intro: rows_kept_trans)
qed (auto simp: tells_def backend_only_def rows_kept_refl run_stmts_rows_kept)

lemma told_tells: "told p S w w' \<Longrightarrow> S \<subseteq> known (w_table w') \<or> w_events w' = w_events w \<Longrightarrow> tells p w w'"
  by (auto simp: told_def tells_def intro: list_announces_mono)

lemma tells_handle_event:
  fixes w :: "'z rworld_scheme"
  assumes "\<And>d. df = Some (Some d) \<Longrightarrow> cd_plugin d = p"
  shows "tells p w (snd (run_state (handle_event e df cx ev) w))"
proof (cases rule: handle_event_cases [of e df cx ev w])
  case (forward d c pl)
  obtain res w' where run: "run_state (forward_request e d c cx (request_id_of pl) (monitoring_of pl)) w = (res, w')" by fastforce
  have "request_id_of pl \<noteq> []" using forward(4) by (simp add: addressed_def)
  from forward_request_any [OF run this] have "{request_id_of pl} \<subseteq> known (w_table w') \<or> w_events w' = w_events w"
    by (auto simp: known_def split: if_splits)
  with effect_ofD [OF told_forward run] assms forward(1) have "tells p w w'" by (blast intro: told_tells)
  with forward(5) run show ?thesis by simp
qed (simp_all add: tells_effect.effect_refl)

lemma tells_tick:
  assumes "rd_plugin d = p"
  shows "effect_of (tells p) (tick e d cx)"
proof (rule effect_ofI)
  fix w :: "'z rworld_scheme"
  obtain res w' where run: "run_state (tick e d cx) w = (res, w')" by fastforce
  then have "tells p w w'"
  proof (rule tick_cases)
    fix v v1 v2 :: "'z rworld_scheme" and rows tcx
    assume v: "w_table v = w_table w" "w_db v = w_db w" "w_events v = w_events w" "w_table w' = w_table v2" "w_events w' = w_events v2"
      and lst: "run_state (list_non_terminal e 200) v = (Inr rows, v1)"
      and loop: "run_state (tick_rows e d tcx None rows) v1 = (res, v2)"
    have "request_id ` set rows \<subseteq> known (w_table v1)"
      using lst by (rule list_non_terminal_any)
        (auto simp: known_def dest!: in_set_takeD set_select_non_terminal intro: lookup_known)
    from effect_ofD [OF told_tick_rows [OF assms this] loop]
    have "tells p v1 v2" by (intro told_tells) (auto simp: told_def dest: rows_kept_known)
    moreover have "tells p v v1" by (rule effect_ofD [OF tells_effect.store_reads(4) lst]) simp
    ultimately have "tells p v v2" by (rule tells_effect.effect_trans [rotated])
    with v show ?thesis by (simp add: tells_def)
  qed (simp_all add: idle_def tells_def rows_kept_refl run_stmts_rows_kept)
  with run show "tells p w (snd (run_state (tick e d cx) w))" by simp
qed

section \<open>The calls of the host\<close>

lemma tells_more:
  "effect_of backend_only m \<Longrightarrow> effect_of (on_table (\<lambda>_. True)) m \<Longrightarrow> effect_of (tells p) m"
  by (auto simp: effect_of_def tells_def on_table_def backend_only_def intro: table_path_rows_kept)

lemma tells_admin_actions:
  "effect_of (tells p) (retry_request e rid)" "effect_of (tells p) (mark_failed_manually e rid reason)"
proof -
  have "effect_of backend_only (retry_request e rid)" "effect_of backend_only (mark_failed_manually e rid reason)"
    unfolding retry_request_def mark_failed_manually_def by (intro backend_effect.effect_rules effect_intros)+
  then show "effect_of (tells p) (retry_request e rid)" "effect_of (tells p) (mark_failed_manually e rid reason)"
    by (intro tells_more on_table_retry on_table_mark_failed; simp add: others_do_def)+
qed

lemma tells_config: "effect_of config_only m \<Longrightarrow> effect_of (tells p) m"
  by (erule effect_of_mono) (simp add: config_only_def tells_def rows_kept_refl)

interpretation tells_routes: route_effect "tells p" "\<lambda>_. True" "\<lambda>_. True"
  by unfold_locales (intro tells_config config_only_store)

lemma tells_serve_route:
  assumes "\<And>rc. sd_reconciler d = Some rc \<Longrightarrow> rd_plugin rc = p"
  shows "effect_of (tells p) (serve_route e page d cx rt r :: ('z, _) aio)"
proof (rule tells_routes.serve_route_effect)
  show "effect_of (tells p) (handle_update_config e d r :: ('z, _) aio)"
    unfolding handle_update_config_def Let_def
    by (intro tells_effect.effect_rules config_only_store [THEN tells_config])
  show "effect_of (tells p) (handle_reconciler_run e d :: ('z, _) aio)"
    unfolding handle_reconciler_run_def
    by (intro tells_effect.effect_rules effect_intros tells_tick assms; assumption?)
  show "effect_of (tells p) (handle_retry_request e d i :: ('z, _) aio)" for i
    unfolding handle_retry_request_def by (intro tells_effect.effect_rules tells_admin_actions)
  show "effect_of (tells p) (handle_mark_failed_request e d i r :: ('z, _) aio)" for i
    unfolding handle_mark_failed_request_def by (intro tells_effect.effect_rules tells_admin_actions)
qed (simp_all add: client_may_def)

lemma tells_calls:
  fixes w :: "'z plugin_world_scheme"
  assumes "services_agree w"
  shows "tells plugin_id w (snd (run_state (host_event e cx ev) w))"
    and "tells plugin_id w (snd (run_state (host_task e cx key) w))"
    and "tells plugin_id w (snd (run_state (host_http e page chi cx req) w))"
proof -
  have names: "pl_consumer w = Some d \<Longrightarrow> cd_plugin d = plugin_id" "pl_reconciler w = Some rc \<Longrightarrow> rd_plugin rc = plugin_id"
      "sd_reconciler (pl_server w) = Some rc \<Longrightarrow> rd_plugin rc = plugin_id" for d rc
    using assms by (auto simp: services_agree_def split: option.splits)
  show "tells plugin_id w (snd (run_state (host_event e cx ev) w))"
    using tells_handle_event [of "Some (pl_consumer w)" plugin_id w e cx ev] names(1) by (simp add: host_event_def)
  have "effect_of (tells plugin_id :: 'z plugin_world_scheme \<Rightarrow> _) (run_task e (pl_reconciler w) cx key)"
    unfolding run_task_def by (intro tells_effect.effect_rules tells_tick names)
  then show "tells plugin_id w (snd (run_state (host_task e cx key) w))"
    by (simp add: host_task_def effect_of_def)
  have "effect_of (tells plugin_id :: 'z plugin_world_scheme \<Rightarrow> _) (handle (e_ip6 e)
       (Some (\<lambda>r. do { out \<leftarrow> serve_http e page chi (pl_server w) cx r; State_Monad.return (Some out) })) req)"
    by (intro tells_routes.handle_http_effect tells_routes.serve_http_effect tells_serve_route names)
  then show "tells plugin_id w (snd (run_state (host_http e page chi cx req) w))"
    by (simp add: host_http_def effect_of_def)
qed

text \<open>Every published event is about a request with a row.\<close>

definition events_known :: "'z world_scheme \<Rightarrow> bool" where
  "events_known w \<longleftrightarrow> list_all (announces plugin_id (known (w_table w))) (w_events w)"

lemma tells_events_known: "tells plugin_id w w' \<Longrightarrow> events_known w \<Longrightarrow> events_known w'"
  by (auto simp: tells_def events_known_def intro: list_announces_mono [OF _ rows_kept_known])

lemma events_known_cong: "w_table w' = w_table w \<Longrightarrow> w_events w' = w_events w \<Longrightarrow> events_known w' \<longleftrightarrow> events_known w"
  by (simp add: events_known_def)

lemma configure_plugin_silent:
  fixes w :: "'z plugin_world_scheme"
  assumes "run_state (configure_plugin e pf pub entries) w = (res, w')"
  shows "w_table w' = w_table w \<and> w_events w' = w_events w"
  using assms refl by (rule configure_plugin_cases) (simp_all add: services_kept_def)

lemma plugin_step_events_known:
  assumes "plugin_step admin law w w'" and "services_agree w" and "events_known w"
  shows "events_known w'"
  using assms(1)
proof cases
  case restart
  then show ?thesis
    using assms(3) events_known_cong [of "restart w" w] by (simp add: restart_def world.truncate_def)
next
  case (configure e pf pub entries)
  then show ?thesis
    using configure_plugin_silent [of e pf pub entries w] events_known_cong assms(3) by (metis prod.collapse)
qed (simp_all add: tells_events_known [OF _ assms(3)] tells_calls [OF assms(2)])

lemma plugin_runs_events_known:
  assumes "plugin_runs admin law w w'" and "services_agree w" and "events_known w"
  shows "events_known w'"
  using assms(1) unfolding plugin_runs_def
proof (induction rule: rtranclp_induct)
  case (step u v)
  then have "services_agree u" using plugin_runs_path [of admin law w u] assms(2) by (simp add: plugin_runs_def)
  with plugin_step_events_known [OF step.hyps(2)] step.IH show ?case by blast
qed (rule assms(3))

section \<open>Properties\<close>

text \<open>C7: what the portal hears. In every state the host's calls lead to, whichever calls to the
  database, the upstream and the configuration failed, each published event names a request that
  has a row, under both spellings of its id, and this plugin as its provider. It is one of four
  events and carries what belongs to it: a failure its reason, the others the upstream's id, a
  fulfilment the id of the book and a change of status one of the three open statuses.\<close>

theorem published_requests_known:
  assumes "plugin_runs admin law (start w0) w" and "w_events w0 = []" and "(name, pl) \<in> set (w_events w)"
  shows "\<exists>rid r. lookup (w_table w) rid = Some r \<and>
    map_of pl ''request_id'' = Some (JStr rid) \<and> map_of pl ''requestId'' = Some (JStr rid) \<and>
    map_of pl ''provider_plugin_id'' = Some (JStr ''silo.ebook-requests'') \<and>
    (name = ''request_failed'' \<and> (\<exists>s. map_of pl ''reason'' = Some (JStr s)) \<or>
     (\<exists>x. map_of pl ''external_id'' = Some (JStr x)) \<and>
     (name = ''request_acknowledged'' \<or>
      name = ''request_fulfilled'' \<and> (\<exists>b. map_of pl ''fulfilled_book_id'' = Some (JStr b)) \<or>
      name = ''request_status_changed'' \<and> (\<exists>st \<in> {''searching'', ''found'', ''downloading''}. map_of pl ''status'' = Some (JStr st))))"
proof -
  have "events_known (start w0)" using assms(2) by (simp add: events_known_def)
  from plugin_runs_events_known [OF assms(1) _ this] assms(3)
  have "announces plugin_id (known (w_table w)) (name, pl)" by (auto simp: events_known_def list_all_iff)
  then show ?thesis by (auto simp: announces_def Let_def known_def plugin_id_def)
qed

theorem published_requests_known_witness:
  "\<exists>w name pl rid r. plugin_runs False (\<lambda>_. True) (start (demo_world [])) w \<and> (name, pl) \<in> set (w_events w) \<and>
     lookup (w_table w) rid = Some r \<and> map_of pl ''request_id'' = Some (JStr rid)"
proof (rule demo_plugin [where a = False and law = "\<lambda>_. True", OF TrueI])
  fix w2 assume runs: "plugin_runs False (\<lambda>_. True) (start (demo_world [])) w2" and "w_events w2 \<noteq> []"
  then obtain name pl where "(name, pl) \<in> set (w_events w2)" by (metis list.set_intros(1) neq_Nil_conv prod.collapse)
  moreover obtain rid r where "lookup (w_table w2) rid = Some r" "map_of pl ''request_id'' = Some (JStr rid)"
    using published_requests_known [OF runs _ calculation] by auto
  ultimately show ?thesis using runs by blast
qed

end
