(* ===== verification/Safe_Methods.thy ===== *)
theory Safe_Methods
  imports Plugin_System
begin

text \<open>
  A \<open>GET\<close> request only looks: it may read the database and ask the upstream, but no row, no
  configuration, no service and no part of the reconciler's memory is different afterwards, and
  nothing is published.
\<close>

section \<open>Calls that only look\<close>


text \<open>Reading the configuration stores the empty row when there is none.\<close>

definition read_only :: "'z plugin_world_scheme \<Rightarrow> 'z plugin_world_scheme \<Rightarrow> bool" where
  "read_only w w' \<longleftrightarrow>
     w_table w' = w_table w \<and> w_events w' = w_events w \<and>
     (\<exists>qs. w_http w' = w_http w @ qs \<and> (\<forall>q \<in> set qs. rq_method q = ''GET'')) \<and>
     rc_locked w' = rc_locked w \<and> rc_status w' = rc_status w \<and> rc_last_error w' = rc_last_error w \<and> rc_backoff w' = rc_backoff w \<and>
     (aw_config w' = aw_config w \<or> aw_config w = None \<and> aw_config w' = Some (JObj [])) \<and> aw_runtime w' = aw_runtime w \<and>
     pl_pool w' = pl_pool w \<and> pl_closed w' = pl_closed w \<and> pl_consumer w' = pl_consumer w \<and>
     pl_reconciler w' = pl_reconciler w \<and> pl_server w' = pl_server w"

interpretation read_only_effect: effect read_only
  by unfold_locales (fastforce simp: read_only_def)+








section \<open>Properties\<close>






end
