(* ===== verification/Admin_Recovery.thy ===== *)
theory Admin_Recovery
  imports Announcements Safe_Methods
begin

text \<open>
  The admin's retry through the whole plugin: the call of the host, the route adapter, the router,
  the handler and the store, and then the scheduled task that polls the revived request.
\<close>

definition retry_pattern :: "string \<times> string" where
  "retry_pattern = (''POST'', ''/api/v1/admin/requests/{id}/retry'')"

lemma retry_registered: "map_of (route_table d) retry_pattern = Some (\<lambda>p. RetryRoute (p ''id''))"
  by (simp add: route_table_def retry_pattern_def)

text \<open>A request that is one the host's adapter accepts and the router serves by a pattern.\<close>

definition arrives :: "env \<Rightarrow> chi \<Rightarrow> server_deps \<Rightarrow> rpc_request \<Rightarrow> string \<times> string \<Rightarrow> url_params \<Rightarrow> http_in \<Rightarrow> bool" where
  "arrives e chi d req pat ps hr \<longleftrightarrow>
     int (length (rpc_body req)) \<le> max_body_bytes \<and> is_http_token (rpc_method_of req) \<and>
     http_request_of (e_ip6 e) req = Some hr \<and> chi (map fst (route_table d)) hr = Inr (pat, ps)"

lemma host_http_arrives:
  assumes "arrives e chi (pl_server w) req pat ps hr" and "map_of (route_table (pl_server w)) pat = Some f"
  shows "run_state (host_http e page chi cx req) w =
    (case run_state (serve_route e page (pl_server w) cx (f ps) hr) w of (out, w') \<Rightarrow> (rpc_response_of out, w'))"
  using assms
  by (auto simp: host_http_def arrives_def serve_http_def split: prod.splits
      intro: handle_served [THEN trans])

text \<open>The retried row comes first in the next work list when every other open row was polled before.\<close>

lemma retried_first:
  assumes "quiet e" and wf: "wf_table (w_table w)" and r: "lookup (w_table w) (c_id r) = Some r" "has_ext r"
    and others: "\<And>s. s \<in> set (w_table w) \<Longrightarrow> c_id s \<noteq> c_id r \<Longrightarrow> \<not> terminal (c_status s) \<Longrightarrow>
      \<exists>p. c_polled s = Some p \<and> e_null_time e < p"
  shows "run_state (retry_request e (c_id r)) w = (Inr (), applied e (Retry (c_id r)) w)"
    and "lookup (w_table (applied e (Retry (c_id r)) w)) (c_id r) = Some (retried_row (e_db_now e (length (w_db w))) r)"
    and "wf_table (w_table (applied e (Retry (c_id r)) w))"
    and "\<exists>ys. select_non_terminal (e_null_time e) (e_collate e) 200 (w_table (applied e (Retry (c_id r)) w)) =
      retried_row (e_db_now e (length (w_db w))) r # ys"
proof -
  let ?t = "w_table (applied e (Retry (c_id r)) w)" and ?y = "retried_row (e_db_now e (length (w_db w))) r"
  have rid: "c_id r \<noteq> []" using wf lookup_in [OF r(1)] by (auto simp: wf_table_def wf_row_def list_all_iff)
  show run: "run_state (retry_request e (c_id r)) w = (Inr (), applied e (Retry (c_id r)) w)"
    using retry_quiet [OF assms(1) rid wf] r by simp
  have look: "lookup ?t = (lookup (w_table w))(c_id r \<mapsto> ?y)"
    using r by (simp add: lookup_applied exec_map_def)
  then show y: "lookup ?t (c_id r) = Some ?y" by simp
  show wf': "wf_table ?t"
    using wf rid by (simp add: applied_def wf_table_exec del: exec_stmt.simps)
  then have dist: "distinct (map c_id ?t)" by (simp add: wf_table_def)
  have "\<exists>p. c_polled s = Some p \<and> e_null_time e < p" if s: "s \<in> set ?t" "s \<noteq> ?y" "\<not> terminal (c_status s)" for s
  proof -
    have at: "lookup ?t (c_id s) = Some s" by (rule lookup_distinct [OF dist s(1)])
    with y s(2) have id: "c_id s \<noteq> c_id r" by auto
    with at look have "s \<in> set (w_table w)" by (intro lookup_in [of _ "c_id s"]) simp
    with others id s(3) show ?thesis by blast
  qed
  then show "\<exists>ys. select_non_terminal (e_null_time e) (e_collate e) 200 ?t = ?y # ys"
    using dist lookup_in [OF y] by (intro fresh_row_first) (simp_all add: retried_row_def terminal_def)
qed

text \<open>C8: a retry recovers a request. The request has a row with an upstream job, of whatever status,
  in a table of any other requests, and every other open request was polled before, so that the
  retried one, whose poll time is cleared, comes first. A retry that reaches the plugin is answered
  with 200. The first request of the next run of the scheduled task asks for that job; when its
  answer is \<open>completed\<close>, then whatever the upstream answers to the task's other requests, the run
  leaves the request imported under the same job id, and the first event it publishes is the
  fulfilment of that request, with the id of the book.\<close>

theorem admin_retry_recovers:
  fixes w :: "'z plugin_world_scheme"
  assumes "quiet e" and svc: "services_agree w" "pl_reconciler w = Some d" "pub_host (rd_pub d)" "free w"
    and row: "wf_table (w_table w)" "lookup (w_table w) (c_id r) = Some r" "c_ext r = Some x" "x \<noteq> []"
    and others: "\<And>s. s \<in> set (w_table w) \<Longrightarrow> c_id s \<noteq> c_id r \<Longrightarrow> \<not> terminal (c_status s) \<Longrightarrow>
      \<exists>p. c_polled s = Some p \<and> e_null_time e < p"
    and req: "arrives e chi (pl_server w) req retry_pattern ps hr" "ps ''id'' = c_id r"
    and steady: "\<And>k n. e_clock e n < e_clock e k + tick_timeout" "\<And>n. \<not> e_cancelled e n"
    and up: "\<And>q. e_http e (length (w_http w)) q = ReqDone rs" "rs_read_error rs = None" "rs_status rs < 400"
      "decode_monitoring e (limit_read max_response_bytes (rs_body rs)) ''monitoring snapshot'' = Inr m" "ms_status m = ''completed''"
  shows "\<exists>resp w1 w2 res y q qs pl evs.
    run_state (host_http e page chi cx req) w = (resp, w1) \<and> rpc_status resp = 200 \<and>
    run_state (host_task e background ''reconciler'') w1 = (res, w2) \<and>
    lookup (w_table w2) (c_id r) = Some y \<and> c_status y = ''imported'' \<and> c_ext y = Some x \<and>
    w_http w2 = w_http w @ q # qs \<and> rq_url q = cl_base (rd_ebk d) @ ''/api/v1/monitoring/'' @ path_escape x \<and>
    w_events w2 = w_events w @ (''request_fulfilled'', pl) # evs \<and>
    map_of pl ''request_id'' = Some (JStr (c_id r)) \<and> map_of pl ''fulfilled_book_id'' = Some (JStr (ms_book m))"
proof -
  let ?w1 = "applied e (Retry (c_id r)) w" and ?y = "retried_row (e_db_now e (length (w_db w))) r"
  let ?out = "write_json 200 ok_json" and ?pl = "ids_payload d (scan_row (e_null_time e) (retried_row (e_db_now e (length (w_db w))) r)) @ [(''fulfilled_book_id'', JStr (ms_book m))]"
  have store: "sd_store (pl_server w)" using svc(1,2) by (auto simp: services_agree_def split: option.splits)
  have ext: "has_ext r" using row(3,4) by (simp add: has_ext_def)
  note retry = retried_first [OF assms(1) row(1,2) ext others]
  have "run_state (serve_route e page (pl_server w) cx (RetryRoute (c_id r)) hr) w = (?out, ?w1)"
    using retry(1) store by (simp add: serve_route_def handle_retry_request_def)
  then have http: "run_state (host_http e page chi cx req) w = (rpc_response_of ?out, ?w1)"
    using host_http_arrives [OF req(1) retry_registered, of page cx] req(2) by simp
  obtain ys where list: "select_non_terminal (e_null_time e) (e_collate e) 200 (w_table ?w1) = ?y # ys" using retry(4) by blast
  obtain res w2 where tick: "run_state (tick e d background) ?w1 = (res, w2)" by fastforce
  have w1: "free ?w1" "w_http ?w1 = w_http w" "w_events ?w1 = w_events w" "pl_reconciler ?w1 = Some d"
    using svc(2,4) by (simp_all add: applied_def free_def)
  have y: "c_id ?y = c_id r" "c_status ?y = ''acknowledged''" "c_ext ?y = Some x"
    using row(3) by (simp_all add: retried_row_def)
  have look: "lookup (w_table ?w1) (c_id ?y) = Some ?y" "c_id ?y \<noteq> []"
    using retry(2) y(1) row(1) lookup_in [OF row(2)] by (auto simp: wf_table_def wf_row_def list_all_iff)
  have "e_http e (length (w_http ?w1)) q = ReqDone rs" for q using up(1) w1(2) by simp
  from tick_completes_first [OF assms(1) w1(1) look y(2,3) row(4) retry(3) list steady this up(2-5) svc(3) tick]
  obtain y' q qs evs where fin: "lookup (w_table w2) (c_id r) = Some y'" "c_status y' = ''imported''" "c_ext y' = Some x"
    "w_http w2 = w_http w @ q # qs" "rq_url q = cl_base (rd_ebk d) @ ''/api/v1/monitoring/'' @ path_escape x"
    "w_events w2 = w_events w @ (''request_fulfilled'', ?pl) # evs"
    unfolding y(1) w1(2,3) by blast
  obtain res' where task: "run_state (host_task e background ''reconciler'') ?w1 = (res', w2)"
    using tick w1(4) task_id_plain [of "''reconciler''"] by (auto simp: host_task_def run_task_def)
  have status: "rpc_status (rpc_response_of ?out) = 200" by (simp add: rpc_response_of_def write_json_def json_out_def)
  have pl: "map_of ?pl ''request_id'' = Some (JStr (c_id r))" "map_of ?pl ''fulfilled_book_id'' = Some (JStr (ms_book m))"
    by (simp_all add: ids_payload_def scan_row_def y(1))
  from http status task fin pl show ?thesis by blast
qed

definition demo_retry :: rpc_request where
  "demo_retry = \<lparr>rpc_method = ''POST'', rpc_path = ''/api/v1/admin/requests/r1/retry'', rpc_query = None, rpc_headers = [], rpc_body = []\<rparr>"

definition retry_chi :: chi where
  "retry_chi pats r = Inr (retry_pattern, \<lambda>_. ''r1'')"

lemma demo_retry_arrives:
  obtains hr where "arrives e retry_chi d demo_retry retry_pattern (\<lambda>_. ''r1'') hr"
proof -
  have "has_prefix (rpc_path demo_retry) ''/''" "\<not> has_prefix (rpc_path demo_retry) ''//''" by (simp_all add: demo_retry_def has_prefix_def)
  then obtain hr where "http_request_of (e_ip6 e) demo_retry = Some hr"
    using http_request_of_path [OF parse_url_string [OF _ _ raw_query_safe]] by metis
  moreover have "is_http_token (rpc_method_of demo_retry)"
    by (simp add: demo_retry_def rpc_method_of_def is_http_token_def is_alnum_def less_eq_char_def)
  ultimately show thesis
    by (intro that [of hr]) (simp add: arrives_def retry_chi_def max_body_bytes_def demo_retry_def)
qed

theorem admin_retry_recovers_witness:
  "\<exists>w resp w1 w2 res y. w_table w = [demo_row\<lparr>c_status := ''failed''\<rparr>, demo_row\<lparr>c_id := ''r2''\<rparr>] \<and>
     run_state (host_http ((demo_env (answer 200 done_body))\<lparr>e_clock := \<lambda>_. 5\<rparr>) demo_page retry_chi background demo_retry) (w :: plugin_world) = (resp, w1) \<and>
     rpc_status resp = 200 \<and>
     run_state (host_task ((demo_env (answer 200 done_body))\<lparr>e_clock := \<lambda>_. 5\<rparr>) background ''reconciler'') w1 = (res, w2) \<and>
     lookup (w_table w2) ''r1'' = Some y \<and> c_status y = ''imported''"
proof -
  let ?e = "(demo_env (answer 200 done_body))\<lparr>e_clock := \<lambda>_. 5\<rparr>" and ?r = "demo_row\<lparr>c_status := ''failed''\<rparr>" and ?s = "demo_row\<lparr>c_id := ''r2''\<rparr>"
  let ?rs = "\<lparr>rs_status = 200, rs_headers = [(''Retry-After'', ''30'')], rs_body = done_body, rs_read_error = None\<rparr>"
  have q: "quiet ?e" "config_quiet ?e" using quiet_demo [of "answer 200 done_body"] by (simp_all add: quiet_def config_quiet_def)
  have "plain_config ?e installed_config" by (rule demo_boots(2)) auto
  obtain w pool where w: "ready_for \<lparr>pub_host = True\<rparr> (normalize installed_config) w" "pl_pool w = Some pool"
    "w_table (w :: plugin_world) = [?r, ?s]" "w_http w = []" "w_events w = []"
    by (rule first_boot [OF q(2) demo_boots(1) demo_install_config \<open>plain_config ?e installed_config\<close>
        start_config [of "demo_world [?r, ?s]"], of "\<lparr>pub_host = True\<rparr>"]) (simp add: demo_world_def)
  obtain d where d: "pl_reconciler w = Some d" "pub_host (rd_pub d)" "free w"
    using w(1) by (auto simp: ready_for_def Let_def provider_configured_def installed_config_def free_def)
  obtain hr where hr: "arrives ?e retry_chi (pl_server w) demo_retry retry_pattern (\<lambda>_. ''r1'') hr"
    by (rule demo_retry_arrives)
  have clock: "e_clock ?e n < e_clock ?e k + tick_timeout" "\<not> e_cancelled ?e n" for k n
    by (simp_all add: tick_timeout_def second_def)
  have up: "e_http ?e (length (w_http w)) q = ReqDone ?rs" for q by (simp add: answer_def)
  let ?m = "\<lparr>ms_id = ''job-1'', ms_status = ''completed'', ms_book = ''b7''\<rparr>"
  have t: "wf_table (w_table w)" "lookup (w_table w) (c_id ?r) = Some ?r" "c_ext ?r = Some ''job1''" "''job1'' \<noteq> []"
    by (simp_all add: w(3) wf_table_def wf_row_def demo_row_def lookup_Cons)
  have others: "\<exists>p. c_polled s = Some p \<and> e_null_time ?e < p" if "s \<in> set (w_table w)" for s
    using that w(3) by (auto simp: demo_row_def)
  have "\<exists>resp w1 w2 res y q qs pl evs.
    run_state (host_http ?e demo_page retry_chi background demo_retry) w = (resp, w1) \<and> rpc_status resp = 200 \<and>
    run_state (host_task ?e background ''reconciler'') w1 = (res, w2) \<and>
    lookup (w_table w2) (c_id ?r) = Some y \<and> c_status y = ''imported'' \<and> c_ext y = Some ''job1'' \<and>
    w_http w2 = w_http w @ q # qs \<and> rq_url q = cl_base (rd_ebk d) @ ''/api/v1/monitoring/'' @ path_escape ''job1'' \<and>
    w_events w2 = w_events w @ (''request_fulfilled'', pl) # evs \<and>
    map_of pl ''request_id'' = Some (JStr (c_id ?r)) \<and> map_of pl ''fulfilled_book_id'' = Some (JStr (ms_book ?m))"
    by (rule admin_retry_recovers [where rs = ?rs and x = "''job1''", OF q(1) ready_agree [OF w(1,2)] d t others hr _ clock up])
      (simp_all add: done_body_decodes)
  then obtain resp w1 w2 res y where fin: "run_state (host_http ?e demo_page retry_chi background demo_retry) w = (resp, w1)"
    "rpc_status resp = 200" "run_state (host_task ?e background ''reconciler'') w1 = (res, w2)"
    "lookup (w_table w2) (c_id ?r) = Some y" "c_status y = ''imported''" by blast
  have "c_id ?r = ''r1''" by simp
  with fin w(3) show ?thesis by metis
qed

end
