(* ===== verification/Config_Safety.thy ===== *)
theory Config_Safety
  imports Plugin_System
begin

text \<open>
  The configuration row. Whatever the host and the admin routes do, a row the plugin stores holds a
  base URL that is empty or valid, and never the connection string of the database. So the client
  in force is one for a valid base URL, every request it makes goes to the host of that URL, and only
  there is its key sent when the upstream redirects it.
\<close>

section \<open>Good rows\<close>

definition base_ok :: "(string \<Rightarrow> bool) \<Rightarrow> config \<Rightarrow> bool" where
  "base_ok ip6 c \<longleftrightarrow> cf_base_url c = [] \<or> validate_base_url ip6 (cf_base_url c) = None"

text \<open>The row the migration inserts, and those \<open>UpdateAppConfig\<close> writes.\<close>

definition good_row :: "(string \<Rightarrow> bool) \<Rightarrow> json \<Rightarrow> bool" where
  "good_row ip6 j \<longleftrightarrow> j = JObj [] \<or> (\<exists>c. j = config_json c \<and> cf_database_url c = [] \<and> base_ok ip6 c)"

definition row_ok :: "(string \<Rightarrow> bool) \<Rightarrow> 'z app_world_scheme \<Rightarrow> bool" where
  "row_ok ip6 w \<longleftrightarrow> (\<forall>j. aw_config w = Some j \<longrightarrow> good_row ip6 j)"

text \<open>The environments: other goroutines write good rows as well.\<close>

definition config_law :: "(string \<Rightarrow> bool) \<Rightarrow> env \<Rightarrow> bool" where
  "config_law ip6 e \<longleftrightarrow> e_ip6 e = ip6 \<and> (\<forall>k. \<forall>j \<in> set (e_config_others e k). good_row ip6 j)"

lemma good_row_decodes:
  assumes "good_row ip6 j"
  obtains c where "decode_config default_app_config j = Some c" "cf_database_url c = []" "base_ok ip6 c"
proof (cases "j = JObj []")
  case True
  then show thesis using decode_empty_object
    by (intro that [of default_app_config]) (simp_all add: default_app_config_def zero_config_def base_ok_def)
next
  case False
  with assms obtain c where "j = config_json c" "cf_database_url c = []" "base_ok ip6 c" by (auto simp: good_row_def)
  then show thesis
    by (intro that) (auto simp: decode_config_json default_app_config_def zero_config_def base_ok_def)
qed

lemma good_row_members:
  "good_row ip6 j \<Longrightarrow> \<exists>kvs. j = JObj kvs \<and> ''database_url'' \<notin> fst ` set kvs"
  by (auto simp: good_row_def config_json_def omit_if_def)

lemma others_good:
  assumes "config_law ip6 e" and "row_ok ip6 w" and "fold (\<lambda>j _. Some j) (e_config_others e k) (aw_config w) = Some j"
  shows "good_row ip6 j"
proof -
  have "\<forall>j. fold (\<lambda>j _. Some j) js cur = Some j \<longrightarrow> good_row ip6 j"
    if "\<forall>j \<in> set js. good_row ip6 j" "\<forall>j. cur = Some j \<longrightarrow> good_row ip6 j" for js cur
    using that by (induction js arbitrary: cur) auto
  from this [of "e_config_others e k" "aw_config w"] assms show ?thesis by (simp add: config_law_def row_ok_def)
qed

section \<open>Calls on the row\<close>

lemma config_query_good:
  assumes "config_law ip6 e" and "row_ok ip6 w" and "run_state (config_query e) w = (res, w')"
  shows "row_ok ip6 w' \<and> (\<forall>j. res = Inr (Some j) \<longrightarrow> good_row ip6 j)"
  using assms(3) others_good [OF assms(1,2), of "aw_config_calls w"]
  by (auto simp: config_query_def Let_def row_ok_def split: db_outcome.splits)

lemma config_exec_good:
  assumes "config_law ip6 e" and "row_ok ip6 w" and "run_state (config_exec e f) w = (res, w')"
    and "\<And>cur j. (\<And>i. cur = Some i \<Longrightarrow> good_row ip6 i) \<Longrightarrow> f cur = Inr (Some j) \<Longrightarrow> good_row ip6 j"
  shows "row_ok ip6 w'"
proof -
  let ?cur = "fold (\<lambda>j _. Some j) (e_config_others e (aw_config_calls w)) (aw_config w)"
  have cur: "good_row ip6 i" if "?cur = Some i" for i using others_good [OF assms(1,2) that] .
  then have "good_row ip6 j" if "f ?cur = Inr (Some j)" for j using assms(4) that by blast
  with cur assms(3) show ?thesis
    by (auto simp: config_exec_def Let_def row_ok_def split: db_outcome.splits sum.splits)
qed

lemma get_app_config_fuel_good:
  assumes "config_law ip6 e"
  shows "row_ok ip6 w \<Longrightarrow> run_state (get_app_config_fuel n e) w = (res, w') \<Longrightarrow>
    row_ok ip6 w' \<and> (\<forall>c. res = Some (Inr c) \<longrightarrow> cf_database_url c = [] \<and> base_ok ip6 c)"
proof (induction n arbitrary: w res w')
  case (Suc n)
  let ?ins = "\<lambda>cur. Inr (case cur of None \<Rightarrow> Some (JObj []) | Some j \<Rightarrow> Some j) :: goerr + json option"
  obtain q w1 where q: "run_state (config_query e) w = (q, w1)" by fastforce
  note good = config_query_good [OF assms Suc.prems(1) q]
  obtain x w2 where x: "run_state (config_exec e ?ins) w1 = (x, w2)" by fastforce
  have w2: "row_ok ip6 w2"
    using good config_exec_good [OF assms _ x] by (fastforce simp: good_row_def split: option.splits)
  show ?case
  proof (cases q)
    case (Inl err)
    with Suc.prems(2) q good show ?thesis by auto
  next
    case (Inr row)
    show ?thesis
    proof (cases row)
      case None
      with Inr Suc.prems(2) q x w2 show ?thesis by (auto split: option.splits dest: Suc.IH [OF w2])
    next
      case (Some j)
      with Inr good have "good_row ip6 j" by simp
      then obtain c where "decode_config default_app_config j = Some c" "cf_database_url c = []" "base_ok ip6 c"
        by (rule good_row_decodes)
      with Inr Some Suc.prems(2) q good show ?thesis by (auto simp: base_ok_def)
    qed
  qed
qed simp

lemma get_app_config_good:
  assumes "config_law ip6 e" and "row_ok ip6 w" and "run_state (get_app_config e) w = (res, w')"
  shows "row_ok ip6 w' \<and> (\<forall>c. res = Inr c \<longrightarrow> cf_database_url c = [] \<and> base_ok ip6 c)"
proof -
  obtain r v where "run_state (get_app_config_fuel 2 e) w = (r, v)" by fastforce
  with get_app_config_fuel_good [OF assms(1,2) this] assms(3) show ?thesis
    by (auto simp: get_app_config_def split: option.splits)
qed

lemma update_app_config_good:
  assumes "config_law ip6 e" and "row_ok ip6 w" and "run_state (update_app_config e c) w = (res, w')"
  shows "row_ok ip6 w'"
proof -
  let ?c = "normalize (c\<lparr>cf_database_url := []\<rparr>)"
  have ip6: "e_ip6 e = ip6" using assms(1) by (simp add: config_law_def)
  show ?thesis
  proof (cases "base_ok ip6 ?c")
    case True
    then have "good_row ip6 (config_json ?c)" by (auto simp: good_row_def)
    then have "row_ok ip6 v" if "run_state (config_exec e (\<lambda>_. map_sum id Some (jsonb_in (json_encode (config_json ?c))))) w = (x, v)" for x v
      by (intro config_exec_good [OF assms(1,2) that]) (auto simp: jsonb_in_config split: if_splits)
    with True assms(3) ip6 show ?thesis
      by (auto simp: update_app_config_def Let_def base_ok_def split: prod.splits if_splits)
  next
    case False
    with assms(2,3) ip6 show ?thesis
      by (auto simp: update_app_config_def Let_def base_ok_def split: option.splits if_splits)
  qed
qed

lemma import_good:
  assumes "config_law ip6 e" and "row_ok ip6 w" and "run_state (import_legacy_app_config e legacy) w = (res, w')"
  shows "row_ok ip6 w' \<and> (\<forall>c. res = Inr c \<longrightarrow> cf_database_url c = [] \<and> base_ok ip6 c)"
proof -
  obtain r w1 where get: "run_state (get_app_config e) w = (r, w1)" by fastforce
  note g1 = get_app_config_good [OF assms(1,2) get]
  obtain u w2 where upd: "run_state (update_app_config e (normalize (legacy\<lparr>cf_database_url := []\<rparr>))) w1 = (u, w2)" by fastforce
  have w2: "row_ok ip6 w2" using g1 update_app_config_good [OF assms(1) _ upd] by blast
  obtain r' w3 where get2: "run_state (get_app_config e) w2 = (r', w3)" by fastforce
  note g2 = get_app_config_good [OF assms(1) w2 get2]
  show ?thesis
    using assms(3) get upd get2 g1 g2 w2
    by (auto simp: import_legacy_app_config_def Let_def split: sum.splits option.splits if_splits)
qed

section \<open>The calls of the host\<close>

definition keeps_row :: "(string \<Rightarrow> bool) \<Rightarrow> 'z app_world_scheme \<Rightarrow> 'z app_world_scheme \<Rightarrow> bool" where
  "keeps_row ip6 w w' \<longleftrightarrow> (row_ok ip6 w \<longrightarrow> row_ok ip6 w')"

lemma row_ok_more: "rworld.more w' = rworld.more w \<Longrightarrow> row_ok ip6 w' \<longleftrightarrow> row_ok ip6 w"
  by (cases w; cases w') (simp add: row_ok_def)

interpretation keeps_row_effect: effect "keeps_row ip6"
  by unfold_locales (auto simp: keeps_row_def)

interpretation keeps_row_routes: route_effect "keeps_row ip6" "config_law ip6" "\<lambda>_. True"
proof
  fix w w' :: "'z app_world_scheme"
  assume "backend_only w w'"
  then show "keeps_row ip6 w w'"
    using row_ok_more [OF rworld_more_of, of w' w ip6] by (simp add: backend_only_def keeps_row_def)
next
  fix w w' :: "'z app_world_scheme"
  assume "world.more w' = world.more w"
  then show "keeps_row ip6 w w'" using row_ok_more [OF rworld_more_of, of w' w ip6] by (simp add: keeps_row_def)
next
  fix e assume "config_law ip6 e"
  then show "effect_of (keeps_row ip6) (get_app_config e)"
    by (intro effect_ofI) (metis get_app_config_good keeps_row_def prod.collapse)
qed

lemma keeps_row_config:
  assumes "config_law ip6 e"
  shows "effect_of (keeps_row ip6) (update_app_config e c)" and "effect_of (keeps_row ip6) (import_legacy_app_config e c)"
    and "effect_of (keeps_row ip6) (apply_migrations pf dsn)"
proof -
  show "effect_of (keeps_row ip6) (update_app_config e c)"
    by (intro effect_ofI) (metis assms update_app_config_good keeps_row_def prod.collapse)
  show "effect_of (keeps_row ip6) (import_legacy_app_config e c)"
    by (intro effect_ofI) (metis assms import_good keeps_row_def prod.collapse)
  show "effect_of (keeps_row ip6) (apply_migrations pf dsn)"
    by (intro effect_ofI) (auto simp: apply_migrations_def keeps_row_def row_ok_def migrated_row_def good_row_def split: option.splits)
qed

lemma keeps_row_more: "rworld.more w' = rworld.more w \<Longrightarrow> keeps_row ip6 w w'"
  unfolding keeps_row_def by (simp only: row_ok_more [of w' w]) blast

lemma keeps_row_memory: "effect_of (memory_only (\<lambda>_. True)) m \<Longrightarrow> effect_of (keeps_row ip6) m"
  by (erule effect_of_mono) (rule keeps_row_more, simp add: memory_only_def)

lemma keeps_row_services:
  "effect_of (keeps_row ip6) (install pub cfg pool)" "effect_of (keeps_row ip6) (close_pool pool)"
  "effect_of (keeps_row ip6) (set_runtime cfg)"
  by (rule effect_ofI, simp add: install_def store_consumer_def store_reconciler_def set_handler_def swap_pool_def forget_reconciler_def close_pool_def set_runtime_def
      Let_def keeps_row_def row_ok_def)+

lemma keeps_row_configure:
  assumes "config_law ip6 e"
  shows "effect_of (keeps_row ip6) (configure_plugin e pf pub entries :: ('z, _) pio)"
proof -
  have "effect_of (keeps_row ip6) (on_config e pf pub cfg :: ('z, _) pio)" for cfg
    unfolding on_config_def Let_def
    by (intro keeps_row_effect.effect_rules keeps_row_services keeps_row_config [OF assms])
  then show ?thesis
    unfolding configure_plugin_def configure_def Let_def
    by (intro keeps_row_effect.effect_rules keeps_row_services) auto
qed

lemma keeps_row_route:
  assumes "config_law ip6 e"
  shows "effect_of (keeps_row ip6) (serve_route e page d cx rt r :: ('z, _) aio)"
proof (rule keeps_row_routes.serve_route_effect [OF assms])
  show "effect_of (keeps_row ip6) (handle_update_config e d r :: ('z, _) aio)"
    unfolding handle_update_config_def Let_def
    by (intro keeps_row_effect.effect_rules keeps_row_config keeps_row_routes.config_read assms)
  have backend: "effect_of backend_only (retry_request e i)" "effect_of backend_only (mark_failed_manually e i reason)" for i reason
    unfolding retry_request_def mark_failed_manually_def by (intro backend_effect.effect_rules effect_intros)+
  show "effect_of (keeps_row ip6) (handle_retry_request e d i :: ('z, _) aio)" for i
    unfolding handle_retry_request_def
    by (intro keeps_row_memory memory_only_effect.effect_rules memory_only_backend backend)
  show "effect_of (keeps_row ip6) (handle_mark_failed_request e d i r :: ('z, _) aio)" for i
    unfolding handle_mark_failed_request_def
    by (intro keeps_row_memory memory_only_effect.effect_rules memory_only_backend backend)
  show "effect_of (keeps_row ip6) (handle_reconciler_run e d :: ('z, _) aio)"
    unfolding handle_reconciler_run_def
    by (intro keeps_row_memory memory_only_effect.effect_rules effect_intros memory_only_parts memory_only_tick)
      (simp_all add: client_allowed_def)
qed (simp add: client_may_def)

definition config_safe :: "(string \<Rightarrow> bool) \<Rightarrow> 'z plugin_world_scheme \<Rightarrow> bool" where
  "config_safe ip6 w \<longleftrightarrow> row_ok ip6 w \<and> base_ok ip6 (sd_config (pl_server w))"

lemma config_safe_calls:
  fixes w :: "'z plugin_world_scheme"
  assumes law: "config_law ip6 e" and others: "others_do (allowed a) e" and agree: "services_agree w" and safe: "config_safe ip6 w"
  shows "config_safe ip6 (snd (run_state (host_event e cx ev) w))"
    and "config_safe ip6 (snd (run_state (host_task e cx key) w))"
    and "a \<or> no_admin_routes chi \<Longrightarrow> config_safe ip6 (snd (run_state (host_http e page chi cx req) w))"
proof -
  note server = hosted_calls [OF others agree, unfolded hosted_def]
  have row: "row_ok ip6 w" and base: "base_ok ip6 (sd_config (pl_server w))" using safe by (simp_all add: config_safe_def)
  have "effect_of (keeps_row ip6 :: 'z plugin_world_scheme \<Rightarrow> _) (handle_event e (Some (pl_consumer w)) cx ev)"
    by (intro keeps_row_memory served_memory_only [where a = a] served_handle_event others) (simp add: client_allowed_def)
  then have "row_ok ip6 (snd (run_state (host_event e cx ev) w))"
    using row by (simp add: host_event_def effect_of_def keeps_row_def)
  with base server(1) [of cx ev] show "config_safe ip6 (snd (run_state (host_event e cx ev) w))"
    by (simp add: config_safe_def)
  have "effect_of (keeps_row ip6 :: 'z plugin_world_scheme \<Rightarrow> _) (run_task e (pl_reconciler w) cx key)"
    unfolding run_task_def
    by (intro keeps_row_memory memory_only_effect.effect_rules memory_only_tick) (simp add: client_allowed_def)
  then have "row_ok ip6 (snd (run_state (host_task e cx key) w))"
    using row by (simp add: host_task_def effect_of_def keeps_row_def)
  with base server(2) [of cx key] show "config_safe ip6 (snd (run_state (host_task e cx key) w))"
    by (simp add: config_safe_def)
  assume "a \<or> no_admin_routes chi"
  note server(3) [OF this, of page cx req]
  moreover have "effect_of (keeps_row ip6 :: 'z plugin_world_scheme \<Rightarrow> _) (handle (e_ip6 e)
       (Some (\<lambda>r. do { out \<leftarrow> serve_http e page chi (pl_server w) cx r; State_Monad.return (Some out) })) req)"
    by (intro keeps_row_routes.handle_http_effect keeps_row_routes.serve_http_effect keeps_row_route law)
  then have "row_ok ip6 (snd (run_state (host_http e page chi cx req) w))"
    using row by (simp add: host_http_def effect_of_def keeps_row_def)
  ultimately show "config_safe ip6 (snd (run_state (host_http e page chi cx req) w))"
    using base by (simp add: config_safe_def)
qed

lemma config_safe_configure:
  fixes w :: "'z plugin_world_scheme"
  assumes law: "config_law ip6 e" and safe: "config_safe ip6 w" and run: "run_state (configure_plugin e pf pub entries) w = (res, w')"
  shows "config_safe ip6 w'"
proof -
  have "row_ok ip6 w'"
    using effect_ofD [OF keeps_row_configure [OF law] run] safe by (simp add: keeps_row_def config_safe_def)
  moreover have "base_ok ip6 (sd_config (pl_server w'))"
    using run refl
  proof (rule configure_plugin_cases)
    fix app and conns :: int and w0
    assume imp: "run_state (import_legacy_app_config e (foldl apply_entry zero_config entries))
        (migrated pf (cf_database_url (foldl apply_entry zero_config entries)) w) = (Inr app, w0)"
      and ready: "ready_for pub (app\<lparr>cf_database_url := cf_database_url (foldl apply_entry zero_config entries)\<rparr>) w'"
    have "row_ok ip6 (migrated pf db w)" for db
    proof -
      have "keeps_row ip6 w (migrated pf db w)" by (rule effect_ofD [OF keeps_row_config(3) [OF law] apply_migrations_run])
      with safe show ?thesis by (simp add: keeps_row_def config_safe_def)
    qed
    from import_good [OF law this imp] ready show ?thesis by (simp add: ready_for_def Let_def base_ok_def)
  qed (use safe in \<open>simp_all add: config_safe_def services_kept_def\<close>)
  ultimately show ?thesis by (simp add: config_safe_def)
qed

lemma config_safe_step:
  assumes "plugin_step admin (config_law ip6) w w'" and "services_agree w" and "config_safe ip6 w"
  shows "config_safe ip6 w'"
  using assms(1)
proof cases
  case restart
  then show ?thesis
    using assms(3)
    by (simp add: config_safe_def row_ok_def restart_def start_def app_world.extend_def rworld.extend_def unconfigured_server_def
        base_ok_def zero_config_def)
next
  case (configure e pf pub entries)
  then show ?thesis using config_safe_configure [OF _ assms(3)] by (metis prod.collapse)
qed (simp_all add: config_safe_calls [OF _ _ assms(2,3)])

lemma config_safe_runs:
  assumes "plugin_runs admin (config_law ip6) (start w0) w"
  shows "config_safe ip6 w"
  using assms unfolding plugin_runs_def
proof (induction rule: rtranclp_induct)
  case base
  show ?case
    by (simp add: config_safe_def row_ok_def start_def app_world.extend_def rworld.extend_def unconfigured_server_def
        base_ok_def zero_config_def)
next
  case (step u v)
  then have "services_agree u" using plugin_runs_path [of admin "config_law ip6" "start w0" u] by (simp add: plugin_runs_def)
  with config_safe_step [OF step.hyps(2)] step.IH show ?case by blast
qed

lemma demo_law: "config_law (\<lambda>_. False) (demo_env up)"
  by (simp add: config_law_def demo_env_def)

text \<open>An upstream that redirects every request to another host, for the witness below.\<close>

definition leading_away :: env where
  "leading_away = (demo_env two_answers)\<lparr>e_redirects := \<lambda>_ _. [''elsewhere'']\<rparr>"

lemma leading_away_quiet [simp]: "quiet leading_away" "others_do P leading_away"
  by (simp_all add: leading_away_def quiet_def demo_env_def others_do_def)

section \<open>Properties\<close>

text \<open>C6: what is stored and what is in force. In every state the host's calls lead to, whichever
  calls fail, the configuration row is an object without a member \<open>database_url\<close>; it decodes to a
  configuration whose base URL is empty or accepted by \<open>ValidateBaseURL\<close>; and so is the base URL of
  the configuration the services are built from.\<close>

theorem reachable_config_valid:
  assumes "plugin_runs admin (config_law ip6) (start w0) w"
  shows "(\<forall>j. aw_config w = Some j \<longrightarrow>
      (\<exists>kvs. j = JObj kvs \<and> ''database_url'' \<notin> fst ` set kvs) \<and>
      (\<exists>c. decode_config default_app_config j = Some c \<and> cf_database_url c = [] \<and>
         (cf_base_url c = [] \<or> validate_base_url ip6 (cf_base_url c) = None))) \<and>
    (cf_base_url (sd_config (pl_server w)) = [] \<or> validate_base_url ip6 (cf_base_url (sd_config (pl_server w))) = None)"
proof -
  have safe: "config_safe ip6 w" by (rule config_safe_runs [OF assms])
  have "(\<exists>kvs. j = JObj kvs \<and> ''database_url'' \<notin> fst ` set kvs) \<and>
      (\<exists>c. decode_config default_app_config j = Some c \<and> cf_database_url c = [] \<and> base_ok ip6 c)"
    if "aw_config w = Some j" for j
  proof -
    have good: "good_row ip6 j" using safe that by (simp add: config_safe_def row_ok_def)
    from good_row_members [OF good] good_row_decodes [OF good] show ?thesis by blast
  qed
  with safe show ?thesis by (simp add: config_safe_def base_ok_def)
qed

theorem reachable_config_valid_witness:
  "\<exists>w. plugin_runs False (config_law (\<lambda>_. False)) (start (demo_world [])) w \<and> cf_base_url (sd_config (pl_server w)) = ''https://books'' \<and>
     validate_base_url (\<lambda>_. False) (cf_base_url (sd_config (pl_server w))) = None"
proof (rule demo_plugin [where a = False and law = "config_law (\<lambda>_. False)", OF demo_law])
  fix w1 assume runs: "plugin_runs False (config_law (\<lambda>_. False)) (start (demo_world [])) w1"
    and ready: "ready_for \<lparr>pub_host = True\<rparr> (normalize installed_config) w1"
  have "cf_base_url (sd_config (pl_server w1)) = ''https://books''"
    using ready by (simp add: ready_for_def Let_def installed_config_def)
  with reachable_config_valid [OF runs] runs show ?thesis by auto
qed

text \<open>C18: the configured host is the only one that is sent the key. In every reachable state,
  whatever event, task or HTTP request arrives and whichever calls fail, a request the client calls
  \<open>Do\<close> with carries the key of the configuration in force and goes to the scheme and host of its base
  URL, which \<open>ValidateBaseURL\<close> accepts: no id, query, path or payload can point it elsewhere. The
  upstream itself may redirect it to another host; of the at most ten requests \<open>Do\<close> makes then, only
  those to the host of the base URL carry the key.\<close>

theorem requests_stay_on_host:
  assumes reach: "plugin_runs admin (config_law ip6) (start w0) w" and others: "others_do (allowed True) e"
    and ip6: "e_ip6 e = ip6"
    and w': "w' \<in> {snd (run_state (host_event e cx ev) w), snd (run_state (host_task e cx key) w),
                   snd (run_state (host_http e page chi cx req) w)}"
    and k: "length (w_http w) \<le> k" "k < length (w_http w')" and q: "q = w_http w' ! k"
    and cfg: "cfg = sd_config (pl_server w)"
  shows "provider_configured cfg \<and> map_of (rq_headers q) (canonical_header ''X-API-Key'') = Some (cf_api_key cfg) \<and>
    (\<exists>u. parse_url ip6 (cf_base_url cfg) = Some u \<and> u_scheme u \<in> {''http'', ''https''} \<and> u_host u \<noteq> [] \<and>
       (\<forall>v. parse_url ip6 (rq_url q) = Some v \<longrightarrow> u_scheme v = u_scheme u \<and> u_host v = u_host u) \<and>
       length (wire e k q) \<le> 10 \<and>
       (\<forall>h \<in> set (wire e k q). canonical_header ''X-API-Key'' \<in> fst ` set (hop_headers h) \<longrightarrow> hop_host h = u_host u))"
proof -
  have agree: "services_agree w" using plugin_runs_path [OF reach services_agree_start] by blast
  have "hosted True (to_service w) w w'" using hosted_calls [OF others agree] w' by auto
  then obtain qs where "w_http w' = w_http w @ qs" "list_all (to_service w) qs" by (auto simp: hosted_def)
  with k q have "to_service w q" by (simp add: nth_append list_all_length)
  then obtain c path where c: "sd_client (pl_server w) = Some c" "has_prefix path ''/''" "rq_url q = cl_base c @ path"
    "map_of (rq_headers q) (canonical_header ''X-API-Key'') = Some (cl_key c)"
    by (auto simp: to_service_def to_client_def)
  with agree have cl: "provider_configured cfg" "c = new_client (cf_base_url cfg) (cf_api_key cfg)"
    by (auto simp: services_agree_def cfg)
  have key: "cl_key c = cf_api_key cfg" unfolding cl(2) by (simp add: new_client_def)
  have "validate_base_url ip6 (cf_base_url cfg) = None"
    using config_safe_runs [OF reach] cl(1) by (simp add: config_safe_def base_ok_def cfg provider_configured_def)
  from base_url_keeps_requests [OF this c(2) c(3) [unfolded cl(2)]]
  obtain u where u: "parse_url ip6 (cf_base_url cfg) = Some u" "u_scheme u \<in> {''http'', ''https''}" "u_host u \<noteq> []"
    "\<forall>v. parse_url ip6 (rq_url q) = Some v \<longrightarrow> u_scheme v = u_scheme u \<and> u_host v = u_host u" by auto
  have "\<forall>h \<in> set (wire e k q). canonical_header ''X-API-Key'' \<in> fst ` set (hop_headers h) \<longrightarrow> hop_host h = u_host u"
    using wire_key_at_host [of _ e k q] u(4) ip6 by metis
  with u length_wire have "\<exists>u. parse_url ip6 (cf_base_url cfg) = Some u \<and> u_scheme u \<in> {''http'', ''https''} \<and> u_host u \<noteq> [] \<and>
       (\<forall>v. parse_url ip6 (rq_url q) = Some v \<longrightarrow> u_scheme v = u_scheme u \<and> u_host v = u_host u) \<and>
       length (wire e k q) \<le> 10 \<and>
       (\<forall>h \<in> set (wire e k q). canonical_header ''X-API-Key'' \<in> fst ` set (hop_headers h) \<longrightarrow> hop_host h = u_host u)"
    by blast
  then show ?thesis using cl(1) c(4) key by simp
qed

theorem requests_stay_on_host_witness:
  "\<exists>w w' q. plugin_runs False (config_law (\<lambda>_. False)) (start (demo_world [])) w \<and>
     w' = snd (run_state (host_event leading_away background demo_event) w) \<and> w_http w' = [q] \<and>
     map_of (rq_headers q) (canonical_header ''X-API-Key'') = Some ''k'' \<and>
     (\<forall>v. parse_url (\<lambda>_. False) (rq_url q) = Some v \<longrightarrow> u_host v = ''books'') \<and>
     (\<forall>h \<in> set (wire leading_away 0 q). canonical_header ''X-API-Key'' \<in> fst ` set (hop_headers h) \<longrightarrow> hop_host h = ''books'')"
proof (rule demo_plugin [where a = False and law = "config_law (\<lambda>_. False)", OF demo_law])
  fix w1
  assume runs: "plugin_runs False (config_law (\<lambda>_. False)) (start (demo_world [])) w1"
    and ready: "ready_for \<lparr>pub_host = True\<rparr> (normalize installed_config) w1" and w1: "w_table w1 = []" "w_http w1 = []"
  let ?rs = "\<lparr>rs_status = 200, rs_headers = [], rs_body = job_body, rs_read_error = None\<rparr>"
  obtain d c where d: "pl_consumer w1 = Some d" "cd_store d" "cd_ebk d = Some c" "cd_plugin d = plugin_id" and cfg: "sd_config (pl_server w1) = normalize installed_config"
    and free: "free w1"
    using ready by (auto simp: ready_for_def Let_def provider_configured_def installed_config_def free_def)
  have adr: "addressed d demo_event demo_payload"
    using d(4) by (simp add: addressed_def demo_event_def demo_event_facts plugin_id_def)
  obtain res v where ev: "run_state (handle_event leading_away (Some (Some d)) background demo_event) w1 = (res, v)" by fastforce
  have "e_http leading_away (length (w_http w1)) r = ReqDone ?rs" for r by (simp add: leading_away_def two_answers_def w1)
  from first_event [OF leading_away_quiet(1) d(2,3) adr _ w1(1) free this _ _ _ ev] have "length (w_http v) = 1"
    by (auto simp: demo_event_facts w1 job_body_decodes)
  then obtain q where q: "w_http v = [q]" by (auto simp: length_Suc_conv)
  have v: "v = snd (run_state (host_event leading_away background demo_event) w1)" using d(1) ev by (simp add: host_event_def)
  have sent: "length (w_http w1) \<le> 0" "0 < length (w_http v)" "q = w_http v ! 0" using q w1 by simp_all
  have others: "others_do (allowed True) leading_away" by simp
  have call: "v \<in> {snd (run_state (host_event leading_away background demo_event) w1),
      snd (run_state (host_task leading_away background []) w1),
      snd (run_state (host_http leading_away demo_page (\<lambda>_ _. Inl not_found_page) background
        \<lparr>rpc_method = [], rpc_path = [], rpc_query = None, rpc_headers = [], rpc_body = []\<rparr>) w1)}" using v by simp
  have ip6: "e_ip6 leading_away = (\<lambda>_. False)" by (simp add: leading_away_def demo_env_def)
  from requests_stay_on_host [OF runs others ip6 call sent refl] have
    "map_of (rq_headers q) (canonical_header ''X-API-Key'') = Some ''k''" "\<forall>v. parse_url (\<lambda>_. False) (rq_url q) = Some v \<longrightarrow> u_host v = ''books''"
    "\<forall>h \<in> set (wire leading_away 0 q). canonical_header ''X-API-Key'' \<in> fst ` set (hop_headers h) \<longrightarrow> hop_host h = ''books''"
    using parse_books unfolding cfg by (simp_all add: installed_config_def)
  with runs v q show ?thesis by blast
qed


end
