(* ===== verification/Catalog_Items.thy ===== *)
theory Catalog_Items
  imports Catalog Json_Roundtrip
begin

text \<open>
  What the answers of the catalog say: the translation of \<open>internal/catalog/transform.go\<close> seen from
  the routes. The mechanics of the handlers are in \<open>Catalog\<close>.
\<close>

section \<open>What the catalog says of a book\<close>

text \<open>The fields of a book, and as its cover the plugin's own route, in which the id is one escaped
  segment.\<close>

definition about_book :: "'z book_scheme \<Rightarrow> (string \<times> json) list \<Rightarrow> bool" where
  "about_book b m \<longleftrightarrow>
     map_of m ''id'' = Some (JStr (bk_id b)) \<and> map_of m ''title'' = Some (JStr (bk_title b)) \<and>
     map_of m ''has_cover'' = Some (JBool (bk_has_cover b)) \<and> map_of m ''formats'' = Some (json_strings (bk_formats b)) \<and>
     (if bk_has_cover b then
        \<exists>seg. map_of m ''cover_url'' = Some (JStr (''/cover/'' @ seg @ ''/medium'')) \<and> path_unescape seg = Some (bk_id b) \<and>
          (\<forall>x \<in> set seg. x \<notin> {CHR ''/'', CHR ''?'', CHR ''#''})
      else map_of m ''cover_url'' = None)"

lemma map_of_omit: "map_of (omit_if b k j) = (if b then Map.empty else [k \<mapsto> j])"
  by (simp add: omit_if_def)

lemma map_of_summary:
  "map_of (summary_fields (to_summary b)) ''id'' = Some (JStr (bk_id b))"
  "map_of (summary_fields (to_summary b)) ''title'' = Some (JStr (bk_title b))"
  "map_of (summary_fields (to_summary b)) ''has_cover'' = Some (JBool (bk_has_cover b))"
  "map_of (summary_fields (to_summary b)) ''formats'' = Some (json_strings (bk_formats b))"
  "map_of (summary_fields (to_summary b)) ''cover_url'' =
     (if bk_has_cover b then Some (JStr (''/cover/'' @ path_escape (bk_id b) @ ''/medium'')) else None)"
  "map_of (summary_fields (to_summary b)) ''files'' = None"
  by (simp_all add: summary_fields_def to_summary_def map_of_omit map_add_def)

lemma escaped_segment:
  "path_unescape (path_escape s) = Some s \<and> (\<forall>x \<in> set (path_escape s). x \<notin> {CHR ''/'', CHR ''?'', CHR ''#''})"
  using path_unescape_escape set_path_escape path_separators_not_plain by fastforce

lemma map_of_append_other: "set (map fst ys) \<inter> K = {} \<Longrightarrow> k \<in> K \<Longrightarrow> map_of (xs @ ys) k = map_of xs k"
proof -
  assume "set (map fst ys) \<inter> K = {}" "k \<in> K"
  then have "map_of ys k = None" by (auto simp: map_of_eq_None_iff)
  then show ?thesis by (simp add: map_add_def split: option.split)
qed

lemma about_book_summary:
  assumes "set (map fst extra) \<inter> {''id'', ''title'', ''has_cover'', ''formats'', ''cover_url''} = {}"
  shows "about_book b (summary_fields (to_summary b) @ extra)"
proof -
  note keep = map_of_append_other [OF assms]
  show ?thesis
    unfolding about_book_def
    using keep [of "''id''"] keep [of "''title''"] keep [of "''has_cover''"] keep [of "''formats''"] keep [of "''cover_url''"]
      escaped_segment [of "bk_id b"]
    by (cases "bk_has_cover b") (auto simp only: map_of_summary insert_iff if_True if_False simp_thms intro!: exI [of _ "path_escape (bk_id b)"])
qed

lemma summary_other_cover: "to_summary (b\<lparr>bk_cover_url := u\<rparr>) = to_summary b"
  by (simp add: to_summary_def)

lemma detail_members:
  "\<exists>extra. detail_json (to_detail d) = JObj (summary_fields (to_summary d) @ extra) \<and>
     set (map fst extra) \<inter> {''id'', ''title'', ''has_cover'', ''formats'', ''cover_url''} = {} \<and>
     map_of extra ''files'' = Some (JArr (map (\<lambda>f. file_json \<lparr>ef_format = bf_format f, ef_size = bf_size f,
       ef_mime = format_to_mime (bf_format f), ef_url = bf_url f\<rparr>) (case bd_files d of None \<Rightarrow> [] | Some fs \<Rightarrow> fs)))"
proof -
  have "summary_fields (to_detail d) = summary_fields (to_summary d)"
    by (simp add: summary_fields_def to_detail_def ebook_summary.defs)
  then show ?thesis
    by (intro exI [of _ "drop (length (summary_fields (to_summary d)))
          (case detail_json (to_detail d) of JObj kvs \<Rightarrow> kvs | _ \<Rightarrow> [])"])
      (auto simp: detail_json_def omit_if_def to_detail_def ebook_summary.defs map_add_def split: option.splits)
qed

lemma client_get_answer:
  assumes "\<And>q. e_http e (length (w_http w)) q = ReqDone rs" and "rs_read_error rs = None" and "rs_status rs < 400"
  shows "\<exists>w'. run_state (client_get e c cx path) w = (Inr (limit_read max_response_bytes (rs_body rs)), w')"
  using assms by (simp add: client_get_def http_do_def read_response_def Let_def)

text \<open>C21: the catalog tells what the upstream said of a book, and never where the upstream is. When
  the upstream answers a listing or a search with a page, the answer is 200 with one item for each
  book, in order; a detail is answered with the book and its files in order, each with the media
  type of its format. Every item carries the book's id, title and formats, and a cover exactly when
  the book has one: the plugin's own route with the id as one escaped segment, whatever cover URL the
  upstream gave.\<close>

theorem catalog_translates_books:
  fixes w :: "'z world_scheme"
  assumes up: "\<And>q. e_http e (length (w_http w)) q = ReqDone rs" "rs_read_error rs = None" "rs_status rs < 400"
    and doc: "json_parse (limit_read max_response_bytes (rs_body rs)) = Some j"
  shows "(\<forall>p. read_page e j = Some p \<and> h \<in> {catalog_list e c cx r, catalog_search e c cx r} \<longrightarrow>
       (\<exists>shown rest. fst (run_state h w) = json_out 200 (JObj
            ((''items'', JArr (map (\<lambda>b. JObj (shown b)) (case pg_items p of None \<Rightarrow> [] | Some bs \<Rightarrow> bs))) # rest)) \<and>
          (\<forall>b :: book. about_book b (shown b) \<and> (\<forall>u. shown (b\<lparr>bk_cover_url := u\<rparr>) = shown b)))) \<and>
     (\<forall>d. read_detail e j = Some d \<and> i \<noteq> [] \<longrightarrow>
       (\<exists>m. fst (run_state (catalog_detail e c cx i) w) = json_out 200 (JObj m) \<and> about_book d m \<and>
          map_of m ''files'' = Some (JArr (map (\<lambda>f. file_json \<lparr>ef_format = bf_format f, ef_size = bf_size f,
            ef_mime = format_to_mime (bf_format f), ef_url = bf_url f\<rparr>) (case bd_files d of None \<Rightarrow> [] | Some fs \<Rightarrow> fs)))))"
proof (intro conjI allI impI)
  note get = client_get_answer [OF up]
  fix p assume p: "read_page e j = Some p \<and> h \<in> {catalog_list e c cx r, catalog_search e c cx r}"
  have books: "\<exists>w'. run_state (list_books e c cx q) w = (Inr p, w')" for q
    using get [of c cx "list_path q"] doc p by (auto simp: list_books_def decode_body_def)
  obtain w1 where "run_state (list_books e c cx (parse_list_params r)) w = (Inr p, w1)" using books by blast
  moreover obtain w2 where "run_state (list_books e c cx ((parse_list_params r)\<lparr>lp_query := url_query r ''q''\<rparr>)) w = (Inr p, w2)"
    using books by blast
  ultimately have "fst (run_state h w) = write_envelope p"
    using p by (auto simp: catalog_list_def catalog_search_def)
  moreover have "about_book b (summary_fields (to_summary b))" for b :: book
    using about_book_summary [of "[]" b] by simp
  ultimately show "\<exists>shown rest. fst (run_state h w) = json_out 200 (JObj
            ((''items'', JArr (map (\<lambda>b. JObj (shown b)) (case pg_items p of None \<Rightarrow> [] | Some bs \<Rightarrow> bs))) # rest)) \<and>
          (\<forall>b :: book. about_book b (shown b) \<and> (\<forall>u. shown (b\<lparr>bk_cover_url := u\<rparr>) = shown b))"
    by (intro exI [of _ "\<lambda>b. summary_fields (to_summary b)"] exI [of _ "omit_if (pg_next p = []) ''next_cursor'' (JStr (pg_next p)) @
          omit_if (pg_total p = 0) ''total'' (JNum (itoa (pg_total p)))"])
      (simp add: write_envelope_def page_json_def summary_other_cover comp_def)
next
  fix d assume d: "read_detail e j = Some d \<and> i \<noteq> []"
  obtain w' where "run_state (get_book e c cx i) w = (Inr d, w')"
    using client_get_answer [OF up, of c cx "''/api/v1/books/'' @ path_escape i"] doc d
    by (auto simp: get_book_def decode_body_def)
  then have out: "fst (run_state (catalog_detail e c cx i) w) = json_out 200 (detail_json (to_detail d))"
    using d by (simp add: catalog_detail_def)
  obtain extra where extra: "detail_json (to_detail d) = JObj (summary_fields (to_summary d) @ extra)"
    "set (map fst extra) \<inter> {''id'', ''title'', ''has_cover'', ''formats'', ''cover_url''} = {}"
    "map_of extra ''files'' = Some (JArr (map (\<lambda>f. file_json \<lparr>ef_format = bf_format f, ef_size = bf_size f,
       ef_mime = format_to_mime (bf_format f), ef_url = bf_url f\<rparr>) (case bd_files d of None \<Rightarrow> [] | Some fs \<Rightarrow> fs)))"
    using detail_members [of d] by blast
  from out extra(1,3) about_book_summary [OF extra(2), of d]
  show "\<exists>m. fst (run_state (catalog_detail e c cx i) w) = json_out 200 (JObj m) \<and> about_book d m \<and>
          map_of m ''files'' = Some (JArr (map (\<lambda>f. file_json \<lparr>ef_format = bf_format f, ef_size = bf_size f,
            ef_mime = format_to_mime (bf_format f), ef_url = bf_url f\<rparr>) (case bd_files d of None \<Rightarrow> [] | Some fs \<Rightarrow> fs)))"
    by (intro exI [of _ "summary_fields (to_summary d) @ extra"]) (simp add: map_add_def map_of_summary)
qed

definition shelf_doc :: json where
  "shelf_doc = JObj [(''items'', JArr [JObj [(''id'', JStr ''a/b''), (''title'', JStr ''Dune''), (''has_cover'', JBool True),
     (''cover_url'', JStr ''http://u/c'')]])]"

definition shelf :: "nat \<Rightarrow> http_request \<Rightarrow> http_result" where
  "shelf k q = ReqDone \<lparr>rs_status = 200, rs_headers = [], rs_body = json_encode shelf_doc, rs_read_error = None\<rparr>"

lemma shelf_parses: "json_parse (limit_read max_response_bytes (json_encode shelf_doc)) = Some shelf_doc"
proof -
  have "length (json_encode shelf_doc) < 1000" by code_simp
  then have "limit_read max_response_bytes (json_encode shelf_doc) = json_encode shelf_doc"
    by (simp add: limit_read_def max_response_bytes_def)
  moreover have "int_json shelf_doc" by (simp add: shelf_doc_def)
  ultimately show ?thesis by (simp only: parse_encoded_document)
qed

lemma shelf_reads: "read_page e shelf_doc = Some \<lparr>pg_items = Some [
    \<lparr>bk_id = ''a/b'', bk_title = ''Dune'', bk_authors = None, bk_isbn = [], bk_publisher = [], bk_series = [],
     bk_series_index = ''0'', bk_year = 0, bk_language = [], bk_cover_url = ''http://u/c'', bk_has_cover = True,
     bk_rating = ''0'', bk_formats = None\<rparr>], pg_next = [], pg_total = 0\<rparr>"
  by code_simp

theorem catalog_translates_books_witness:
  "\<exists>m rest seg. fst (run_state (catalog_list (demo_env shelf) demo_client background demo_http) (demo_world [])) =
      json_out 200 (JObj ((''items'', JArr [JObj m]) # rest)) \<and>
     map_of m ''cover_url'' = Some (JStr (''/cover/'' @ seg @ ''/medium'')) \<and> path_unescape seg = Some ''a/b''"
proof -
  let ?rs = "\<lparr>rs_status = 200, rs_headers = [], rs_body = json_encode shelf_doc, rs_read_error = None\<rparr>"
  let ?h = "catalog_list (demo_env shelf) demo_client background demo_http"
  have up: "e_http (demo_env shelf) (length (w_http (demo_world []))) q = ReqDone ?rs" for q
    by (simp add: shelf_def)
  have doc: "json_parse (limit_read max_response_bytes (rs_body ?rs)) = Some shelf_doc"
    using shelf_parses by simp
  from catalog_translates_books [where rs = ?rs and h = ?h and r = demo_http and c = demo_client and cx = background, OF up _ _ doc]
  obtain shown rest where out: "fst (run_state ?h (demo_world [])) = json_out 200 (JObj
      ((''items'', JArr (map (\<lambda>b. JObj (shown b)) (case pg_items (the (read_page (demo_env shelf) shelf_doc)) of None \<Rightarrow> [] | Some bs \<Rightarrow> bs))) # rest))"
    and shown: "\<forall>b. about_book b (shown b)"
    using shelf_reads [of "demo_env shelf"] by fastforce
  define b where "b = hd (the (pg_items (the (read_page (demo_env shelf) shelf_doc))))"
  have b: "bk_id b = ''a/b''" "bk_has_cover b" by (simp_all add: b_def shelf_reads)
  have "fst (run_state ?h (demo_world [])) = json_out 200 (JObj ((''items'', JArr [JObj (shown b)]) # rest))"
    using out by (simp add: b_def shelf_reads)
  moreover have "about_book b (shown b)" using shown by blast
  ultimately show ?thesis using b by (auto simp: about_book_def)
qed
end
