(* ===== verification/Diagnostics.thy ===== *)
theory Diagnostics
  imports Admin_Server
begin

text \<open>
  What the diagnostics of the admin server (\<open>handleDiagnostics\<close>, with \<open>Ping\<close> of the client) report,
  and whether it is true.
\<close>

section \<open>Ping\<close>

text \<open>An answer that counts as reachable: it could be read and its status is no error.\<close>

definition healthy :: "env \<Rightarrow> nat \<Rightarrow> http_request \<Rightarrow> bool" where
  "healthy e k q \<longleftrightarrow>
     (case e_http e k q of
        ReqDone rs \<Rightarrow> rs_status rs < 400 \<and> (rs_read_error rs = None \<or> max_response_bytes \<le> int (length (rs_body rs)))
      | _ \<Rightarrow> False)"

lemma client_get_healthy:
  assumes run: "run_state (client_get e c cx path) w = (r, w')"
  obtains (unsent) "w_http w' = w_http w" "\<And>b. r \<noteq> Inr b"
  | (sent) q where "w_http w' = w_http w @ [q]" "rq_url q = cl_base c @ path" "rq_method q = ''GET''"
      "(\<exists>b. r = Inr b) \<longleftrightarrow> healthy e (length (w_http w)) q"
proof -
  let ?q = "\<lparr>rq_method = ''GET'', rq_url = cl_base c @ path,
              rq_headers = [(canonical_header ''X-API-Key'', cl_key c), (''Accept'', ''application/json'')],
              rq_body = [], rq_deadline = cx_deadline cx, rq_timeout = cl_timeout c\<rparr>"
  have http: "w_http w2 = w_http w1" if "run_state (read_response e res) w1 = (a, w2)" for res a and w1 w2 :: "'b world_scheme"
    using that by (auto simp: read_response_def parse_retry_after_def Let_def now_run split: http_result.splits option.splits if_splits)
  show thesis
  proof (cases "e_http e (length (w_http w)) ?q")
    case (ReqInvalid m)
    with run show thesis
      by (intro unsent) (auto simp: client_get_def http_do_def read_response_def)
  next
    case (ReqFailed m)
    with run show thesis
      by (intro sent [of ?q]) (auto simp: client_get_def http_do_def read_response_def healthy_def)
  next
    case (ReqDone rs)
    let ?w0 = "w\<lparr>w_http := w_http w @ [?q]\<rparr>"
    from run ReqDone have rd: "run_state (read_response e (ReqDone rs)) ?w0 = (r, w')"
      by (simp add: client_get_def http_do_def)
    then have "(\<exists>b. r = Inr b) \<longleftrightarrow> healthy e (length (w_http w)) ?q"
      using ReqDone by (auto simp: read_response_def Let_def healthy_def split: option.splits if_splits prod.splits)
    with http [OF rd] show thesis by (intro sent [of ?q]) simp_all
  qed
qed

lemma ping_truthful:
  assumes run: "run_state (ping e c cx) w = (err, w')"
  shows "\<exists>qs. w_http w' = w_http w @ qs \<and>
    subseq (map rq_url qs) [cl_base c @ ''/api/v1/health'', cl_base c @ ''/health''] \<and>
    (err = None \<longleftrightarrow> (\<exists>i < length qs. healthy e (length (w_http w) + i) (qs ! i)))"
proof -
  obtain r1 w1 where g1: "run_state (client_get e c cx ''/api/v1/health'') w = (r1, w1)" by fastforce
  obtain r2 w2 where g2: "run_state (client_get e c cx ''/health'') w1 = (r2, w2)" by fastforce
  show ?thesis
  proof (cases r1)
    case (Inr b)
    with run g1 have "err = None" "w' = w1" by (simp_all add: ping_def)
    with Inr show ?thesis by (cases rule: client_get_healthy [OF g1]) auto
  next
    case (Inl x)
    with run g1 g2 have out: "w' = w2" "err = None \<longleftrightarrow> (\<exists>b. r2 = Inr b)" by (auto simp: ping_def split: sum.splits)
    from g1 show ?thesis
    proof (cases rule: client_get_healthy)
      case unsent
      note first = this
      from g2 show ?thesis
        by (cases rule: client_get_healthy) (use first out in \<open>auto intro!: exI [of _ "[_]"] exI [of _ "[]"]\<close>)
    next
      case (sent q)
      note first = this
      from g2 show ?thesis
      proof (cases rule: client_get_healthy)
        case unsent
        with first out Inl show ?thesis by (intro exI [of _ "[q]"]) auto
      next
        case (sent p)
        with first out Inl show ?thesis by (intro exI [of _ "[q, p]"]) (auto simp: less_Suc_eq)
      qed
    qed
  qed
qed

section \<open>The report\<close>

text \<open>The rest of the state is what \<open>Ping\<close> of the client leaves alone.\<close>

lemma ping_keeps:
  assumes "run_state (ping e c cx) w = (err, w')"
  shows "w_table w' = w_table w \<and> w_db w' = w_db w \<and> w_events w' = w_events w"
proof -
  obtain r1 w1 where g1: "run_state (client_get e c cx ''/api/v1/health'') w = (r1, w1)" by fastforce
  obtain r2 w2 where g2: "run_state (client_get e c cx ''/health'') w1 = (r2, w2)" by fastforce
  from upstream_only_client_get [OF g1] upstream_only_client_get [OF g2] assms g1 g2 show ?thesis
    by (auto simp: ping_def upstream_only_def split: sum.splits)
qed

text \<open>The two halves of the handler.\<close>

definition ask_upstream :: "env \<Rightarrow> server_deps \<Rightarrow> ctx \<Rightarrow> ('z, bool \<times> string) io" where
  "ask_upstream e d cx = (case sd_client d of
        None \<Rightarrow> State_Monad.return (False, ''not configured'')
      | Some c \<Rightarrow> do {
          err \<leftarrow> ping e c cx;
          State_Monad.return (case err of Some x \<Rightarrow> (False, err_text x) | None \<Rightarrow> (True, ''upstream reachable''))
        })"

definition ask_database :: "env \<Rightarrow> server_deps \<Rightarrow> ('z, (bool \<times> string) \<times> json) io" where
  "ask_database e d = (if \<not> sd_store d then State_Monad.return ((False, ''not configured''), JObj [])
       else do {
         p \<leftarrow> ping_pool e;
         res \<leftarrow> request_stats_of e;
         State_Monad.return ((case p of Some m \<Rightarrow> (False, m) | None \<Rightarrow> (True, ''database reachable'')),
            (case res of Inl _ \<Rightarrow> JObj [] | Inr s \<Rightarrow> stats_json s))
       })"

definition report :: "config \<Rightarrow> bool \<times> string \<Rightarrow> bool \<times> string \<Rightarrow> json \<Rightarrow> (string \<times> json) list" where
  "report cfg up db stats =
     [(''plugin_id'', JStr ''silo.ebook-requests''), (''role'', JStr ''download_provider''),
      (''configured'', JBool (provider_configured cfg)), (''base_url'', JStr (cf_base_url cfg)),
      (''features'', JArr (map JStr [''external_search'', ''request_snapshot'', ''admin_diagnostics'', ''provider_test_search''])),
      (''upstream'', go_map [(''ok'', JBool (fst up)), (''message'', JStr (snd up))]),
      (''database'', go_map [(''ok'', JBool (fst db)), (''message'', JStr (snd db))]),
      (''requests'', stats)]"

lemma handle_diagnostics_parts:
  "handle_diagnostics e d cx0 = do {
     cx \<leftarrow> with_timeout e cx0 (5 * second);
     up \<leftarrow> ask_upstream e d cx;
     (db, stats) \<leftarrow> ask_database e d;
     State_Monad.return (write_json 200 (go_map (report (sd_config d) up db stats)))
   }"
  by (simp only: handle_diagnostics_def ask_upstream_def ask_database_def report_def)

lemma ask_upstream_truthful:
  assumes run: "run_state (ask_upstream e d cx) w = ((up, m), w')"
  shows "\<exists>qs. w_http w' = w_http w @ qs \<and>
      subseq (map rq_url qs) (case sd_client d of None \<Rightarrow> [] | Some c \<Rightarrow> [cl_base c @ ''/api/v1/health'', cl_base c @ ''/health'']) \<and>
      (up \<longleftrightarrow> (\<exists>i < length qs. healthy e (length (w_http w) + i) (qs ! i))) \<and>
      w_table w' = w_table w \<and> w_db w' = w_db w \<and> w_events w' = w_events w"
proof (cases "sd_client d")
  case None
  with run show ?thesis by (simp add: ask_upstream_def)
next
  case (Some c)
  obtain err v where p: "run_state (ping e c cx) w = (err, v)" by fastforce
  with run Some have "v = w'" "up \<longleftrightarrow> err = None" by (auto simp: ask_upstream_def split: option.splits)
  with ping_truthful [OF p] ping_keeps [OF p] Some show ?thesis by simp
qed

lemma ask_database_quiet:
  assumes run: "run_state (ask_database e d) w = ((db, stats), w')" and quiet: "quiet e"
  shows "fst db \<longleftrightarrow> sd_store d \<and> e_ping e (length (w_db w)) = None"
    and "sd_store d \<Longrightarrow> stats = stats_json (select_stats (w_table w))"
    and "w_table w' = w_table w" "w_http w' = w_http w" "w_events w' = w_events w"
  using run
  by (auto simp: ask_database_def ping_pool_def request_stats_of_def db_query_row_quiet [OF quiet] split: if_splits option.splits)

text \<open>C31: the diagnostics are true. The answer is always 200. It calls the upstream reachable exactly
  when one of its two health paths was answered without an error, and asks nothing else; it calls
  the database reachable exactly when there is one and it answered; it says configured exactly when
  base URL and key are both set; and its counts are those of the table, of which every row is
  active, failed or imported. No row changes and nothing is published.\<close>

theorem diagnostics_truthful:
  assumes run: "run_state (handle_diagnostics e d cx) w = (out, w')" and quiet: "quiet e"
  shows "\<exists>kvs up upmsg db dbmsg qs. out = json_out 200 (go_map kvs) \<and>
     map_of kvs ''upstream'' = Some (go_map [(''ok'', JBool up), (''message'', JStr upmsg)]) \<and>
     map_of kvs ''database'' = Some (go_map [(''ok'', JBool db), (''message'', JStr dbmsg)]) \<and>
     map_of kvs ''configured'' = Some (JBool (cf_base_url (sd_config d) \<noteq> [] \<and> cf_api_key (sd_config d) \<noteq> [])) \<and>
     w_http w' = w_http w @ qs \<and>
     subseq (map rq_url qs) (case sd_client d of None \<Rightarrow> [] | Some c \<Rightarrow> [cl_base c @ ''/api/v1/health'', cl_base c @ ''/health'']) \<and>
     (up \<longleftrightarrow> (\<exists>i < length qs. healthy e (length (w_http w) + i) (qs ! i))) \<and>
     (db \<longleftrightarrow> sd_store d \<and> e_ping e (length (w_db w)) = None) \<and>
     (sd_store d \<longrightarrow> (\<exists>s. map_of kvs ''requests'' = Some (stats_json s) \<and> total s = length (w_table w) \<and>
        total s = active s + failed s + imported s \<and> unsubmitted s \<le> active s \<and>
        active s = length (open_rows (w_table w)))) \<and>
     w_table w' = w_table w \<and> w_events w' = w_events w"
proof -
  obtain dcx w0 where t: "run_state (with_timeout e cx (5 * second)) w = (dcx, w0)" by fastforce
  obtain up upmsg w1 where a: "run_state (ask_upstream e d dcx) w0 = ((up, upmsg), w1)" by (metis surj_pair)
  obtain db stats w2 where b: "run_state (ask_database e d) w1 = ((db, stats), w2)" by (metis surj_pair)
  have w0: "w_table w0 = w_table w" "w_http w0 = w_http w" "w_db w0 = w_db w" "w_events w0 = w_events w"
    unfolding with_timeout_any(1) [OF t] by simp_all
  have out: "w' = w2" "out = json_out 200 (go_map (report (sd_config d) (up, upmsg) db stats))"
    using run t a b by (simp_all add: handle_diagnostics_parts write_json_def)
  obtain qs where qs: "w_http w1 = w_http w @ qs"
      "subseq (map rq_url qs) (case sd_client d of None \<Rightarrow> [] | Some c \<Rightarrow> [cl_base c @ ''/api/v1/health'', cl_base c @ ''/health''])"
      "up \<longleftrightarrow> (\<exists>i < length qs. healthy e (length (w_http w) + i) (qs ! i))"
    and w1: "w_table w1 = w_table w" "w_db w1 = w_db w" "w_events w1 = w_events w"
    using ask_upstream_truthful [OF a] unfolding w0 by blast
  note db = ask_database_quiet [OF b quiet, unfolded w1 w0]
  let ?s = "select_stats (w_table w)"
  have "active ?s = length (open_rows (w_table w))" by (simp add: select_stats_def count_where_def open_rows_def)
  moreover have "total ?s = length (w_table w)" by (simp add: select_stats_def)
  ultimately have stats: "sd_store d \<longrightarrow> (\<exists>s. stats = stats_json s \<and> total s = length (w_table w) \<and>
        total s = active s + failed s + imported s \<and> unsubmitted s \<le> active s \<and> active s = length (open_rows (w_table w)))"
    using db(2) select_stats_total [of "w_table w"] select_stats_bounds(1) [of "w_table w"] by metis
  show ?thesis
    by (rule exI [of _ "report (sd_config d) (up, upmsg) db stats"], rule exI [of _ up], rule exI [of _ upmsg],
        rule exI [of _ "fst db"], rule exI [of _ "snd db"], rule exI [of _ qs])
      (use out qs stats db in \<open>simp add: report_def provider_configured_def\<close>)
qed

text \<open>The first health path is missing and the second one answers.\<close>

definition old_upstream :: "nat \<Rightarrow> http_request \<Rightarrow> http_result" where
  "old_upstream k q = ReqDone \<lparr>rs_status = (if k = 0 then 404 else 200), rs_headers = [], rs_body = [], rs_read_error = None\<rparr>"

theorem diagnostics_truthful_witness:
  "\<exists>kvs m. fst (run_state (handle_diagnostics (demo_env old_upstream)
       (demo_server\<lparr>sd_client := Some demo_client\<rparr>) background) (demo_world [demo_row])) = json_out 200 (go_map kvs) \<and>
     map_of kvs ''configured'' = Some (JBool False) \<and>
     map_of kvs ''database'' = Some (go_map [(''ok'', JBool True), (''message'', JStr m)])"
proof -
  let ?d = "demo_server\<lparr>sd_client := Some demo_client\<rparr>"
  obtain out w' where run: "run_state (handle_diagnostics (demo_env old_upstream) ?d background) (demo_world [demo_row]) = (out, w')"
    by fastforce
  from diagnostics_truthful [OF run quiet_demo] obtain kvs db m where "out = json_out 200 (go_map kvs)"
    and conf: "map_of kvs ''configured'' = Some (JBool (cf_base_url (sd_config ?d) \<noteq> [] \<and> cf_api_key (sd_config ?d) \<noteq> []))"
    and db: "map_of kvs ''database'' = Some (go_map [(''ok'', JBool db), (''message'', JStr m)])"
      "db \<longleftrightarrow> sd_store ?d \<and> e_ping (demo_env old_upstream) (length (w_db (demo_world [demo_row]))) = None"
    by (elim exE conjE)
  then have "fst (run_state (handle_diagnostics (demo_env old_upstream) ?d background) (demo_world [demo_row])) = json_out 200 (go_map kvs)"
    using run by simp
  moreover have "map_of kvs ''configured'' = Some (JBool False)" using conf by (simp add: demo_server_def zero_config_def)
  moreover have "map_of kvs ''database'' = Some (go_map [(''ok'', JBool True), (''message'', JStr m)])"
    using db by (simp add: demo_server_def)
  ultimately show ?thesis by (intro exI conjI)
qed

end
