(* ===== verification/Sha256_Vector.thy ===== *)
theory Sha256_Vector
  imports Plugin_Manifest
begin

text \<open>
  A check of the model of SHA-256 against the standard: the digest of the message \<open>abc\<close> as FIPS 180
  gives it, computed by the definitions of \<open>Plugin_Manifest\<close> in steps that simplify quickly.
\<close>

definition abc_schedule :: "32 word list" where
  "abc_schedule =
     [0x61626380, 0, 0, 0, 0, 0, 0, 0, 0, 0, 0, 0, 0, 0, 0, 0x00000018, 0x61626380, 0x000F0000,
      0x7DA86405, 0x600003C6, 0x3E9D7B78, 0x0183FC00, 0x12DCBFDB, 0xE2E2C38E, 0xC8215C1A, 0xB73679A2,
      0xE5BC3909, 0x32663C5B, 0x9D209D67, 0xEC8726CB, 0x702138A4, 0xD3B7973B, 0x93F5997F, 0x3B68BA73,
      0xAFF4FFC1, 0xF10A5C62, 0x0A8B3996, 0x72AF830A, 0x9409E33E, 0x24641522, 0x9F47BF94, 0xF0A64F5A,
      0x3E246A79, 0x27333BA3, 0x0C4763F2, 0x840ABF27, 0x7A290D5D, 0x065C43DA, 0xFB3E89CB, 0xCC7617DB,
      0xB9E66C34, 0xA9993667, 0x84BADEDD, 0xC21462BC, 0x1487472C, 0xB20F7A99, 0xEF57B9CD, 0xEBE6B238,
      0x9FE3095E, 0x78BC8D4B, 0xA43FCF15, 0x668B2FF8, 0xEEABA2CC, 0x12B1EDEB]"

lemma abc_padded: "be_words (sha_pad (map of_char ''abc'')) = take 16 abc_schedule"
proof -
  have "replicate 52 (0 :: nat) = [0, 0, 0, 0, 0, 0, 0, 0, 0, 0, 0, 0, 0, 0, 0, 0, 0, 0, 0, 0, 0, 0, 0, 0, 0, 0,
      0, 0, 0, 0, 0, 0, 0, 0, 0, 0, 0, 0, 0, 0, 0, 0, 0, 0, 0, 0, 0, 0, 0, 0, 0, 0]"
    by (simp add: numeral_eq_Suc)
  then show ?thesis by (simp add: abc_schedule_def sha_pad_def Let_def be_bytes_def upt_rec)
qed

text \<open>The schedule, twelve words at a time.\<close>

lemma abc_words_16: "foldl sha_extend (take 16 abc_schedule) [16..<28] = take 28 abc_schedule"
  by code_simp

lemma abc_words_28: "foldl sha_extend (take 28 abc_schedule) [28..<40] = take 40 abc_schedule"
  by code_simp

lemma abc_words_40: "foldl sha_extend (take 40 abc_schedule) [40..<52] = take 52 abc_schedule"
  by code_simp

lemma abc_words_52: "foldl sha_extend (take 52 abc_schedule) [52..<64] = take 64 abc_schedule"
  by code_simp

lemma abc_scheduled: "sha_schedule (take 16 abc_schedule) = abc_schedule"
proof -
  have "[16..<64] = [16..<28] @ [28..<40] @ [40..<52] @ [52..<64 :: nat]"
    by (simp add: upt_rec)
  moreover have "take 64 abc_schedule = abc_schedule" by (simp add: abc_schedule_def)
  ultimately show ?thesis
    by (simp only: sha_schedule_def foldl_append abc_words_16 abc_words_28 abc_words_40 abc_words_52)
qed

text \<open>The rounds, eight at a time.\<close>

lemma abc_rounds_0:
  "foldl sha_round sha_init
     (take 8 (drop 0 (zip sha_k abc_schedule))) =
   [0x85A07B5F, 0xE5030380, 0x2B4209F5, 0x4409A6A, 0xC657A79, 0x9B27A401, 0x714260AD, 0x43ADA245]"
  by (simp add: sha_k_def sha_init_def abc_schedule_def Let_def rotr_def)

lemma abc_rounds_8:
  "foldl sha_round [0x85A07B5F, 0xE5030380, 0x2B4209F5, 0x4409A6A, 0xC657A79, 0x9B27A401, 0x714260AD, 0x43ADA245]
     (take 8 (drop 8 (zip sha_k abc_schedule))) =
   [0xB0FA238E, 0xC0645FDE, 0xD932EB16, 0x87912990, 0x7590DCD, 0xB92F20C, 0x745A48DE, 0x1E578218]"
  by (simp add: sha_k_def sha_init_def abc_schedule_def Let_def rotr_def)

lemma abc_rounds_16:
  "foldl sha_round [0xB0FA238E, 0xC0645FDE, 0xD932EB16, 0x87912990, 0x7590DCD, 0xB92F20C, 0x745A48DE, 0x1E578218]
     (take 8 (drop 16 (zip sha_k abc_schedule))) =
   [0xC5D53D8D, 0xA7A3623F, 0xC2606D6D, 0x9DC68B63, 0xAA47C347, 0x49F5114A, 0xE1257970, 0x8ADA8930]"
  by (simp add: sha_k_def sha_init_def abc_schedule_def Let_def rotr_def)

lemma abc_rounds_24:
  "foldl sha_round [0xC5D53D8D, 0xA7A3623F, 0xC2606D6D, 0x9DC68B63, 0xAA47C347, 0x49F5114A, 0xE1257970, 0x8ADA8930]
     (take 8 (drop 24 (zip sha_k abc_schedule))) =
   [0x73B33BF5, 0xEA992A22, 0xA0060B30, 0x363482C9, 0xBA591112, 0x109AB3A, 0xADE79437, 0x6112A3B7]"
  by (simp add: sha_k_def sha_init_def abc_schedule_def Let_def rotr_def)

lemma abc_rounds_32:
  "foldl sha_round [0x73B33BF5, 0xEA992A22, 0xA0060B30, 0x363482C9, 0xBA591112, 0x109AB3A, 0xADE79437, 0x6112A3B7]
     (take 8 (drop 32 (zip sha_k abc_schedule))) =
   [0x79EA687A, 0x6DC57A8A, 0x34DF1604, 0x41A65CB1, 0x1EFBC0A0, 0xF0781BC8, 0xA507A53D, 0x772A26B]"
  by (simp add: sha_k_def sha_init_def abc_schedule_def Let_def rotr_def)

lemma abc_rounds_40:
  "foldl sha_round [0x79EA687A, 0x6DC57A8A, 0x34DF1604, 0x41A65CB1, 0x1EFBC0A0, 0xF0781BC8, 0xA507A53D, 0x772A26B]
     (take 8 (drop 40 (zip sha_k abc_schedule))) =
   [0x4172328D, 0xA14C14B0, 0x72AB4B91, 0x26628815, 0xFECF0BC6, 0xD57B94A9, 0xB7755DA1, 0xA80F11F0]"
  by (simp add: sha_k_def sha_init_def abc_schedule_def Let_def rotr_def)

lemma abc_rounds_48:
  "foldl sha_round [0x4172328D, 0xA14C14B0, 0x72AB4B91, 0x26628815, 0xFECF0BC6, 0xD57B94A9, 0xB7755DA1, 0xA80F11F0]
     (take 8 (drop 48 (zip sha_k abc_schedule))) =
   [0x38CC9913, 0x3EC45CDB, 0xF5702FDB, 0x101FD28F, 0x54CB266B, 0xE50E1B4F, 0x9F4787C3, 0x529E7D00]"
  by (simp add: sha_k_def sha_init_def abc_schedule_def Let_def rotr_def)

lemma abc_rounds_56:
  "foldl sha_round [0x38CC9913, 0x3EC45CDB, 0xF5702FDB, 0x101FD28F, 0x54CB266B, 0xE50E1B4F, 0x9F4787C3, 0x529E7D00]
     (take 8 (drop 56 (zip sha_k abc_schedule))) =
   [0x506E3058, 0xD39A2165, 0x4D24D6C, 0xB85E2CE9, 0x5EF50F24, 0xFB121210, 0x948D25B6, 0x961F4894]"
  by (simp add: sha_k_def sha_init_def abc_schedule_def Let_def rotr_def)

lemma eight_more:
  assumes "foldl f s (take 8 (drop n xs)) = t" and "m = n + 8"
  shows "foldl f s (drop n xs) = foldl f t (drop m xs)"
  by (metis assms append_take_drop_id drop_drop add.commute foldl_append)

lemma abc_rounds: "foldl sha_round sha_init (zip sha_k abc_schedule) =
    [0x506E3058, 0xD39A2165, 0x4D24D6C, 0xB85E2CE9, 0x5EF50F24, 0xFB121210, 0x948D25B6, 0x961F4894]"
proof -
  have "drop 64 (zip sha_k abc_schedule) = []" by (simp add: sha_k_def)
  moreover note abc_rounds_0 [THEN eight_more, of 8, simplified] abc_rounds_8 [THEN eight_more, of 16, simplified]
    abc_rounds_16 [THEN eight_more, of 24, simplified] abc_rounds_24 [THEN eight_more, of 32, simplified]
    abc_rounds_32 [THEN eight_more, of 40, simplified] abc_rounds_40 [THEN eight_more, of 48, simplified]
    abc_rounds_48 [THEN eight_more, of 56, simplified] abc_rounds_56 [THEN eight_more, of 64, simplified]
  ultimately show ?thesis by (simp only: foldl_Nil)
qed

text \<open>The checksum \<open>loadManifest\<close> would set for an executable of these three bytes.\<close>

lemma sha256_abc: "hex_text (sha256 ''abc'') = ''ba7816bf8f01cfea414140de5dae2223b00361a396177a9cb410ff61f20015ad''"
proof -
  have "blocks16 (take 16 abc_schedule) = [take 16 abc_schedule]"
    by (simp add: abc_schedule_def)
  then have "sha256 ''abc'' = concat (map (\<lambda>w. be_bytes 4 (unat w)) (map2 (+) sha_init
      [0x506E3058, 0xD39A2165, 0x4D24D6C, 0xB85E2CE9, 0x5EF50F24, 0xFB121210, 0x948D25B6, 0x961F4894]))"
    by (simp add: sha256_def abc_padded [simplified] sha_block_def abc_scheduled abc_rounds)
  then show ?thesis by (simp add: sha_init_def be_bytes_def upt_rec hex_text_def hex_digits_def)
qed

end
