(* ===== verification/Spec2Isabelle.thy ===== *)
theory Spec2Isabelle
  imports Admin_Recovery Config_Safety Catalog_Items Diagnostics Sha256_Vector
begin

text \<open>
  This development models the plugin \<open>silo.ebook-requests\<close>, the Go program under \<open>src/\<close>, and proves
  what makes it correct. The plugin forwards book requests of a portal to a downloader (the
  upstream): it consumes \<open>request_submitted\<close> events, starts a job upstream, polls the job by a
  scheduled task, publishes what becomes of it, offers the upstream's catalog, and has an admin
  API over its queue and its configuration.

  \<^bold>\<open>The parts and how they interact\<close>

  The host calls \<open>Configure\<close>, the event consumer, the scheduled task and the HTTP routes.
  \<open>Configure\<close> (\<open>internal/runtime\<close>) runs the callback of \<open>main.go\<close>, which opens the database, applies
  the migrations, imports or reads the configuration row (\<open>internal/store/store.go\<close>) and replaces
  the services: the consumer's dependencies, the reconciler and the routes, all on one client of
  the upstream (\<open>internal/ebookdb\<close>). The consumer (\<open>internal/consumer\<close>), the reconciler
  (\<open>internal/reconciler\<close>) and the admin routes (\<open>internal/server\<close>) meet in the table
  \<open>forwarded_request\<close> (\<open>internal/store/request.go\<close>); the first two publish events
  (\<open>internal/event\<close>). The adapter \<open>internal/httproutes\<close> turns the host's RPC into an HTTP request for
  the router, which serves the admin routes and the catalog (\<open>internal/catalog\<close>).

  \<^bold>\<open>How Go becomes HOL\<close>

  A function that touches the world is a value of the state monad over \<open>world\<close> or an extension of
  it: \<open>rworld\<close> adds the reconciler's memory, \<open>app_world\<close> the configuration, \<open>plugin_world\<close> the pointers
  that \<open>main\<close> shares with its services. An error is a value of \<open>goerr\<close>, a result with an error a sum.
  What a run cannot choose is the record \<open>env\<close>: clock readings, cancellations, the outcome of each
  database call (answered, failed, executed but the answer lost, a result set that breaks off), the
  statements other goroutines run before each call, the answers of the upstream and its redirects on
  the way to them (the log of the world holds the requests \<open>Do\<close> is called with, \<open>wire\<close> in
  \<open>Ebookdb_Client\<close> is what is sent for one of them), and the parameters that stand for code outside \<open>src/\<close>. A theorem for every \<open>env\<close> covers failures at any point and
  every interleaving of whole statements; \<open>quiet\<close> names the environments where the database answers
  and nobody else writes. A Go string is the list of its bytes; durations and \<open>Retry-After\<close> are
  64-bit with Go's saturation, a response status is cut to 32 bits where the adapter cuts it.

  \<^bold>\<open>Theories\<close>

  \<^item> \<open>Prelude\<close>: the types, the collections \<open>run_simps\<close> and \<open>effect_intros\<close>, and the locale \<open>effect\<close>: a
    reflexive and transitive relation passes through return, bind, conditionals and cases.
  \<^item> \<open>Go_Std\<close>, \<open>Go_Url\<close>, \<open>Go_Json\<close>, \<open>Json_Roundtrip\<close>: what the program uses of \<open>strconv\<close>, \<open>strings\<close>,
    \<open>time\<close>, \<open>net/url\<close> and \<open>encoding/json\<close>; parsing what was encoded gives the value back.
  \<^item> \<open>Forwarded_Table\<close>, \<open>Table_Queries\<close>: every SQL statement of \<open>request.go\<close> as a function on the table,
    with what each keeps.
  \<^item> \<open>Plugin_IO\<close>: world, environment, primitive operations and the basic effects.
  \<^item> \<open>Request_Store\<close>: the methods of \<open>Store\<close>, the locale \<open>request_store\<close> that consumer and reconciler rely
    on, its interpretation, the properties of the store, and which interleavings agree.
    \<open>Event_Publisher\<close>: publishing, and what one write does in any environment.
  \<^item> \<open>Ebookdb_Client\<close>, \<open>Catalog_Client\<close>: the upstream's client: status classes, 429 with its
    \<open>Retry-After\<close>, body limits, redirects, monitoring and catalog calls with their decoding.
  \<^item> \<open>Event_Consumer\<close>, \<open>Reconciler\<close>, \<open>Reconciler_Spec\<close>, \<open>Task_Scheduler\<close>: the handler of events, the tick
    and its adapter, with the outcome of each branch in a quiet environment and in any one.
  \<^item> \<open>Http_Messages\<close>, \<open>Catalog\<close>, \<open>App_Config\<close>, \<open>Admin_Server\<close>, \<open>Admin_Routes\<close>, \<open>Http_Routes\<close>: the HTTP side, from
    the adapter over the registered routes to every handler. \<open>Catalog_Items\<close>: what the catalog says of
    a book. The locale \<open>config_store\<close> is what the admin routes and the import ask of the stored
    configuration. \<open>Diagnostics\<close>: that the diagnostics are true.
  \<^item> \<open>Plugin_Manifest\<close>, \<open>Plugin_Main\<close>: \<open>loadManifest\<close> with SHA-256, the callback of \<open>Configure\<close>, the
    migrations, and the services of the host. \<open>Sha256_Vector\<close> computes the digest of the standard's test
    message with the model.
  \<^item> \<open>Lifecycle\<close>: the abstract life of a request (absent, open, done) that every statement refines.
  \<^item> \<open>Handler_Effects\<close>: the locales \<open>handler_effect\<close> and \<open>route_effect\<close>, in which the HTTP handlers are
    walked through once for any relation on worlds. They are interpreted by the relations of the
    next theories.
  \<^item> \<open>Plugin_System\<close>: the step relation \<open>plugin_step\<close> of the host's calls and its reachable states:
    services that agree, rows that are sane, the life cycle, and a request from end to end.
    \<open>Config_Safety\<close>: the configuration row is always valid, every request is made to the
    configured host, and no redirect takes its key elsewhere. \<open>Safe_Methods\<close>: what a \<open>GET\<close> may do. \<open>Announcements\<close>: what is published. \<open>Admin_Recovery\<close>: the
    admin's retry through all layers.

  \<^bold>\<open>Loops, fuel and bounds\<close>

  The loop of a tick is recursion over the work list of at most 200 rows. \<open>GetAppConfig\<close> calls itself
  after it inserted a missing row; the model has fuel 2, and \<open>get_app_config_terminates\<close> shows that
  the second call answers or gives an error whatever the database does. The JSON parser has fuel
  \<open>2 * length + 2\<close>, which \<open>Json_Roundtrip\<close> shows to be enough for encoded text; \<open>TrimSpace\<close> has the
  length of its text. Nothing else needs fuel.

  \<^bold>\<open>Parameters\<close>

  pgx and golang-migrate (\<open>platform\<close>), the manifest parser of the SDK and the file system (\<open>process\<close>),
  chi's matching (\<open>chi\<close>, with \<open>chi_lawful\<close>: it serves registered patterns of the request's method
  only), Unicode case folding and collation (\<open>e_fold\<close>, \<open>e_collate\<close>), the texts of JSON errors
  (\<open>e_json_error\<close>), the printed form of floats (\<open>e_float\<close>), \<open>netip.ParseAddr\<close> (\<open>e_ip6\<close>) and HTTP dates
  (\<open>e_http_date\<close>). The style sheet, body and script of the admin page are static texts (\<open>admin_page\<close>).

  \<^bold>\<open>Not modelled\<close>

  Times are kept in nanoseconds, of which PostgreSQL stores microseconds; that it rejects a text with
  a NUL byte in a text column is one of the failures of \<open>e_db\<close>, which a \<open>quiet\<close> environment has not.
  The services are replaced one store after the other (\<open>install\<close>); a call of the host that arrives
  between two of these stores is not a step of \<open>plugin_step\<close>. Of a redirected request the host and the
  headers are modelled, not the change of its method. Log output; gRPC and the SDK's plumbing, including the constructors that only store a logger; more
  than one database (a new DSN names the same tables); a reconciler that is replaced while its tick
  runs (its statements are those of another goroutine); invalid UTF-8, Go's JSON depth limit, and
  repeated members that are lists; the limit on the number of query parameters; the SQL files
  themselves, whose schema is the type of the tables and whose one row is \<open>migrated_row\<close>.
\<close>

end
